(* ===== verification/Prelude.thy ===== *)
theory Prelude
  imports Main "HOL-Library.Word"
begin

unbundle bit_operations_syntax

text \<open>
  What every component shares.

  \<^item> Panics as values: a Rust panic (failed assertion, \<open>unwrap\<close> of \<open>None\<close>, index out of
    range, arithmetic overflow) is a value of type \<open>panic\<close>, a computation that may panic has
    type \<open>'a res\<close>, and \<open>bindR\<close> sequences two of them, so that nothing after a panic runs.
  \<^item> Machine arithmetic: \<open>add_w\<close>, \<open>sub_w\<close>, \<open>mul_w\<close>, \<open>neg_w\<close> are Rust's \<open>+\<close>, \<open>-\<close>, \<open>*\<close> and unary
    \<open>-\<close> on a fixed width. Their first argument says whether the build has overflow checks
    (the debug profile: overflow panics) or not (the release profile: overflow wraps). Rust's
    \<open>wrapping_add\<close> and \<open>wrapping_sub\<close> are \<open>+\<close> and \<open>-\<close> of the word library.
  \<^item> Lemmas on masked words that the connection table needs.
\<close>

named_theorems res_simps \<open>evaluation of computations that may panic\<close>

type_synonym u8 = "8 word"
type_synonym u16 = "16 word"
type_synonym u32 = "32 word"
type_synonym u64 = "64 word"
type_synonym i32 = "32 word"

section \<open>Panics\<close>

datatype panic =
    ArithOverflow
  | IndexOutOfBounds
  | AssertFailed
  | UnwrapNone
  | ExpectNone
  | DivByZero
  | ExplicitPanic

type_synonym 'a res = "panic + 'a"

definition bindR :: "'a res \<Rightarrow> ('a \<Rightarrow> 'b res) \<Rightarrow> 'b res" where
  "bindR m f = (case m of Inl e \<Rightarrow> Inl e | Inr x \<Rightarrow> f x)"

definition assertR :: "bool \<Rightarrow> unit res" where
  "assertR b = (if b then Inr () else Inl AssertFailed)"

definition unwrapR :: "'a option \<Rightarrow> 'a res" where
  "unwrapR o' = (case o' of None \<Rightarrow> Inl UnwrapNone | Some x \<Rightarrow> Inr x)"

definition expectR :: "'a option \<Rightarrow> 'a res" where
  "expectR o' = (case o' of None \<Rightarrow> Inl ExpectNone | Some x \<Rightarrow> Inr x)"

definition indexR :: "'a list \<Rightarrow> nat \<Rightarrow> 'a res" where
  "indexR xs i = (if i < length xs then Inr (xs ! i) else Inl IndexOutOfBounds)"

definition storeR :: "'a list \<Rightarrow> nat \<Rightarrow> 'a \<Rightarrow> 'a list res" where
  "storeR xs i v = (if i < length xs then Inr (xs[i := v]) else Inl IndexOutOfBounds)"

definition no_panic :: "'a res \<Rightarrow> bool" where
  "no_panic m \<longleftrightarrow> (\<exists>x. m = Inr x)"

lemma bindR_Inl [simp, res_simps]: "bindR (Inl e) f = Inl e"
  by (simp add: bindR_def)

lemma bindR_Inr [simp, res_simps]: "bindR (Inr x) f = f x"
  by (simp add: bindR_def)

lemma bindR_cong [cong]: "m = m' \<Longrightarrow> bindR m f = bindR m' f"
  by simp

lemma bindR_eq_Inr: "bindR m f = Inr y \<longleftrightarrow> (\<exists>x. m = Inr x \<and> f x = Inr y)"
  by (cases m) auto

lemma bindR_eq_Inl: "bindR m f = Inl e \<longleftrightarrow> m = Inl e \<or> (\<exists>x. m = Inr x \<and> f x = Inl e)"
  by (cases m) auto

lemma bindR_assoc: "bindR (bindR m f) g = bindR m (\<lambda>x. bindR (f x) g)"
  by (cases m) auto

lemma bindR_InrE:
  assumes "bindR m f = Inr y"
  obtains x where "m = Inr x" and "f x = Inr y"
  using assms by (auto simp: bindR_eq_Inr)

lemma assertR_True [simp, res_simps]: "assertR True = Inr ()"
  by (simp add: assertR_def)

lemma assertR_False [simp, res_simps]: "assertR False = Inl AssertFailed"
  by (simp add: assertR_def)

lemma assertR_eq_Inr [simp]: "assertR b = Inr u \<longleftrightarrow> b"
  by (simp add: assertR_def)

lemma unwrapR_simps [simp, res_simps]: "unwrapR (Some x) = Inr x" "unwrapR None = Inl UnwrapNone"
  by (simp_all add: unwrapR_def)

lemma unwrapR_eq_Inr [simp]: "unwrapR m = Inr x \<longleftrightarrow> m = Some x"
  by (cases m) simp_all

lemma expectR_simps [simp, res_simps]: "expectR (Some x) = Inr x" "expectR None = Inl ExpectNone"
  by (simp_all add: expectR_def)

lemma expectR_eq_Inr [simp]: "expectR m = Inr x \<longleftrightarrow> m = Some x"
  by (cases m) simp_all

lemma indexR_in [simp, res_simps]: "i < length xs \<Longrightarrow> indexR xs i = Inr (xs ! i)"
  by (simp add: indexR_def)

lemma indexR_out [simp, res_simps]: "length xs \<le> i \<Longrightarrow> indexR xs i = Inl IndexOutOfBounds"
  by (simp add: indexR_def)

lemma indexR_eq_Inr: "indexR xs i = Inr x \<longleftrightarrow> i < length xs \<and> xs ! i = x"
  by (auto simp: indexR_def)

lemma storeR_in [simp, res_simps]: "i < length xs \<Longrightarrow> storeR xs i v = Inr (xs[i := v])"
  by (simp add: storeR_def)

lemma storeR_out [simp, res_simps]: "length xs \<le> i \<Longrightarrow> storeR xs i v = Inl IndexOutOfBounds"
  by (simp add: storeR_def)

lemma storeR_eq_Inr: "storeR xs i v = Inr ys \<longleftrightarrow> i < length xs \<and> ys = xs[i := v]"
  by (auto simp: storeR_def)

lemma no_panic_Inr [simp]: "no_panic (Inr x)"
  by (simp add: no_panic_def)

lemma no_panic_Inl [simp]: "\<not> no_panic (Inl e)"
  by (simp add: no_panic_def)

lemma no_panic_bindR: "no_panic m \<Longrightarrow> (\<And>x. m = Inr x \<Longrightarrow> no_panic (f x)) \<Longrightarrow> no_panic (bindR m f)"
  by (cases m) auto

section \<open>Arithmetic on a fixed width\<close>

definition add_w :: "bool \<Rightarrow> 'a::len word \<Rightarrow> 'a word \<Rightarrow> 'a word res" where
  "add_w checks a b = (if checks \<and> a + b < a then Inl ArithOverflow else Inr (a + b))"

definition sub_w :: "bool \<Rightarrow> 'a::len word \<Rightarrow> 'a word \<Rightarrow> 'a word res" where
  "sub_w checks a b = (if checks \<and> a < b then Inl ArithOverflow else Inr (a - b))"

definition mul_w :: "bool \<Rightarrow> 'a::len word \<Rightarrow> 'a word \<Rightarrow> 'a word res" where
  "mul_w checks a b =
     (if checks \<and> 2 ^ LENGTH('a) \<le> unat a * unat b then Inl ArithOverflow else Inr (a * b))"

text \<open>Unary minus on a signed integer overflows on the least value only.\<close>

definition neg_w :: "bool \<Rightarrow> 'a::len word \<Rightarrow> 'a word res" where
  "neg_w checks a = (if checks \<and> sint a = - (2 ^ (LENGTH('a) - 1)) then Inl ArithOverflow else Inr (- a))"

text \<open>Subtraction of signed integers overflows when the difference does not fit.\<close>

definition sub_i32 :: "bool \<Rightarrow> i32 \<Rightarrow> i32 \<Rightarrow> i32 res" where
  "sub_i32 checks a b =
     (if checks \<and> \<not> (- (2 ^ 31) \<le> sint a - sint b \<and> sint a - sint b < 2 ^ 31)
      then Inl ArithOverflow else Inr (a - b))"

lemma add_w_ok: "unat a + unat b < 2 ^ LENGTH('a) \<Longrightarrow> add_w ov a b = Inr (a + b)" for a b :: "'a::len word"
  by (simp add: add_w_def word_less_nat_alt unat_word_ariths not_less)

lemma sub_w_ok: "b \<le> a \<Longrightarrow> sub_w ov a b = Inr (a - b)"
  by (simp add: sub_w_def not_less)

lemma mul_w_ok: "unat a * unat b < 2 ^ LENGTH('a) \<Longrightarrow> mul_w ov a b = Inr (a * b)" for a b :: "'a::len word"
  by (simp add: mul_w_def)

lemma add_w_one: "ov \<longrightarrow> a \<noteq> - 1 \<Longrightarrow> add_w ov a 1 = Inr (a + 1)" for a :: "'a::len word"
proof -
  assume *: "ov \<longrightarrow> a \<noteq> - 1"
  have "\<not> a + 1 < a" if "a \<noteq> - 1"
  proof -
    have "a + 1 \<noteq> 0" using that max_word_wrap by blast
    then have "unat (a + 1) = unat a + 1" by (metis add.commute unatSuc Suc_eq_plus1)
    then show ?thesis by (simp add: word_less_nat_alt)
  qed
  then show ?thesis using * by (auto simp: add_w_def)
qed

lemma add_w_eq_Inr: "add_w ov a b = Inr c \<Longrightarrow> c = a + b"
  by (simp add: add_w_def split: if_splits)

lemma sub_w_eq_Inr: "sub_w ov a b = Inr c \<Longrightarrow> c = a - b"
  by (simp add: sub_w_def split: if_splits)

section \<open>Ports under a mask\<close>

text \<open>
  A port \<open>p\<close> belongs to the range of a base port \<open>b\<close> under a mask \<open>m\<close> when \<open>p AND m = b\<close>. Its
  offset in the range is then made of the unmasked bits of \<open>p\<close>, whatever the mask is.
\<close>

lemma masked_offset:
  fixes p b m :: "'a::len word"
  assumes "p AND m = b"
  shows "p - b = p AND NOT m" and "b \<le> p" and "unat (p - b) \<le> unat (NOT m)"
proof -
  have "p = (p AND m) + (p AND NOT m)"
    by (subst disjunctive_add) (auto simp: bit_simps bit_eq_iff)
  then show eq: "p - b = p AND NOT m"
    using assms by (simp add: algebra_simps)
  have "p AND m \<le> p"
    by (simp add: word_and_le2)
  then show "b \<le> p"
    using assms by simp
  have "p AND NOT m \<le> NOT m"
    by (simp add: word_and_le1)
  then show "unat (p - b) \<le> unat (NOT m)"
    by (simp add: eq word_le_nat_alt)
qed

text \<open>The other way round needs the unmasked bits to be the low bits.\<close>

lemma and_mask_le: "d \<le> mask k \<Longrightarrow> d AND mask k = d" for d :: "'a::len word"
proof -
  assume "d \<le> mask k"
  then have "uint d \<le> mask (min LENGTH('a) k)"
    by (simp add: word_le_def uint_mask_eq)
  also have "mask (min LENGTH('a) k) < (2::int) ^ k"
  proof -
    have "(2::int) ^ min LENGTH('a) k \<le> 2 ^ k" by (rule power_increasing) simp_all
    then show ?thesis by (simp only: mask_eq_exp_minus_1)
  qed
  finally show ?thesis by (simp add: mask_eq_iff)
qed

lemma low_mask_offset:
  fixes p b m :: "'a::len word"
  assumes low: "NOT m = mask k" and b: "b AND m = b" and le: "b \<le> p" and off: "p - b \<le> NOT m"
  shows "p AND m = b"
proof -
  define d where "d = p - b"
  have p: "p = b + d" by (simp add: d_def)
  have d: "d AND NOT m = d"
    using off low by (simp add: d_def [symmetric] and_mask_le)
  have disj: "\<not> (bit b n \<and> bit d n)" for n
  proof
    assume "bit b n \<and> bit d n"
    then have "bit (b AND m) n" and "bit (d AND NOT m) n" by (simp_all only: b d)
    then show False by (auto simp: bit_simps)
  qed
  have "b + d = b OR d"
    by (rule disjunctive_add) (use disj in blast)
  moreover have "(b OR d) AND m = b"
  proof (rule bit_word_eqI)
    fix n assume "n < LENGTH('a)"
    have "bit b n \<longleftrightarrow> bit b n \<and> bit m n" by (subst (1) b [symmetric]) (simp add: bit_simps)
    moreover have "bit d n \<longleftrightarrow> bit d n \<and> \<not> bit m n"
      by (subst (1) d [symmetric]) (auto simp: bit_simps \<open>n < LENGTH('a)\<close>)
    ultimately show "bit ((b OR d) AND m) n \<longleftrightarrow> bit b n" by (auto simp: bit_simps)
  qed
  ultimately show ?thesis by (simp add: p)
qed

end
