(* ===== verification/Netfcts_Api.thy ===== *)
theory Netfcts_Api
  imports Prelude
begin

text \<open>
  The data the proxy shares with the crates it is built on (netfcts, e2d2, eui48), which are not
  part of the repository.

  \<^item> \<open>tcp_state\<close>, \<open>release_cause\<close>, \<open>tcp_role\<close> and \<open>tcp_stat\<close> have the enum constructors that
    \<^verbatim>\<open>cmanager.rs\<close>, \<^verbatim>\<open>nftcp.rs\<close> and \<^verbatim>\<open>bin.rs\<close> name. How an enum is encoded as a byte, and with it how its
    constructors are ordered (a field-less enum derives its order from its discriminants), is
    part of netfcts: the record \<open>lib\<close> carries it as a parameter.
  \<^item> A packet (\<open>Pdu\<close>) is a record with one field per header accessor that the proxy calls; what
    the proxy never reads or writes itself (checksums, time to live, options, offload flags,
    padding) is the record's extension, of an arbitrary type, which only the library functions
    can change.

  Every library function the proxy calls is a field of a parameter record: \<open>lib\<close> here, and its
  extensions in the theories of the components that call the functions. What the proxy relies on
  is stated by named predicates over these records.
\<close>

section \<open>Enums of netfcts\<close>

datatype tcp_state =
    Listen | SynSent | SynReceived | Established | CloseWait
  | LastAck | FinWait1 | FinWait2 | Closing | Closed

datatype release_cause = Unknown | Timeout | PassiveClose | ActiveClose | ActiveRst

datatype tcp_role = Client | Server

datatype tcp_stat =
    RecvSyn | SentSynAck | RecvSynAck2 | RecvPayload | SentSyn | RecvSynAck | SentSynAck2
  | SentPayload | RecvFin | SentFin | RecvFinPssv | SentFinPssv | RecvAck4Fin | SentAck4Fin
  | RecvRst | Unexpected

text \<open>Both enums are finite types whose values can be listed, so that a condition on all states can be evaluated.\<close>

instantiation tcp_state :: enum
begin

definition enum_tcp_state :: "tcp_state list" where
  "enum_tcp_state = [Listen, SynSent, SynReceived, Established, CloseWait, LastAck, FinWait1, FinWait2, Closing, Closed]"

definition enum_all_tcp_state :: "(tcp_state \<Rightarrow> bool) \<Rightarrow> bool" where
  "enum_all_tcp_state P = list_all P enum_class.enum"

definition enum_ex_tcp_state :: "(tcp_state \<Rightarrow> bool) \<Rightarrow> bool" where
  "enum_ex_tcp_state P = list_ex P enum_class.enum"

instance
proof
  show univ: "(UNIV :: tcp_state set) = set enum_class.enum"
    unfolding enum_tcp_state_def by (auto intro: tcp_state.exhaust)
  show "distinct (enum_class.enum :: tcp_state list)" by (simp add: enum_tcp_state_def)
  show "enum_class.enum_all P \<longleftrightarrow> Ball UNIV P" for P :: "tcp_state \<Rightarrow> bool"
    by (simp only: enum_all_tcp_state_def univ list_all_iff)
  show "enum_class.enum_ex P \<longleftrightarrow> Bex UNIV P" for P :: "tcp_state \<Rightarrow> bool"
    by (simp only: enum_ex_tcp_state_def univ list_ex_iff)
qed

end

instantiation release_cause :: enum
begin

definition enum_release_cause :: "release_cause list" where
  "enum_release_cause = [Unknown, Timeout, PassiveClose, ActiveClose, ActiveRst]"

definition enum_all_release_cause :: "(release_cause \<Rightarrow> bool) \<Rightarrow> bool" where
  "enum_all_release_cause P = list_all P enum_class.enum"

definition enum_ex_release_cause :: "(release_cause \<Rightarrow> bool) \<Rightarrow> bool" where
  "enum_ex_release_cause P = list_ex P enum_class.enum"

instance
proof
  show univ: "(UNIV :: release_cause set) = set enum_class.enum"
    unfolding enum_release_cause_def by (auto intro: release_cause.exhaust)
  show "distinct (enum_class.enum :: release_cause list)" by (simp add: enum_release_cause_def)
  show "enum_class.enum_all P \<longleftrightarrow> Ball UNIV P" for P :: "release_cause \<Rightarrow> bool"
    by (simp only: enum_all_release_cause_def univ list_all_iff)
  show "enum_class.enum_ex P \<longleftrightarrow> Bex UNIV P" for P :: "release_cause \<Rightarrow> bool"
    by (simp only: enum_ex_release_cause_def univ list_ex_iff)
qed

end

type_synonym counter = "tcp_stat \<Rightarrow> nat"
type_synonym sock = "u32 \<times> u16"
type_synonym mac_addr = "48 word"

definition incr :: "tcp_stat \<Rightarrow> counter \<Rightarrow> counter" where
  "incr s k = k(s := Suc (k s))"

section \<open>Packets\<close>

record mac_hdr =
  mac_src :: mac_addr
  mac_dst :: mac_addr
  etype :: u16

record ip_hdr =
  ip_src :: u32
  ip_dst :: u32
  protocol :: u8
  ip_length :: u16

record tcp_hdr =
  src_port :: u16
  dst_port :: u16
  seq_num :: u32
  ack_num :: u32
  syn_flag :: bool
  ack_flag :: bool
  fin_flag :: bool
  rst_flag :: bool
  psh_flag :: bool

record pdu =
  mac_h :: mac_hdr
  ip_h :: ip_hdr
  tcp_h :: tcp_hdr
  payload :: "u8 list"
  refcnt :: nat

text \<open>A server or the proxy itself, as layer 2 to 4 data (\<open>L234Data\<close>).\<close>

record l234data =
  l_mac :: mac_addr
  l_ip :: u32
  l_port :: u16
  l_server_id :: string
  l_index :: nat

section \<open>Parameters every component needs\<close>

record lib =
  overflow_checks :: bool
  state_as_u8 :: "tcp_state \<Rightarrow> u8"
  state_from_u8 :: "u8 \<Rightarrow> tcp_state"
  cause_as_u8 :: "release_cause \<Rightarrow> u8"
  cause_from_u8 :: "u8 \<Rightarrow> release_cause"
  stamp_factor :: u64

definition state_less :: "'z lib_scheme \<Rightarrow> tcp_state \<Rightarrow> tcp_state \<Rightarrow> bool" where
  "state_less X s t \<longleftrightarrow> state_as_u8 X s < state_as_u8 X t"

definition state_ge :: "'z lib_scheme \<Rightarrow> tcp_state \<Rightarrow> tcp_state \<Rightarrow> bool" where
  "state_ge X s t \<longleftrightarrow> \<not> state_less X s t"

text \<open>Converting a constructor to a byte and back gives the constructor.\<close>

definition codes_ok :: "'z lib_scheme \<Rightarrow> bool" where
  "codes_ok X \<longleftrightarrow> (\<forall>s. state_from_u8 X (state_as_u8 X s) = s) \<and> (\<forall>r. cause_from_u8 X (cause_as_u8 X r) = r)"

text \<open>
  The order of the states that the conditions of the state machine are written for: the states of
  connection set-up come before \<open>Established\<close>, the passive side of a close (\<open>CloseWait\<close>,
  \<open>LastAck\<close>) before the active side (\<open>FinWait1\<close> and later), and \<open>Closed\<close> is the last.
\<close>

definition state_order_ok :: "'z lib_scheme \<Rightarrow> bool" where
  "state_order_ok X \<longleftrightarrow>
     state_less X Listen SynReceived \<and> state_less X SynReceived Established \<and>
     state_less X SynSent Established \<and> state_less X Established CloseWait \<and>
     state_less X CloseWait LastAck \<and> state_less X LastAck FinWait1 \<and>
     state_less X FinWait1 FinWait2 \<and> state_less X FinWait1 Closing \<and>
     state_less X FinWait2 Closed \<and> state_less X Closing Closed"

lemma state_less_trans: "state_less X a b \<Longrightarrow> state_less X b c \<Longrightarrow> state_less X a c"
  by (simp add: state_less_def)

lemma state_less_irrefl [simp]: "\<not> state_less X a a"
  by (simp add: state_less_def)

lemma state_less_asym: "state_less X a b \<Longrightarrow> \<not> state_less X b a"
  by (simp add: state_less_def)

lemma state_codes_inj: "codes_ok X \<Longrightarrow> state_as_u8 X s = state_as_u8 X t \<longleftrightarrow> s = t"
  by (metis codes_ok_def)

lemma state_from_as [simp]: "codes_ok X \<Longrightarrow> state_from_u8 X (state_as_u8 X s) = s"
  by (simp add: codes_ok_def)

lemma cause_from_as [simp]: "codes_ok X \<Longrightarrow> cause_from_u8 X (cause_as_u8 X s) = s"
  by (simp add: codes_ok_def)

text \<open>Everything the order says about two named states, as rewrite rules.\<close>

lemma state_order_rank:
  assumes "state_order_ok X"
  shows "state_as_u8 X Listen < state_as_u8 X SynReceived"
    and "state_as_u8 X SynReceived < state_as_u8 X Established"
    and "state_as_u8 X SynSent < state_as_u8 X Established"
    and "state_as_u8 X Established < state_as_u8 X CloseWait"
    and "state_as_u8 X CloseWait < state_as_u8 X LastAck"
    and "state_as_u8 X LastAck < state_as_u8 X FinWait1"
    and "state_as_u8 X FinWait1 < state_as_u8 X FinWait2"
    and "state_as_u8 X FinWait1 < state_as_u8 X Closing"
    and "state_as_u8 X FinWait2 < state_as_u8 X Closed"
    and "state_as_u8 X Closing < state_as_u8 X Closed"
  using assms by (simp_all add: state_order_ok_def state_less_def)

lemma state_order_below_established:
  assumes "state_order_ok X"
  shows "state_less X s Established \<longleftrightarrow> s \<in> {Listen, SynSent, SynReceived}"
  using state_order_rank [OF assms] by (cases s) (auto simp: state_less_def)

lemma state_order_below_fin_wait:
  assumes "state_order_ok X"
  shows "state_less X s FinWait1 \<longleftrightarrow>
    s \<in> {Listen, SynSent, SynReceived, Established, CloseWait, LastAck}"
  using state_order_rank [OF assms] by (cases s) (auto simp: state_less_def)

lemma state_order_below_last_ack:
  assumes "state_order_ok X"
  shows "state_less X s LastAck \<longleftrightarrow> s \<in> {Listen, SynSent, SynReceived, Established, CloseWait}"
  using state_order_rank [OF assms] by (cases s) (auto simp: state_less_def)

lemma state_order_below_closed:
  assumes "state_order_ok X"
  shows "state_less X s Closed \<longleftrightarrow> s \<noteq> Closed"
  using state_order_rank [OF assms] by (cases s) (auto simp: state_less_def)

lemma state_order_below_syn_received:
  assumes "state_order_ok X" and "s \<noteq> SynSent"
  shows "state_less X s SynReceived \<longleftrightarrow> s = Listen"
  using state_order_rank [OF assms(1)] assms(2) by (cases s) (auto simp: state_less_def)

lemmas state_order_simps =
  state_ge_def state_order_below_established state_order_below_fin_wait
  state_order_below_last_ack state_order_below_closed state_order_below_syn_received

end
