(* ===== verification/Extension.thy ===== *)
theory Extension
  imports Netfcts_Api
begin

text \<open>
  The server-side half of a connection record, \<open>Extension\<close> of \<^verbatim>\<open>cmanager.rs\<close>: the last states of the
  server connection with their time stamps, in two arrays of seven entries each, and the release
  cause. \<open>ext_wf\<close> is its type invariant. The lemmas show that the record is a faithful log of at
  most seven states, and that the eighth one is out of the array's range.
\<close>

section \<open>The record and its operations\<close>

record extension =
  s_stamps :: "u32 list"
  s_state :: "u8 list"
  s_state_count :: u8
  s_release_cause :: u8

definition ext_new :: "'z lib_scheme \<Rightarrow> extension" where
  "ext_new X =
     \<lparr>s_stamps = replicate 7 0, s_state = replicate 7 (state_as_u8 X Listen),
      s_state_count = 0, s_release_cause = cause_as_u8 X Unknown\<rparr>"

text \<open>The loop of \<open>states\<close>: entry \<open>i + 1\<close> of the result is the \<open>i\<close>-th stored state.\<close>

fun fill_states :: "'z lib_scheme \<Rightarrow> extension \<Rightarrow> tcp_state list \<Rightarrow> nat list \<Rightarrow> tcp_state list res" where
  "fill_states X e result [] = Inr result"
| "fill_states X e result (i # is) =
     bindR (indexR (s_state e) i) (\<lambda>b.
     bindR (storeR result (i + 1) (state_from_u8 X b)) (\<lambda>result'.
     fill_states X e result' is))"

definition ext_states :: "'z lib_scheme \<Rightarrow> extension \<Rightarrow> tcp_state list res" where
  "ext_states X e =
     fill_states X e (replicate (unat (s_state_count e) + 1) Listen) [0..<unat (s_state_count e)]"

text \<open>\<open>now\<close> is the reading of the time-stamp counter that \<open>push_state\<close> makes.\<close>

definition ext_push_state :: "'z lib_scheme \<Rightarrow> u64 \<Rightarrow> tcp_state \<Rightarrow> u64 \<Rightarrow> extension \<Rightarrow> extension res" where
  "ext_push_state X now state base_stamp e =
     bindR (storeR (s_state e) (unat (s_state_count e)) (state_as_u8 X state)) (\<lambda>states.
     bindR (sub_w (overflow_checks X) now base_stamp) (\<lambda>d.
     bindR (storeR (s_stamps e) (unat (s_state_count e)) (ucast (d div stamp_factor X))) (\<lambda>stamps.
     bindR (add_w (overflow_checks X) (s_state_count e) 1) (\<lambda>n.
     Inr (e\<lparr>s_state := states, s_stamps := stamps, s_state_count := n\<rparr>)))))"

definition ext_release_cause :: "'z lib_scheme \<Rightarrow> extension \<Rightarrow> release_cause" where
  "ext_release_cause X e = cause_from_u8 X (s_release_cause e)"

definition ext_set_release_cause :: "'z lib_scheme \<Rightarrow> release_cause \<Rightarrow> extension \<Rightarrow> extension" where
  "ext_set_release_cause X cause e = e\<lparr>s_release_cause := cause_as_u8 X cause\<rparr>"

definition ext_init :: "extension \<Rightarrow> extension" where
  "ext_init e = e\<lparr>s_state_count := 0\<rparr>"

definition ext_last_state :: "'z lib_scheme \<Rightarrow> extension \<Rightarrow> tcp_state res" where
  "ext_last_state X e =
     (if s_state_count e = 0 then Inr Listen
      else bindR (indexR (s_state e) (unat (s_state_count e) - 1)) (\<lambda>b. Inr (state_from_u8 X b)))"

definition ext_get_last_stamp :: "'z lib_scheme \<Rightarrow> extension \<Rightarrow> u64 option res" where
  "ext_get_last_stamp X e =
     (if s_state_count e = 0 then Inr None
      else bindR (indexR (s_stamps e) (unat (s_state_count e) - 1)) (\<lambda>s.
           bindR (mul_w (overflow_checks X) (ucast s) (stamp_factor X)) (\<lambda>t. Inr (Some t))))"

definition ext_get_first_stamp :: "'z lib_scheme \<Rightarrow> extension \<Rightarrow> u64 option res" where
  "ext_get_first_stamp X e =
     (if s_state_count e > 0
      then bindR (indexR (s_stamps e) 0) (\<lambda>s.
           bindR (mul_w (overflow_checks X) (ucast s) (stamp_factor X)) (\<lambda>t. Inr (Some t)))
      else Inr None)"

definition ext_deltas_to_base_stamp :: "extension \<Rightarrow> u32 list res" where
  "ext_deltas_to_base_stamp e =
     (if s_state_count e \<ge> 1
      then if unat (s_state_count e) \<le> length (s_stamps e)
           then Inr (take (unat (s_state_count e)) (s_stamps e)) else Inl IndexOutOfBounds
      else Inr [])"

section \<open>Display\<close>

text \<open>
  The line that \<open>Display\<close> writes for a record. How a state and a cause are written, and where a number
  is separated into groups of digits, is code of netfcts and of the crate separator; a \<open>Vec\<close> is written in
  brackets with its elements separated by commas, a string in quotes (digits and separators need no
  escape).
\<close>

record ext_text =
  state_debug :: "tcp_state \<Rightarrow> string"
  cause_debug :: "release_cause \<Rightarrow> string"
  separated_string :: "u32 \<Rightarrow> string"

fun comma_list :: "string list \<Rightarrow> string" where
  "comma_list [] = []"
| "comma_list [x] = x"
| "comma_list (x # y # zs) = x @ '', '' @ comma_list (y # zs)"

definition debug_vec :: "string list \<Rightarrow> string" where
  "debug_vec xs = ''['' @ comma_list xs @ '']''"

definition debug_str :: "string \<Rightarrow> string" where
  "debug_str s = [CHR 0x22] @ s @ [CHR 0x22]"

definition ext_display :: "'z lib_scheme \<Rightarrow> ext_text \<Rightarrow> extension \<Rightarrow> string res" where
  "ext_display X T e =
     bindR (ext_states X e) (\<lambda>states.
     bindR (ext_deltas_to_base_stamp e) (\<lambda>deltas.
     Inr (''(Server, '' @ debug_vec (map (state_debug T) states) @ '', '' @ cause_debug T (ext_release_cause X e) @ '', '' @
          debug_vec (map (debug_str \<circ> separated_string T) deltas) @ '')'')))"

section \<open>Type invariant\<close>

definition ext_wf :: "extension \<Rightarrow> bool" where
  "ext_wf e \<longleftrightarrow> length (s_stamps e) = 7 \<and> length (s_state e) = 7 \<and> unat (s_state_count e) \<le> 7"

text \<open>The states logged so far, without the initial \<open>Listen\<close>.\<close>

definition ext_log :: "'z lib_scheme \<Rightarrow> extension \<Rightarrow> tcp_state list" where
  "ext_log X e = map (state_from_u8 X) (take (unat (s_state_count e)) (s_state e))"

lemma ext_wf_new: "ext_wf (ext_new X)"
  by (simp add: ext_wf_def ext_new_def)

lemma ext_wf_init: "ext_wf e \<Longrightarrow> ext_wf (ext_init e)"
  by (simp add: ext_wf_def ext_init_def)

lemma ext_wf_set_release_cause: "ext_wf e \<Longrightarrow> ext_wf (ext_set_release_cause X r e)"
  by (simp add: ext_wf_def ext_set_release_cause_def)

lemma ext_log_init [simp]: "ext_log X (ext_init e) = []"
  by (simp add: ext_log_def ext_init_def)

lemma ext_log_new [simp]: "ext_log X (ext_new Y) = []"
  by (simp add: ext_log_def ext_new_def)

text \<open>One push, below the limit.\<close>

lemma ext_count_Suc: "unat (n::u8) < 7 \<Longrightarrow> unat (n + 1) = Suc (unat n)"
  by (simp add: unat_word_ariths)

lemma ext_push_ok:
  assumes "ext_wf e" and "unat (s_state_count e) < 7" and "overflow_checks X \<Longrightarrow> b \<le> now"
  shows "ext_push_state X now s b e =
    Inr (e\<lparr>s_state := (s_state e)[unat (s_state_count e) := state_as_u8 X s],
           s_stamps := (s_stamps e)[unat (s_state_count e) := ucast ((now - b) div stamp_factor X)],
           s_state_count := s_state_count e + 1\<rparr>)"
proof -
  have "sub_w (overflow_checks X) now b = Inr (now - b)"
    using assms(3) by (auto simp: sub_w_def not_less)
  moreover have "add_w (overflow_checks X) (s_state_count e) 1 = Inr (s_state_count e + 1)"
    using assms(2) by (simp add: add_w_ok)
  ultimately show ?thesis
    using assms(1,2) by (simp add: ext_push_state_def ext_wf_def)
qed

lemma ext_push_wf:
  assumes "ext_wf e" and "ext_push_state X now s b e = Inr e'"
  shows "ext_wf e'" and "unat (s_state_count e') = Suc (unat (s_state_count e))"
proof -
  have lt: "unat (s_state_count e) < 7"
    using assms by (auto simp: ext_push_state_def ext_wf_def bindR_eq_Inr storeR_eq_Inr)
  have n: "unat (s_state_count e + 1) = Suc (unat (s_state_count e))"
    using lt by (rule ext_count_Suc)
  have e': "s_state_count e' = s_state_count e + 1" "length (s_state e') = 7" "length (s_stamps e') = 7"
    using assms by (auto simp: ext_push_state_def ext_wf_def bindR_eq_Inr storeR_eq_Inr
        dest!: add_w_eq_Inr)
  show "unat (s_state_count e') = Suc (unat (s_state_count e))"
    by (simp only: e' n)
  then show "ext_wf e'"
    using e' lt by (simp add: ext_wf_def)
qed

lemma ext_push_log:
  assumes wf: "ext_wf e" and codes: "codes_ok X" and push: "ext_push_state X now s b e = Inr e'"
  shows "ext_log X e' = ext_log X e @ [s]"
proof -
  have lt: "unat (s_state_count e) < 7"
    using ext_push_wf [OF wf push] by (simp add: ext_wf_def)
  have st: "s_state e' = (s_state e)[unat (s_state_count e) := state_as_u8 X s]"
    using push by (auto simp: ext_push_state_def bindR_eq_Inr storeR_eq_Inr)
  have "unat (s_state_count e') = Suc (unat (s_state_count e))"
    by (rule ext_push_wf [OF wf push])
  then show ?thesis
    using lt wf codes by (simp add: ext_log_def st take_Suc_conv_app_nth ext_wf_def)
qed

text \<open>The array is full after seven pushes: the next one indexes past its end.\<close>

lemma ext_push_full:
  assumes "ext_wf e" and "unat (s_state_count e) = 7"
  shows "ext_push_state X now s b e = Inl IndexOutOfBounds"
  using assms by (simp add: ext_push_state_def ext_wf_def)

section \<open>Reading the log back\<close>

lemma fill_states_spec:
  assumes "n \<le> length (s_state e)" and "length res = Suc n" and "k \<le> n"
  shows "fill_states X e res [k..<n] =
    Inr (take (Suc k) res @ map (state_from_u8 X) (drop k (take n (s_state e))))"
  using assms(2,3)
proof (induction "n - k" arbitrary: k res)
  case 0
  then show ?case using assms(1) by simp
next
  case (Suc d)
  then have k: "k < n" and upt: "[k..<n] = k # [Suc k..<n]" by (simp_all add: upt_conv_Cons)
  let ?v = "state_from_u8 X (s_state e ! k)"
  have "fill_states X e res [k..<n] = fill_states X e (res[Suc k := ?v]) [Suc k..<n]"
    using k Suc.prems assms(1) by (simp add: upt)
  also have "\<dots> = Inr (take (Suc (Suc k)) (res[Suc k := ?v])
      @ map (state_from_u8 X) (drop (Suc k) (take n (s_state e))))"
    using Suc.hyps(2) Suc.prems k by (intro Suc.hyps(1)) simp_all
  also have "take (Suc (Suc k)) (res[Suc k := ?v]) = take (Suc k) res @ [?v]"
    using k Suc.prems by (simp add: take_Suc_conv_app_nth)
  also have "drop k (take n (s_state e)) = s_state e ! k # drop (Suc k) (take n (s_state e))"
    using k assms(1) by (subst Cons_nth_drop_Suc [symmetric]) simp_all
  ultimately show ?case by simp
qed

lemma ext_states_log: "ext_wf e \<Longrightarrow> ext_states X e = Inr (Listen # ext_log X e)"
  by (simp add: ext_states_def ext_log_def ext_wf_def fill_states_spec [where k = 0, simplified])

lemma ext_last_state_log: "ext_wf e \<Longrightarrow> ext_last_state X e = Inr (last (Listen # ext_log X e))"
proof -
  assume wf: "ext_wf e"
  show ?thesis
  proof (cases "s_state_count e = 0")
    case True
    then show ?thesis by (simp add: ext_last_state_def ext_log_def)
  next
    case False
    define n where "n = unat (s_state_count e)"
    have n: "0 < n" "n \<le> length (s_state e)"
      using False wf by (simp_all add: n_def ext_wf_def unat_gt_0)
    then have "last (take n (s_state e)) = s_state e ! (n - 1)"
      by (subst last_conv_nth) auto
    then show ?thesis
      using n False by (auto simp: ext_last_state_def ext_log_def n_def [symmetric] last_map)
  qed
qed

text \<open>Pushing a list of states, each with its own reading of the counter.\<close>

fun ext_push_all :: "'z lib_scheme \<Rightarrow> u64 \<Rightarrow> (u64 \<times> tcp_state) list \<Rightarrow> extension \<Rightarrow> extension res" where
  "ext_push_all X b [] e = Inr e"
| "ext_push_all X b ((now, s) # xs) e = bindR (ext_push_state X now s b e) (ext_push_all X b xs)"

lemma ext_push_all_ok:
  assumes "ext_wf e" and "codes_ok X" and "unat (s_state_count e) + length xs \<le> 7"
    and "\<forall>(now, s) \<in> set xs. b \<le> now"
  shows "\<exists>e'. ext_push_all X b xs e = Inr e' \<and> ext_wf e' \<and>
    ext_log X e' = ext_log X e @ map snd xs \<and>
    unat (s_state_count e') = unat (s_state_count e) + length xs"
  using assms
proof (induction xs arbitrary: e)
  case Nil
  then show ?case by simp
next
  case (Cons x xs)
  obtain now s where x: "x = (now, s)" by (cases x)
  have "unat (s_state_count e) < 7" "b \<le> now" using Cons.prems x by auto
  then obtain e1 where e1: "ext_push_state X now s b e = Inr e1"
    using ext_push_ok [OF Cons.prems(1)] by blast
  have c1: "unat (s_state_count e1) = Suc (unat (s_state_count e))" and w1: "ext_wf e1"
    using ext_push_wf [OF Cons.prems(1) e1] by simp_all
  have l1: "ext_log X e1 = ext_log X e @ [s]"
    by (rule ext_push_log [OF Cons.prems(1,2) e1])
  have "\<exists>e'. ext_push_all X b xs e1 = Inr e' \<and> ext_wf e' \<and>
      ext_log X e' = ext_log X e1 @ map snd xs \<and>
      unat (s_state_count e') = unat (s_state_count e1) + length xs"
    using Cons.prems w1 c1 by (intro Cons.IH) auto
  then show ?case using e1 x l1 c1 by auto
qed

section \<open>Time stamps\<close>

text \<open>The stamps of the states logged so far.\<close>

definition ext_stamps :: "extension \<Rightarrow> u32 list" where
  "ext_stamps e = take (unat (s_state_count e)) (s_stamps e)"

lemma ext_push_stamps:
  assumes wf: "ext_wf e" and push: "ext_push_state X now s b e = Inr e'"
  shows "ext_stamps e' = ext_stamps e @ [ucast ((now - b) div stamp_factor X)]"
proof -
  have lt: "unat (s_state_count e) < 7"
    using ext_push_wf [OF wf push] by (simp add: ext_wf_def)
  have st: "s_stamps e' = (s_stamps e)[unat (s_state_count e) := ucast ((now - b) div stamp_factor X)]"
    using push by (auto simp: ext_push_state_def bindR_eq_Inr storeR_eq_Inr dest!: sub_w_eq_Inr)
  have "unat (s_state_count e') = Suc (unat (s_state_count e))"
    by (rule ext_push_wf [OF wf push])
  then show ?thesis
    using lt wf by (simp add: ext_stamps_def st take_Suc_conv_app_nth ext_wf_def)
qed

lemma ext_push_all_cause:
  "ext_push_all X b xs e = Inr e' \<Longrightarrow> ext_release_cause X e' = ext_release_cause X e"
proof (induction xs arbitrary: e)
  case (Cons x xs)
  obtain now s where x: "x = (now, s)" by fastforce
  obtain e1 where e1: "ext_push_state X now s b e = Inr e1" "ext_push_all X b xs e1 = Inr e'"
    using Cons.prems by (auto simp: x bindR_eq_Inr)
  then show ?case
    using Cons.IH [OF e1(2)] by (auto simp: ext_push_state_def ext_release_cause_def bindR_eq_Inr)
qed simp

lemma ext_push_all_stamps:
  assumes "ext_wf e" and "ext_push_all X b xs e = Inr e'"
  shows "ext_stamps e' = ext_stamps e @ map (\<lambda>(now, s). ucast ((now - b) div stamp_factor X)) xs"
  using assms
proof (induction xs arbitrary: e)
  case Nil
  then show ?case by simp
next
  case (Cons x xs)
  obtain now s where x: "x = (now, s)" by (cases x)
  obtain e1 where e1: "ext_push_state X now s b e = Inr e1" "ext_push_all X b xs e1 = Inr e'"
    using Cons.prems(2) by (auto simp: x bindR_eq_Inr)
  show ?case
    using Cons.IH [OF ext_push_wf(1) [OF Cons.prems(1) e1(1)] e1(2)] ext_push_stamps [OF Cons.prems(1) e1(1)]
    by (simp add: x)
qed

lemma ext_deltas: "ext_wf e \<Longrightarrow> ext_deltas_to_base_stamp e = Inr (ext_stamps e)"
  by (auto simp: ext_deltas_to_base_stamp_def ext_stamps_def ext_wf_def not_le word_less_1)

text \<open>A stamp that fits 32 bits gives the time back, to the resolution of the stamps.\<close>

lemma stamp_precision:
  fixes t f :: u64
  assumes "f \<noteq> 0" and "t div f < 2 ^ 32"
  shows "mul_w ov (ucast (ucast (t div f) :: u32)) f = Inr (t div f * f)"
    and "t div f * f \<le> t" and "t - t div f * f < f"
proof -
  have "unat (t div f) < 2 ^ 32" using assms(2) by (simp add: word_less_nat_alt)
  then have fits: "ucast (ucast (t div f) :: u32) = t div f"
    by (simp add: word_unat_eq_iff unsigned_ucast_eq unsigned_take_bit_eq take_bit_nat_eq_self)
  show "mul_w ov (ucast (ucast (t div f) :: u32)) f = Inr (t div f * f)"
    unfolding fits
  proof (rule mul_w_ok)
    have "unat (t div f) * unat f \<le> unat t" by (simp add: unat_div)
    then show "unat (t div f) * unat f < 2 ^ LENGTH(64)" using unsigned_less [of t, where 'a = nat] by simp
  qed
  show "t div f * f \<le> t" by (rule word_div_mult_le)
  show "t - t div f * f < f" using assms(1)
    by (metis add_diff_cancel_left' div_mult_mod_eq word_gt_0 word_mod_less_divisor)
qed

end
