(* ===== verification/Connection.thy ===== *)
theory Connection
  imports Extension
begin

text \<open>
  \<open>ProxyConnection\<close> and \<open>DetailedConnection\<close> of \<^verbatim>\<open>cmanager.rs\<close>.

  A connection may carry a slot of the record store, where client and server states are logged.
  The store is shared through \<open>Rc<RefCell<..>>\<close>: an \<open>Rc\<close> is modelled as an address of a heap of
  stores, so that the aliasing between the manager and its connections is explicit, and every
  operation that writes to the store takes the heap and returns the new one. The record store
  (\<open>Store64\<close>) and the client-side record (\<open>ConRecord\<close>) are netfcts code: their operations are
  fields of the parameter record \<open>rec_lib\<close>. \<open>get_mut\<close> followed by an operation on the entry is
  modelled as reading the entry and putting the changed entry back.

  The union \<open>Seqn\<close> has two \<open>u32\<close> members in the same four bytes, so it is one field here.
\<close>

section \<open>The record store as a parameter\<close>

record ('cr, 'st) rec_lib = lib +
  cr_init :: "tcp_role \<Rightarrow> u16 \<Rightarrow> sock option \<Rightarrow> 'cr \<Rightarrow> 'cr"
  cr_push_state :: "u64 \<Rightarrow> tcp_state \<Rightarrow> 'cr \<Rightarrow> 'cr"
  cr_set_release_cause :: "release_cause \<Rightarrow> 'cr \<Rightarrow> 'cr"
  cr_states :: "'cr \<Rightarrow> tcp_state list"
  cr_base_stamp :: "'cr \<Rightarrow> u64"
  st_with_capacity :: "nat \<Rightarrow> 'st"
  st_get_next_slot :: "'st \<Rightarrow> nat \<times> 'st"
  st_get :: "nat \<Rightarrow> 'st \<Rightarrow> 'cr"
  st_put :: "nat \<Rightarrow> 'cr \<Rightarrow> 'st \<Rightarrow> 'st"
  st_get_1 :: "nat \<Rightarrow> 'st \<Rightarrow> extension"
  st_put_1 :: "nat \<Rightarrow> extension \<Rightarrow> 'st \<Rightarrow> 'st"
  mac_default :: mac_addr

type_synonym rc = nat
type_synonym 'st heap = "nat \<Rightarrow> 'st"

text \<open>A store is a pair of arrays: an entry that was put is read back, others do not change.\<close>

definition store_ok :: "('cr, 'st, 'z) rec_lib_scheme \<Rightarrow> bool" where
  "store_ok X \<longleftrightarrow>
     (\<forall>k r s. st_get X k (st_put X k r s) = r) \<and>
     (\<forall>k r s. st_get_1 X k (st_put_1 X k r s) = r) \<and>
     (\<forall>j k r s. st_get X j (st_put_1 X k r s) = st_get X j s) \<and>
     (\<forall>j k r s. st_get_1 X j (st_put X k r s) = st_get_1 X j s)"

section \<open>Detailed connections\<close>

record detailed_connection =
  con_rec :: "nat option"
  d_store :: "rc option"

definition dc_store :: "detailed_connection \<Rightarrow> rc res" where
  "dc_store d = unwrapR (d_store d)"

definition dc_con_rec :: "detailed_connection \<Rightarrow> nat res" where
  "dc_con_rec d = expectR (con_rec d)"

definition dc_initialize ::
  "('cr, 'st, 'z) rec_lib_scheme \<Rightarrow> sock \<Rightarrow> u16 \<Rightarrow> detailed_connection \<Rightarrow> 'st heap \<Rightarrow> 'st heap res" where
  "dc_initialize X client_sock proxy_sport d h =
     bindR (dc_store d) (\<lambda>i. bindR (dc_con_rec d) (\<lambda>k.
     Inr (h(i := st_put X k (cr_init X Client proxy_sport (Some client_sock) (st_get X k (h i))) (h i)))))"

definition dc_new ::
  "('cr, 'st, 'z) rec_lib_scheme \<Rightarrow> rc \<Rightarrow> 'st heap \<Rightarrow> detailed_connection \<times> 'st heap" where
  "dc_new X store h =
     (let (k, st) = st_get_next_slot X (h store)
      in (\<lparr>con_rec = Some k, d_store = Some store\<rparr>, h(store := st)))"

definition dc_re_new ::
  "('cr, 'st, 'z) rec_lib_scheme \<Rightarrow> rc \<Rightarrow> detailed_connection \<Rightarrow> 'st heap \<Rightarrow> detailed_connection \<times> 'st heap" where
  "dc_re_new X store d h =
     (let (k, st) = st_get_next_slot X (h store)
      in (d\<lparr>con_rec := Some k, d_store := Some store\<rparr>, h(store := st)))"

definition dc_set_release_cause ::
  "('cr, 'st, 'z) rec_lib_scheme \<Rightarrow> release_cause \<Rightarrow> detailed_connection \<Rightarrow> 'st heap \<Rightarrow> 'st heap res" where
  "dc_set_release_cause X cause d h =
     bindR (dc_store d) (\<lambda>i. bindR (dc_con_rec d) (\<lambda>k.
     Inr (h(i := st_put X k (cr_set_release_cause X cause (st_get X k (h i))) (h i)))))"

definition dc_c_states ::
  "('cr, 'st, 'z) rec_lib_scheme \<Rightarrow> detailed_connection \<Rightarrow> 'st heap \<Rightarrow> tcp_state list res" where
  "dc_c_states X d h =
     bindR (dc_store d) (\<lambda>i. bindR (dc_con_rec d) (\<lambda>k. Inr (cr_states X (st_get X k (h i)))))"

definition dc_s_states ::
  "('cr, 'st, 'z) rec_lib_scheme \<Rightarrow> detailed_connection \<Rightarrow> 'st heap \<Rightarrow> tcp_state list res" where
  "dc_s_states X d h =
     bindR (dc_store d) (\<lambda>i. bindR (dc_con_rec d) (\<lambda>k. ext_states X (st_get_1 X k (h i))))"

definition dc_s_push_state ::
  "('cr, 'st, 'z) rec_lib_scheme \<Rightarrow> u64 \<Rightarrow> tcp_state \<Rightarrow> detailed_connection \<Rightarrow> 'st heap \<Rightarrow> 'st heap res" where
  "dc_s_push_state X now state d h =
     bindR (dc_store d) (\<lambda>i. bindR (dc_con_rec d) (\<lambda>k.
     bindR (ext_push_state X now state (cr_base_stamp X (st_get X k (h i))) (st_get_1 X k (h i))) (\<lambda>e.
     Inr (h(i := st_put_1 X k e (h i))))))"

definition dc_c_push_state ::
  "('cr, 'st, 'z) rec_lib_scheme \<Rightarrow> u64 \<Rightarrow> tcp_state \<Rightarrow> detailed_connection \<Rightarrow> 'st heap \<Rightarrow> 'st heap res" where
  "dc_c_push_state X now state d h =
     bindR (dc_store d) (\<lambda>i. bindR (dc_con_rec d) (\<lambda>k.
     Inr (h(i := st_put X k (cr_push_state X now state (st_get X k (h i))) (h i)))))"

definition dc_s_init ::
  "('cr, 'st, 'z) rec_lib_scheme \<Rightarrow> detailed_connection \<Rightarrow> 'st heap \<Rightarrow> 'st heap res" where
  "dc_s_init X d h =
     bindR (dc_store d) (\<lambda>i. bindR (dc_con_rec d) (\<lambda>k.
     Inr (h(i := st_put_1 X k (ext_init (st_get_1 X k (h i))) (h i)))))"

definition dc_s_set_release_cause ::
  "('cr, 'st, 'z) rec_lib_scheme \<Rightarrow> release_cause \<Rightarrow> detailed_connection \<Rightarrow> 'st heap \<Rightarrow> 'st heap res" where
  "dc_s_set_release_cause X cause d h =
     bindR (dc_store d) (\<lambda>i. bindR (dc_con_rec d) (\<lambda>k.
     Inr (h(i := st_put_1 X k (ext_set_release_cause X cause (st_get_1 X k (h i))) (h i)))))"

definition dc_release :: "detailed_connection \<Rightarrow> detailed_connection" where
  "dc_release d = d\<lparr>con_rec := None, d_store := None\<rparr>"

section \<open>Proxy connections\<close>

record 'm conn =
  payload_packet :: "'m pdu_scheme option"
  detailed_c :: "detailed_connection option"
  client_mac :: mac_addr
  client_port :: u16
  client_ip :: u32
  c_seqn :: u32
  ackn_p2s :: u32
  ackn_p2c :: u32
  seqn :: u32
  c2s_inserted_bytes :: i32
  seqn_fin_p2s :: u32
  proxy_port :: u16
  wheel_slot_and_index :: "u16 \<times> u16"
  client_state :: u8
  server_state :: u8
  server_index :: u8

definition con_new :: "('cr, 'st, 'z) rec_lib_scheme \<Rightarrow> 'm conn" where
  "con_new X =
     \<lparr>payload_packet = None, detailed_c = None, client_mac = mac_default X, client_port = 0,
      client_ip = 0, c_seqn = 0, ackn_p2s = 0, ackn_p2c = 0, seqn = 0, c2s_inserted_bytes = 0,
      seqn_fin_p2s = 0, proxy_port = 0, wheel_slot_and_index = (0, 0),
      client_state = state_as_u8 X Closed, server_state = state_as_u8 X Listen, server_index = 0\<rparr>"

definition con_initialize ::
  "('cr, 'st, 'z) rec_lib_scheme \<Rightarrow> sock \<Rightarrow> u16 \<Rightarrow> 'm conn \<Rightarrow> 'm conn" where
  "con_initialize X client_sock port c =
     c\<lparr>payload_packet := None, client_mac := mac_default X, c_seqn := 0, seqn := 0, ackn_p2s := 0,
       ackn_p2c := 0, c2s_inserted_bytes := 0, seqn_fin_p2s := 0, wheel_slot_and_index := (0, 0),
       client_ip := fst client_sock, client_port := snd client_sock, proxy_port := port,
       server_index := 0, client_state := state_as_u8 X Closed,
       server_state := state_as_u8 X Listen\<rparr>"

definition con_initialize_with_details ::
  "('cr, 'st, 'z) rec_lib_scheme \<Rightarrow> sock \<Rightarrow> u16 \<Rightarrow> rc \<Rightarrow> 'm conn \<Rightarrow> 'st heap \<Rightarrow> ('m conn \<times> 'st heap) res" where
  "con_initialize_with_details X client_sock port store c h =
     (let c1 = con_initialize X client_sock port c;
          (d, h1) = (case detailed_c c1 of None \<Rightarrow> dc_new X store h | Some d0 \<Rightarrow> dc_re_new X store d0 h)
      in bindR (dc_initialize X client_sock port d h1) (\<lambda>h2. Inr (c1\<lparr>detailed_c := Some d\<rparr>, h2)))"

definition con_port :: "'m conn \<Rightarrow> u16" where
  "con_port c = proxy_port c"

definition in_use :: "'m conn \<Rightarrow> bool" where
  "in_use c \<longleftrightarrow> proxy_port c \<noteq> 0"

definition con_release :: "'m conn \<Rightarrow> 'm conn" where
  "con_release c = c\<lparr>proxy_port := 0, detailed_c := map_option dc_release (detailed_c c)\<rparr>"

definition con_server_index :: "'m conn \<Rightarrow> nat" where
  "con_server_index c = unat (server_index c)"

definition set_server_index :: "u8 \<Rightarrow> 'm conn \<Rightarrow> 'm conn" where
  "set_server_index i c = c\<lparr>server_index := i\<rparr>"

definition con_sock :: "'m conn \<Rightarrow> sock option" where
  "con_sock c = (if client_ip c \<noteq> 0 then Some (client_ip c, client_port c) else None)"

definition set_sock :: "sock \<Rightarrow> 'm conn \<Rightarrow> 'm conn" where
  "set_sock s c = c\<lparr>client_ip := fst s, client_port := snd s\<rparr>"

definition con_client_state :: "'z lib_scheme \<Rightarrow> 'm conn \<Rightarrow> tcp_state" where
  "con_client_state X c = state_from_u8 X (client_state c)"

definition con_server_state :: "'z lib_scheme \<Rightarrow> 'm conn \<Rightarrow> tcp_state" where
  "con_server_state X c = state_from_u8 X (server_state c)"

text \<open>An operation on the detailed connection, if there is one.\<close>

definition on_detailed :: "(detailed_connection \<Rightarrow> 'st heap \<Rightarrow> 'st heap res) \<Rightarrow> 'm conn \<Rightarrow> 'st heap \<Rightarrow> 'st heap res" where
  "on_detailed f c h = (case detailed_c c of None \<Rightarrow> Inr h | Some d \<Rightarrow> f d h)"

definition c_push_state ::
  "('cr, 'st, 'z) rec_lib_scheme \<Rightarrow> u64 \<Rightarrow> tcp_state \<Rightarrow> 'm conn \<times> 'st heap \<Rightarrow> ('m conn \<times> 'st heap) res" where
  "c_push_state X now state = (\<lambda>(c, h).
     bindR (on_detailed (dc_c_push_state X now state) c h) (\<lambda>h'.
     Inr (c\<lparr>client_state := state_as_u8 X state\<rparr>, h')))"

definition s_push_state ::
  "('cr, 'st, 'z) rec_lib_scheme \<Rightarrow> u64 \<Rightarrow> tcp_state \<Rightarrow> 'm conn \<times> 'st heap \<Rightarrow> ('m conn \<times> 'st heap) res" where
  "s_push_state X now state = (\<lambda>(c, h).
     bindR (on_detailed (dc_s_push_state X now state) c h) (\<lambda>h'.
     Inr (c\<lparr>server_state := state_as_u8 X state\<rparr>, h')))"

definition s_set_release_cause ::
  "('cr, 'st, 'z) rec_lib_scheme \<Rightarrow> release_cause \<Rightarrow> 'm conn \<times> 'st heap \<Rightarrow> ('m conn \<times> 'st heap) res" where
  "s_set_release_cause X cause = (\<lambda>(c, h).
     bindR (on_detailed (dc_s_set_release_cause X cause) c h) (\<lambda>h'. Inr (c, h')))"

definition s_init ::
  "('cr, 'st, 'z) rec_lib_scheme \<Rightarrow> 'm conn \<times> 'st heap \<Rightarrow> ('m conn \<times> 'st heap) res" where
  "s_init X = (\<lambda>(c, h). bindR (on_detailed (dc_s_init X) c h) (\<lambda>h'. Inr (c, h')))"

definition set_release_cause ::
  "('cr, 'st, 'z) rec_lib_scheme \<Rightarrow> release_cause \<Rightarrow> 'm conn \<times> 'st heap \<Rightarrow> ('m conn \<times> 'st heap) res" where
  "set_release_cause X cause = (\<lambda>(c, h).
     bindR (on_detailed (dc_set_release_cause X cause) c h) (\<lambda>h'. Inr (c, h')))"

definition s_states ::
  "('cr, 'st, 'z) rec_lib_scheme \<Rightarrow> 'm conn \<Rightarrow> 'st heap \<Rightarrow> tcp_state list res" where
  "s_states X c h = (case detailed_c c of None \<Rightarrow> Inr [] | Some d \<Rightarrow> dc_s_states X d h)"

definition c_states ::
  "('cr, 'st, 'z) rec_lib_scheme \<Rightarrow> 'm conn \<Rightarrow> 'st heap \<Rightarrow> tcp_state list res" where
  "c_states X c h = (case detailed_c c of None \<Rightarrow> Inr [] | Some d \<Rightarrow> dc_c_states X d h)"

text \<open>\<open>Clone\<close> of a connection gives a new one, which is how the table is filled.\<close>

definition con_clone :: "('cr, 'st, 'z) rec_lib_scheme \<Rightarrow> 'm conn \<Rightarrow> 'm conn" where
  "con_clone X c = con_new X"

section \<open>Lemmas\<close>

lemma on_detailed_None [simp]: "detailed_c c = None \<Longrightarrow> on_detailed f c h = Inr h"
  by (simp add: on_detailed_def)

lemma on_detailed_Some [simp]: "detailed_c c = Some d \<Longrightarrow> on_detailed f c h = f d h"
  by (simp add: on_detailed_def)

lemma in_use_new [simp]: "\<not> in_use (con_new X)"
  by (simp add: in_use_def con_new_def)

lemma in_use_release [simp]: "\<not> in_use (con_release c)"
  by (simp add: in_use_def con_release_def)

lemma con_initialize_fields [simp]:
  "proxy_port (con_initialize X s p c) = p"
  "client_ip (con_initialize X s p c) = fst s"
  "client_port (con_initialize X s p c) = snd s"
  "detailed_c (con_initialize X s p c) = detailed_c c"
  "payload_packet (con_initialize X s p c) = None"
  "client_state (con_initialize X s p c) = state_as_u8 X Closed"
  "server_state (con_initialize X s p c) = state_as_u8 X Listen"
  by (simp_all add: con_initialize_def)

lemma con_sock_initialize [simp]: "fst s \<noteq> 0 \<Longrightarrow> con_sock (con_initialize X s p c) = Some s"
  by (simp add: con_sock_def)

lemma con_sock_updates [simp]:
  "con_sock (c\<lparr>client_state := x\<rparr>) = con_sock c"
  "con_sock (c\<lparr>server_state := x\<rparr>) = con_sock c"
  "con_sock (con_release c) = con_sock c"
  by (simp_all add: con_sock_def con_release_def)

lemma con_release_fields [simp]:
  "proxy_port (con_release c) = 0"
  "client_ip (con_release c) = client_ip c"
  "client_port (con_release c) = client_port c"
  by (simp_all add: con_release_def)

text \<open>
  Logging to the record store changes the copy of the state that the connection keeps and nothing
  else of it. The log operations are total when the connection has no details.
\<close>

lemma c_push_state_plain [simp]:
  "detailed_c c = None \<Longrightarrow> c_push_state X t s (c, h) = Inr (c\<lparr>client_state := state_as_u8 X s\<rparr>, h)"
  by (simp add: c_push_state_def)

lemma s_push_state_plain [simp]:
  "detailed_c c = None \<Longrightarrow> s_push_state X t s (c, h) = Inr (c\<lparr>server_state := state_as_u8 X s\<rparr>, h)"
  by (simp add: s_push_state_def)

lemma release_cause_plain [simp]:
  "detailed_c c = None \<Longrightarrow> set_release_cause X r (c, h) = Inr (c, h)"
  "detailed_c c = None \<Longrightarrow> s_set_release_cause X r (c, h) = Inr (c, h)"
  "detailed_c c = None \<Longrightarrow> s_init X (c, h) = Inr (c, h)"
  by (simp_all add: set_release_cause_def s_set_release_cause_def s_init_def)

lemma states_plain [simp]:
  "detailed_c c = None \<Longrightarrow> c_states X c h = Inr []"
  "detailed_c c = None \<Longrightarrow> s_states X c h = Inr []"
  by (simp_all add: c_states_def s_states_def)

lemma c_push_state_conn:
  "c_push_state X t s (c, h) = Inr (c', h') \<Longrightarrow> c' = c\<lparr>client_state := state_as_u8 X s\<rparr>"
  by (auto simp: c_push_state_def bindR_eq_Inr)

lemma s_push_state_conn:
  "s_push_state X t s (c, h) = Inr (c', h') \<Longrightarrow> c' = c\<lparr>server_state := state_as_u8 X s\<rparr>"
  by (auto simp: s_push_state_def bindR_eq_Inr)

lemma release_cause_conn:
  "set_release_cause X r (c, h) = Inr (c', h') \<Longrightarrow> c' = c"
  "s_set_release_cause X r (c, h) = Inr (c', h') \<Longrightarrow> c' = c"
  "s_init X (c, h) = Inr (c', h') \<Longrightarrow> c' = c"
  by (auto simp: set_release_cause_def s_set_release_cause_def s_init_def bindR_eq_Inr)

lemmas log_conn = c_push_state_conn s_push_state_conn release_cause_conn

lemma dc_released_panics: "dc_store (dc_release d) = Inl UnwrapNone"
  by (simp add: dc_store_def dc_release_def)

text \<open>
  Writing the server log through the store and reading it back: after \<open>s_init\<close>, the pushed states
  are what \<open>s_states\<close> reports, up to the seven that fit.
\<close>

fun s_push_all ::
  "('cr, 'st, 'z) rec_lib_scheme \<Rightarrow> (u64 \<times> tcp_state) list \<Rightarrow> 'm conn \<times> 'st heap \<Rightarrow> ('m conn \<times> 'st heap) res" where
  "s_push_all X [] ch = Inr ch"
| "s_push_all X ((now, s) # xs) ch = bindR (s_push_state X now s ch) (s_push_all X xs)"

lemma s_push_state_details:
  assumes "detailed_c c = Some \<lparr>con_rec = Some k, d_store = Some i\<rparr>"
  shows "s_push_state X now s (c, h) =
    bindR (ext_push_state X now s (cr_base_stamp X (st_get X k (h i))) (st_get_1 X k (h i)))
      (\<lambda>e. Inr (c\<lparr>server_state := state_as_u8 X s\<rparr>, h(i := st_put_1 X k e (h i))))"
  using assms
  by (cases "ext_push_state X now s (cr_base_stamp X (st_get X k (h i))) (st_get_1 X k (h i))")
    (simp_all add: s_push_state_def dc_s_push_state_def dc_store_def dc_con_rec_def)

lemma s_push_all_log:
  assumes "detailed_c c = Some \<lparr>con_rec = Some k, d_store = Some i\<rparr>" and "store_ok X"
    and "ext_push_all X (cr_base_stamp X (st_get X k (h i))) xs (st_get_1 X k (h i)) = Inr e"
  shows "\<exists>h'. s_push_all X xs (c, h) =
      Inr (if xs = [] then c else c\<lparr>server_state := state_as_u8 X (snd (last xs))\<rparr>, h') \<and>
    st_get_1 X k (h' i) = e \<and> st_get X k (h' i) = st_get X k (h i)"
  using assms
proof (induction xs arbitrary: c h)
  case Nil
  then show ?case by simp
next
  case (Cons x xs)
  obtain now s where x: "x = (now, s)" by (cases x)
  obtain e1 where e1: "ext_push_state X now s (cr_base_stamp X (st_get X k (h i))) (st_get_1 X k (h i)) = Inr e1"
    and rest: "ext_push_all X (cr_base_stamp X (st_get X k (h i))) xs e1 = Inr e"
    using Cons.prems(3) by (auto simp: x bindR_eq_Inr)
  let ?c = "c\<lparr>server_state := state_as_u8 X s\<rparr>" and ?h = "h(i := st_put_1 X k e1 (h i))"
  have "\<exists>h'. s_push_all X xs (?c, ?h) =
        Inr (if xs = [] then ?c else ?c\<lparr>server_state := state_as_u8 X (snd (last xs))\<rparr>, h') \<and>
      st_get_1 X k (h' i) = e \<and> st_get X k (h' i) = st_get X k (?h i)"
    using Cons.prems(1,2) rest by (intro Cons.IH) (simp_all add: store_ok_def)
  moreover have "st_get X k (?h i) = st_get X k (h i)" using Cons.prems(2) by (simp add: store_ok_def)
  ultimately show ?case by (auto simp: x s_push_state_details [OF Cons.prems(1)] e1)
qed

end
