(* ===== verification/Manager.thy ===== *)
theory Manager
  imports Connection
begin

text \<open>
  \<open>ConnectionManager\<close> of \<^verbatim>\<open>cmanager.rs\<close>: the table of connections of one pipeline, indexed by proxy
  port, with the map from client sockets to proxy ports and the queue of free ports. A mutable
  reference to a connection of the table is modelled as its index.

  The timer wheel and \<open>shuffle_ports\<close> are netfcts code and so fields of the parameter record
  \<open>mgr_lib\<close>. The wheel maps a pair (slot, index) to a port; \<open>wheel_ok\<close> says so, in terms of an
  observer \<open>ent\<close> of its entries.
\<close>

section \<open>Parameters\<close>

record ('cr, 'st, 'w) mgr_lib = "('cr, 'st) rec_lib" +
  shuffle_ports :: "u16 \<Rightarrow> u16 \<Rightarrow> u16 list"
  wheel_schedule :: "u64 \<Rightarrow> u16 \<Rightarrow> 'w \<Rightarrow> (u16 \<times> u16) \<times> 'w"
  wheel_replace :: "u16 \<times> u16 \<Rightarrow> u16 \<Rightarrow> 'w \<Rightarrow> u16 option \<times> 'w"
  wheel_tick :: "u64 \<Rightarrow> 'w \<Rightarrow> (u16 list option \<times> bool) \<times> 'w"

text \<open>\<open>shuffle_ports\<close> lists the ports of an interval, each once.\<close>

definition shuffle_ok :: "('cr, 'st, 'w, 'z) mgr_lib_scheme \<Rightarrow> bool" where
  "shuffle_ok X \<longleftrightarrow> (\<forall>a b. distinct (shuffle_ports X a b) \<and> set (shuffle_ports X a b) = {a..b})"

text \<open>
  A place in the wheel is a slot and a 16-bit index into the slot. As long as the wheel has fewer
  than \<open>2 ^ 16\<close> entries, it stores each scheduled port in a place of its own; \<open>replace\<close> reports the old
  entry of a place and overwrites it; a tick hands out the entries of the places it empties.
\<close>

definition wheel_load :: "('w \<Rightarrow> u16 \<times> u16 \<Rightarrow> u16 option) \<Rightarrow> 'w \<Rightarrow> nat" where
  "wheel_load ent w = card (dom (ent w))"

definition wheel_ok :: "('cr, 'st, 'w, 'z) mgr_lib_scheme \<Rightarrow> ('w \<Rightarrow> u16 \<times> u16 \<Rightarrow> u16 option) \<Rightarrow> bool" where
  "wheel_ok X ent \<longleftrightarrow>
     (\<forall>d v w k w'. wheel_load ent w < 2 ^ 16 \<longrightarrow> wheel_schedule X d v w = (k, w') \<longrightarrow>
        ent w k = None \<and> ent w' = (ent w)(k \<mapsto> v)) \<and>
     (\<forall>k v w old w'. wheel_replace X k v w = (old, w') \<longrightarrow>
        old = ent w k \<and> ent w' = (if ent w k = None then ent w else (ent w)(k \<mapsto> v))) \<and>
     (\<forall>now w dr again w'. wheel_tick X now w = ((dr, again), w') \<longrightarrow>
        (\<exists>K. ent w' = (\<lambda>k. if k \<in> K then None else ent w k) \<and>
             set (case dr of None \<Rightarrow> [] | Some ps \<Rightarrow> ps) = {p. \<exists>k\<in>K. ent w k = Some p}))"

text \<open>The wheel catches up with a given time after finitely many ticks.\<close>

definition wheel_catches_up :: "('cr, 'st, 'w, 'z) mgr_lib_scheme \<Rightarrow> (u64 \<Rightarrow> 'w \<Rightarrow> nat) \<Rightarrow> bool" where
  "wheel_catches_up X lag \<longleftrightarrow>
     (\<forall>now w dr w'. wheel_tick X now w = ((dr, True), w') \<longrightarrow> lag now w' < lag now w)"

section \<open>The manager\<close>

record ('st, 'm) cmanager =
  rc_heap :: "'st heap"
  rc_next :: rc
  record_store :: rc
  sock2port :: "sock \<rightharpoonup> u16"
  free_ports :: "u16 list"
  port2con :: "'m conn list"
  port_mask :: u16
  tcp_port_base :: u16
  cm_ip :: u32
  detailed_records :: bool

definition MAX_RECORDS :: nat where
  "MAX_RECORDS = 0x3FFFF"

definition cm_new ::
  "('cr, 'st, 'w, 'z) mgr_lib_scheme \<Rightarrow> u16 \<Rightarrow> u32 \<Rightarrow> u16 \<Rightarrow> bool \<Rightarrow> ('st, 'm) cmanager res" where
  "cm_new X pmask ip_addr base detailed =
     bindR (add_w (overflow_checks X) base (NOT pmask)) (\<lambda>max_tcp_port.
     bindR (sub_w (overflow_checks X) max_tcp_port 1) (\<lambda>last_shuffled.
     Inr \<lparr>rc_heap = (\<lambda>_. st_with_capacity X MAX_RECORDS), rc_next = 1, record_store = 0,
          sock2port = Map.empty,
          free_ports = shuffle_ports X (if base = 0 then 1 else base) last_shuffled @ [max_tcp_port],
          port2con = replicate (unat (NOT pmask) + 1) (con_clone X (con_new X)),
          port_mask = pmask, tcp_port_base = base, cm_ip = ip_addr, detailed_records = detailed\<rparr>))"

definition get_mut_con ::
  "('cr, 'st, 'w, 'z) mgr_lib_scheme \<Rightarrow> ('st, 'm) cmanager \<Rightarrow> u16 \<Rightarrow> nat res" where
  "get_mut_con X cm p =
     bindR (sub_w (overflow_checks X) p (tcp_port_base cm)) (\<lambda>d.
     bindR (indexR (port2con cm) (unat d)) (\<lambda>_. Inr (unat d)))"

definition owns_tcp_port :: "('st, 'm) cmanager \<Rightarrow> u16 \<Rightarrow> bool" where
  "owns_tcp_port cm p \<longleftrightarrow> p AND port_mask cm = tcp_port_base cm"

definition get_mut_by_port ::
  "('cr, 'st, 'w, 'z) mgr_lib_scheme \<Rightarrow> u16 \<Rightarrow> ('st, 'm) cmanager \<Rightarrow> nat option res" where
  "get_mut_by_port X port cm =
     (if owns_tcp_port cm port
      then bindR (get_mut_con X cm port) (\<lambda>i.
           if in_use (port2con cm ! i) then Inr (Some i) else Inr None)
      else Inr None)"

definition get_mut_by_sock ::
  "('cr, 'st, 'w, 'z) mgr_lib_scheme \<Rightarrow> sock \<Rightarrow> ('st, 'm) cmanager \<Rightarrow> nat option res" where
  "get_mut_by_sock X s cm =
     (case sock2port cm s of
        Some port \<Rightarrow> bindR (get_mut_con X cm port) (\<lambda>i. Inr (Some i))
      | None \<Rightarrow> Inr None)"

definition get_mut_or_insert ::
  "('cr, 'st, 'w, 'z) mgr_lib_scheme \<Rightarrow> sock \<Rightarrow> ('st, 'm) cmanager \<Rightarrow> (nat option \<times> ('st, 'm) cmanager) res" where
  "get_mut_or_insert X s cm =
     (case sock2port cm s of
        Some port \<Rightarrow>
          bindR (get_mut_con X cm port) (\<lambda>i.
          bindR (assertR (in_use (port2con cm ! i))) (\<lambda>_. Inr (Some i, cm)))
      | None \<Rightarrow>
          (case free_ports cm of
             [] \<Rightarrow> Inr (None, cm)
           | port # rest \<Rightarrow>
               bindR (get_mut_con X cm port) (\<lambda>i.
               bindR (assertR (\<not> in_use (port2con cm ! i))) (\<lambda>_.
               bindR (if detailed_records cm
                      then con_initialize_with_details X s port (record_store cm) (port2con cm ! i) (rc_heap cm)
                      else Inr (con_initialize X s port (port2con cm ! i), rc_heap cm)) (\<lambda>(c, h).
               Inr (Some i, cm\<lparr>free_ports := rest, rc_heap := h, port2con := (port2con cm)[i := c],
                               sock2port := (sock2port cm)(s \<mapsto> port)\<rparr>))))))"

definition release_port ::
  "('cr, 'st, 'w, 'z) mgr_lib_scheme \<Rightarrow> u16 \<Rightarrow> ('st, 'm) cmanager \<times> 'w \<Rightarrow> (('st, 'm) cmanager \<times> 'w) res" where
  "release_port X port = (\<lambda>(cm, w).
     bindR (get_mut_con X cm port) (\<lambda>i.
     let c = port2con cm ! i in
     if in_use c
     then bindR (assertR (port = con_port c)) (\<lambda>_.
          let (old, w') = wheel_replace X (wheel_slot_and_index c) 0 w in
          bindR (assertR (case old of None \<Rightarrow> True | Some q \<Rightarrow> q = port)) (\<lambda>_.
          bindR (case con_sock c of
                   None \<Rightarrow> Inr (sock2port cm)
                 | Some s \<Rightarrow>
                     bindR (assertR (case sock2port cm s of None \<Rightarrow> True | Some q \<Rightarrow> q = con_port c)) (\<lambda>_.
                     Inr ((sock2port cm)(s := None)))) (\<lambda>m.
          Inr (cm\<lparr>free_ports := free_ports cm @ [port], sock2port := m,
                  port2con := (port2con cm)[i := con_release c]\<rparr>, w'))))
     else Inr (cm, w)))"

definition timeout_port ::
  "('cr, 'st, 'w, 'z) mgr_lib_scheme \<Rightarrow> u64 \<Rightarrow> u16 \<Rightarrow> ('st, 'm) cmanager \<Rightarrow> ('st, 'm) cmanager res" where
  "timeout_port X now port cm =
     bindR (get_mut_by_port X port cm) (\<lambda>o'.
     case o' of
       None \<Rightarrow> Inr cm
     | Some i \<Rightarrow>
         bindR (set_release_cause X Timeout (port2con cm ! i, rc_heap cm)) (\<lambda>ch.
         bindR (c_push_state X now Closed ch) (\<lambda>(c, h).
         Inr (cm\<lparr>rc_heap := h, port2con := (port2con cm)[i := con_release c],
                 free_ports := free_ports cm @ [port],
                 sock2port := (case con_sock c of None \<Rightarrow> sock2port cm | Some s \<Rightarrow> (sock2port cm)(s := None))\<rparr>))))"

text \<open>
  The inner loop of \<open>release_timeouts\<close> over the ports a tick hands out; \<open>clk n\<close> is the \<open>n\<close>-th
  reading of the time-stamp counter from here on.
\<close>

fun timeout_drain ::
  "('cr, 'st, 'w, 'z) mgr_lib_scheme \<Rightarrow> (nat \<Rightarrow> u64) \<Rightarrow> u16 list \<Rightarrow> ('st, 'm) cmanager \<Rightarrow> ('st, 'm) cmanager res" where
  "timeout_drain X clk [] cm = Inr cm"
| "timeout_drain X clk (p # ps) cm =
     (if p \<noteq> 0
      then bindR (timeout_port X (clk 0) p cm) (timeout_drain X (\<lambda>n. clk (Suc n)) ps)
      else timeout_drain X clk ps cm)"

text \<open>The outer loop runs until the wheel says there is nothing left to do; \<open>None\<close> is a run that never ends.\<close>

partial_function (option) release_timeouts ::
  "('cr, 'st, 'w, 'z) mgr_lib_scheme \<Rightarrow> u64 \<Rightarrow> (nat \<Rightarrow> u64) \<Rightarrow> ('st, 'm) cmanager \<Rightarrow> 'w \<Rightarrow>
   (('st, 'm) cmanager \<times> 'w) res option" where
  "release_timeouts X now clk cm w =
     (case wheel_tick X now w of ((drain, again), w') \<Rightarrow>
     (case timeout_drain X clk (case drain of None \<Rightarrow> [] | Some ps \<Rightarrow> ps) cm of
        Inl e \<Rightarrow> Some (Inl e)
      | Inr cm' \<Rightarrow>
          if again
          then release_timeouts X now
                 (\<lambda>n. clk (n + length (case drain of None \<Rightarrow> [] | Some ps \<Rightarrow> ps))) cm' w'
          else Some (Inr (cm', w'))))"

definition holds_store :: "rc \<Rightarrow> 'm conn \<Rightarrow> bool" where
  "holds_store r c \<longleftrightarrow> (case detailed_c c of None \<Rightarrow> False | Some d \<Rightarrow> d_store d = Some r)"

definition strong_count :: "rc \<Rightarrow> 'm conn list \<Rightarrow> nat" where
  "strong_count r cs = 1 + length (filter (holds_store r) cs)"

definition fetch_c_records ::
  "('cr, 'st, 'w, 'z) mgr_lib_scheme \<Rightarrow> ('st, 'm) cmanager \<Rightarrow> 'st option \<times> ('st, 'm) cmanager" where
  "fetch_c_records X cm =
     (let old_store = record_store cm;
          new_store = rc_next cm;
          cm1 = cm\<lparr>rc_heap := (rc_heap cm)(new_store := st_with_capacity X MAX_RECORDS),
                   rc_next := rc_next cm + 1, record_store := new_store\<rparr>;
          cm2 = (if strong_count old_store (port2con cm1) > 1
                 then cm1\<lparr>port2con := map con_release (port2con cm1)\<rparr> else cm1)
      in if strong_count old_store (port2con cm2) = 1
         then (Some (rc_heap cm2 old_store), cm2) else (None, cm2))"

text \<open>What a caller does to the connection it was given a mutable reference to, as a write to the table.\<close>

definition put_con :: "nat \<Rightarrow> 'm conn \<times> 'st heap \<Rightarrow> ('st, 'm) cmanager \<Rightarrow> ('st, 'm) cmanager" where
  "put_con i = (\<lambda>(c, h) cm. cm\<lparr>port2con := (port2con cm)[i := c], rc_heap := h\<rparr>)"

end
