(* ===== verification/Forward.thy ===== *)
theory Forward
  imports Manager
begin

text \<open>
  The packet functions nested in \<open>setup_delayed_proxy\<close> of \<^verbatim>\<open>nftcp.rs\<close>: the packet allocator, the answer
  to a client SYN, the two directions of the established connection with their translation of
  sequence numbers, the delayed binding to a server (\<open>select_server\<close>) and its completion
  (\<open>server_synack_received\<close>).

  A \<open>Pdu\<close> handle refers to a buffer (mbuf) that several handles may share. The functions here share
  a buffer in two places only. In \<open>select_server\<close> the saved payload packet is a clone of the
  incoming handle, so what is written through either is seen through both until the incoming
  handle is redirected to the new SYN buffer; the model keeps the shared buffer as one value up to
  that point. In \<open>server_synack_received\<close> the queued ACK is a clone of a packet that is not written
  again. \<open>refcnt\<close> counts the handles.

  Packet manipulation of netfcts and e2d2 is a field of the parameter record \<open>net_lib\<close>; \<open>net_ok\<close>
  states what the proxy relies on, field by field.
\<close>

section \<open>Parameters\<close>

datatype header = MacH mac_hdr | IpH ip_hdr | TcpH tcp_hdr

record ('cr, 'st, 'w, 'm) net_lib = "('cr, 'st, 'w) mgr_lib" +
  set_header :: "l234data \<Rightarrow> u16 \<Rightarrow> mac_addr \<Rightarrow> u32 \<Rightarrow> 'm pdu_scheme \<Rightarrow> 'm pdu_scheme"
  make_reply_packet :: "u32 \<Rightarrow> 'm pdu_scheme \<Rightarrow> 'm pdu_scheme"
  remove_tcp_options :: "'m pdu_scheme \<Rightarrow> 'm pdu_scheme"
  prepare_checksum_and_ttl :: "'m pdu_scheme \<Rightarrow> 'm pdu_scheme"
  set_tcp_ipv4_checksum_tx_offload :: "'m pdu_scheme \<Rightarrow> 'm pdu_scheme"
  add_padding :: "nat \<Rightarrow> 'm pdu_scheme \<Rightarrow> 'm pdu_scheme"
  push_header :: "header \<Rightarrow> 'm pdu_scheme \<Rightarrow> bool \<times> 'm pdu_scheme"
  trim_length_by :: "u16 \<Rightarrow> ip_hdr \<Rightarrow> ip_hdr"
  tcp_payload_size :: "'m pdu_scheme \<Rightarrow> nat"
  data_len :: "'m pdu_scheme \<Rightarrow> nat"
  get_tailroom :: "'m pdu_scheme \<Rightarrow> nat"
  new_pdu_array :: "nat \<Rightarrow> 'm pdu_scheme list option"
  private_etype :: "u16 \<Rightarrow> bool"
  PRIVATE_ETYPE_PACKET :: u16
  PRIVATE_ETYPE_TIMER :: u16
  is_multicast :: "mac_addr \<Rightarrow> bool"
  is_broadcast :: "mac_addr \<Rightarrow> bool"

definition MIN_FRAME_SIZE :: nat where
  "MIN_FRAME_SIZE = 60"

section \<open>The packet allocator\<close>

record 'm allocator =
  pdu_batch :: "'m pdu_scheme list option"
  alloc_calls :: nat

definition allocator_new :: "('cr, 'st, 'w, 'm, 'z) net_lib_scheme \<Rightarrow> 'm allocator" where
  "allocator_new X = \<lparr>pdu_batch = new_pdu_array X 0, alloc_calls = 1\<rparr>"

definition vec_pop :: "'a list \<Rightarrow> 'a option \<times> 'a list" where
  "vec_pop v = (if v = [] then (None, []) else (Some (last v), butlast v))"

definition get_pdu ::
  "('cr, 'st, 'w, 'm, 'z) net_lib_scheme \<Rightarrow> 'm allocator \<Rightarrow> 'm pdu_scheme option \<times> 'm allocator" where
  "get_pdu X a =
     (case pdu_batch a of
        Some batch \<Rightarrow>
          if batch = []
          then let a' = a\<lparr>pdu_batch := new_pdu_array X (alloc_calls a), alloc_calls := alloc_calls a + 1\<rparr>
               in (case pdu_batch a' of
                     Some batch' \<Rightarrow> (let (p, rest) = vec_pop batch' in (p, a'\<lparr>pdu_batch := Some rest\<rparr>))
                   | None \<Rightarrow> (None, a'))
          else (let (p, rest) = vec_pop batch in (p, a\<lparr>pdu_batch := Some rest\<rparr>))
      | None \<Rightarrow> (None, a))"

section \<open>Packet functions\<close>

record me_data =
  me_l234 :: l234data
  me_ip_s :: u32

definition client_syn_received ::
  "('cr, 'st, 'w, 'm, 'z) net_lib_scheme \<Rightarrow> u64 \<Rightarrow> 'm pdu_scheme \<Rightarrow> 'm conn \<Rightarrow> 'm pdu_scheme \<times> 'm conn" where
  "client_syn_received X now p c =
     (let c = c\<lparr>client_mac := mac_src (mac_h p)\<rparr>;
          p = remove_tcp_options X p;
          p = make_reply_packet X 1 p;
          c = c\<lparr>c_seqn := ucast (push_bit 8 now)\<rparr>;
          p = p\<lparr>tcp_h := (tcp_h p)\<lparr>seq_num := c_seqn c\<rparr>\<rparr>;
          c = c\<lparr>ackn_p2c := ack_num (tcp_h p)\<rparr>;
          p = prepare_checksum_and_ttl X p
      in (p, c))"

text \<open>
  The bytes inserted by the proxy shift the sequence numbers towards the server and the
  acknowledgements towards the client; the count is signed.
\<close>

definition seq_forward :: "bool \<Rightarrow> u32 \<Rightarrow> i32 \<Rightarrow> u32 res" where
  "seq_forward checks oldseqn inserted =
     (if sint inserted \<ge> 0 then Inr (oldseqn + inserted)
      else bindR (neg_w checks inserted) (\<lambda>n. Inr (oldseqn - n)))"

definition ack_backward :: "bool \<Rightarrow> u32 \<Rightarrow> i32 \<Rightarrow> u32 res" where
  "ack_backward checks oldackn inserted =
     (if sint inserted \<ge> 0 then Inr (oldackn - inserted)
      else bindR (neg_w checks inserted) (\<lambda>n. Inr (oldackn + n)))"

definition client_to_server ::
  "('cr, 'st, 'w, 'm, 'z) net_lib_scheme \<Rightarrow> me_data \<Rightarrow> l234data list \<Rightarrow>
   ('m conn \<Rightarrow> u8 list \<Rightarrow> nat \<Rightarrow> 'm conn \<times> u8 list) \<Rightarrow>
   'm pdu_scheme \<Rightarrow> 'm conn \<Rightarrow> ('m pdu_scheme \<times> 'm conn) res" where
  "client_to_server X me servers f_process_payload p c =
     (let (p, c) = (if tcp_payload_size X p > 0
                    then let (c', bytes) = f_process_payload c (payload p) (get_tailroom X p)
                         in (p\<lparr>payload := bytes\<rparr>, c')
                    else (p, c))
      in bindR (indexR servers (con_server_index c)) (\<lambda>server.
         let p = set_header X server (con_port c) (l_mac (me_l234 me)) (me_ip_s me) p;
             newackn = ack_num (tcp_h p) - c_seqn c
         in bindR (seq_forward (overflow_checks X) (seq_num (tcp_h p)) (c2s_inserted_bytes c)) (\<lambda>newseqn.
            let p = (if c2s_inserted_bytes c \<noteq> 0 then p\<lparr>tcp_h := (tcp_h p)\<lparr>seq_num := newseqn\<rparr>\<rparr> else p);
                p = p\<lparr>tcp_h := (tcp_h p)\<lparr>ack_num := newackn\<rparr>\<rparr>;
                c = c\<lparr>ackn_p2s := newackn\<rparr>;
                c = (if fin_flag (tcp_h p) then c\<lparr>seqn_fin_p2s := newseqn\<rparr> else c)
            in Inr (prepare_checksum_and_ttl X p, c))))"

definition server_to_client ::
  "('cr, 'st, 'w, 'm, 'z) net_lib_scheme \<Rightarrow> me_data \<Rightarrow> 'm pdu_scheme \<Rightarrow> 'm conn \<Rightarrow> ('m pdu_scheme \<times> 'm conn) res" where
  "server_to_client X me p c =
     bindR (unwrapR (con_sock c)) (\<lambda>s.
     let p = p\<lparr>mac_h := (mac_h p)\<lparr>mac_dst := client_mac c, mac_src := l_mac (me_l234 me)\<rparr>,
               ip_h := (ip_h p)\<lparr>ip_dst := fst s, ip_src := l_ip (me_l234 me)\<rparr>,
               tcp_h := (tcp_h p)\<lparr>src_port := l_port (me_l234 me), dst_port := snd s\<rparr>\<rparr>;
         newseqn = seq_num (tcp_h p) + c_seqn c
     in bindR (ack_backward (overflow_checks X) (ack_num (tcp_h p)) (c2s_inserted_bytes c)) (\<lambda>newackn.
        let p = (if c2s_inserted_bytes c \<noteq> 0 then p\<lparr>tcp_h := (tcp_h p)\<lparr>ack_num := newackn\<rparr>\<rparr> else p);
            p = p\<lparr>tcp_h := (tcp_h p)\<lparr>seq_num := newseqn\<rparr>\<rparr>;
            c = c\<lparr>ackn_p2c := newackn\<rparr>
        in bindR (if fin_flag (tcp_h p)
                  then bindR (add_w (overflow_checks X) (of_nat (tcp_payload_size X p)) 1) (\<lambda>n.
                       Inr (c\<lparr>seqn := newseqn + n\<rparr>))
                  else Inr c) (\<lambda>c.
           Inr (prepare_checksum_and_ttl X p, c))))"

definition select_server ::
  "('cr, 'st, 'w, 'm, 'z) net_lib_scheme \<Rightarrow> me_data \<Rightarrow> l234data list \<Rightarrow> ('m conn \<Rightarrow> 'm conn res) \<Rightarrow>
   'm pdu_scheme \<Rightarrow> 'm pdu_scheme \<Rightarrow> 'm conn \<Rightarrow> ('m pdu_scheme \<times> 'm conn) res" where
  "select_server X me servers f_select_server syn p c =
     (let buf = p\<lparr>refcnt := refcnt p + 1\<rparr>;
          payload_sz = tcp_payload_size X buf
      in bindR (f_select_server (c\<lparr>payload_packet := Some buf\<rparr>)) (\<lambda>c.
         bindR (unwrapR (payload_packet c)) (\<lambda>buf.
         bindR (sub_i32 (overflow_checks X) (of_nat (tcp_payload_size X buf)) (of_nat payload_sz)) (\<lambda>inserted.
         let c = c\<lparr>c2s_inserted_bytes := inserted\<rparr>
         in bindR (indexR servers (con_server_index c)) (\<lambda>server.
            let buf = set_header X server (con_port c) (l_mac (me_l234 me)) (me_ip_s me) buf;
                (ok, syn) = push_header X (MacH (mac_h buf)) syn
            in bindR (assertR ok) (\<lambda>_.
               let buf = buf\<lparr>refcnt := refcnt buf - 1\<rparr>;
                   c = c\<lparr>payload_packet := Some buf\<rparr>;
                   (ok, p) = push_header X (IpH (ip_h buf)) syn
               in bindR (assertR ok) (\<lambda>_.
                  let (ok, p) = push_header X (TcpH (tcp_h buf)) p
                  in bindR (assertR ok) (\<lambda>_.
                     let p = p\<lparr>ip_h := trim_length_by X (of_nat payload_sz) (ip_h p)\<rparr>;
                         c = c\<lparr>seqn := seq_num (tcp_h p) - 1\<rparr>;
                         p = p\<lparr>tcp_h := (tcp_h p)\<lparr>seq_num := seqn c, syn_flag := True, ack_num := 0,
                                                  ack_flag := False, psh_flag := False\<rparr>\<rparr>
                     in Inr (prepare_checksum_and_ttl X p, c)))))))))"

definition server_synack_received ::
  "('cr, 'st, 'w, 'm, 'z) net_lib_scheme \<Rightarrow> 'm pdu_scheme \<Rightarrow> 'm conn \<Rightarrow> 'm pdu_scheme list \<Rightarrow>
   ('m pdu_scheme \<times> 'm conn \<times> 'm pdu_scheme list) res" where
  "server_synack_received X p c producer =
     (let c = c\<lparr>c_seqn := c_seqn c - seq_num (tcp_h p)\<rparr>;
          p = remove_tcp_options X p;
          p = make_reply_packet X 1 p;
          p = p\<lparr>tcp_h := (tcp_h p)\<lparr>syn_flag := False\<rparr>\<rparr>;
          c = c\<lparr>seqn := seqn c + 1\<rparr>;
          p = p\<lparr>tcp_h := (tcp_h p)\<lparr>seq_num := seqn c\<rparr>\<rparr>;
          p = prepare_checksum_and_ttl X p;
          p = p\<lparr>refcnt := refcnt p + 1\<rparr>;
          producer = producer @ [p]
      in case payload_packet c of
           None \<Rightarrow> Inr (p, c, producer)
         | Some pp \<Rightarrow>
             (let c = c\<lparr>payload_packet := None\<rparr>;
                  pp = pp\<lparr>tcp_h := tcp_h p\<rparr>;
                  pp = pp\<lparr>tcp_h := (tcp_h pp)\<lparr>psh_flag := True\<rparr>\<rparr>;
                  pp = (if data_len X pp < MIN_FRAME_SIZE
                        then add_padding X (MIN_FRAME_SIZE - data_len X pp) pp else pp);
                  pp = prepare_checksum_and_ttl X pp;
                  c = c\<lparr>ackn_p2s := ack_num (tcp_h p)\<rparr>
              in bindR (assertR (refcnt pp = 1)) (\<lambda>_. Inr (p, c, producer @ [pp]))))"

end
