(* ===== verification/Pipeline.thy ===== *)
theory Pipeline
  imports Forward
begin

text \<open>
  The main closure of \<open>setup_delayed_proxy\<close> in \<^verbatim>\<open>nftcp.rs\<close>: what one pipeline does with one packet. Its
  state is \<open>pipe\<close>, its captured constants are \<open>pcfg\<close>. The closure returns the group the packet goes
  to: 0 drops it, 1 sends it to the network interface, 2 sends it to the kernel interface.

  While a packet of a connection is handled, the locals of the closure and the connection it has
  borrowed are a \<open>frame\<close>; one definition per branch of the two state machines works on the frame.

  \<open>clk n\<close> is the \<open>n\<close>-th reading of the time-stamp counter during the call; the readings are numbered
  by the order in which a path makes them. Log macros and the statistics of the \<open>profiling\<close> feature
  (off by default) are not modelled. The whole result is an \<open>option\<close>, since the release of timeouts
  loops until the wheel is up to date.
\<close>

section \<open>State\<close>

record 'm pcfg =
  me :: me_data
  pipeline_ip :: u32
  tcp_min_port :: u16
  servers :: "l234data list"
  csum_offload :: bool
  timeouts_established :: "u64 option"
  cpu_clock :: u64
  wheel_tick_reduction_factor :: u64
  f_select_server :: "'m conn \<Rightarrow> 'm conn res"
  f_process_payload_c_s :: "'m conn \<Rightarrow> u8 list \<Rightarrow> nat \<Rightarrow> 'm conn \<times> u8 list"

datatype msg_to = FetchCounter | FetchCRecords | OtherMsg

datatype 'st msg_from = Counter counter counter | CRecords "'st option"

record ('st, 'w, 'm) pipe =
  p_cm :: "('st, 'm) cmanager"
  p_wheel :: 'w
  p_counter_c :: counter
  p_counter_s :: counter
  p_ticks :: u64
  p_alloc :: "'m allocator"
  p_producer :: "'m pdu_scheme list"
  p_tx :: "'st msg_from list"
  p_tx_open :: bool

record ('st, 'w, 'm) frame =
  f_pdu :: "'m pdu_scheme"
  f_con :: "'m conn"
  f_heap :: "'st heap"
  f_cc :: counter
  f_cs :: counter
  f_wheel :: 'w
  f_alloc :: "'m allocator"
  f_producer :: "'m pdu_scheme list"
  f_group :: nat
  f_release :: "u16 option"
  f_unexpected :: bool

definition enter :: "nat \<Rightarrow> ('st, 'm) cmanager \<Rightarrow> 'm pdu_scheme \<Rightarrow> ('st, 'w, 'm) pipe \<Rightarrow> ('st, 'w, 'm) frame" where
  "enter i cm p W =
     \<lparr>f_pdu = p, f_con = port2con cm ! i, f_heap = rc_heap cm, f_cc = p_counter_c W, f_cs = p_counter_s W,
      f_wheel = p_wheel W, f_alloc = p_alloc W, f_producer = p_producer W, f_group = 0, f_release = None,
      f_unexpected = False\<rparr>"

definition leave :: "nat \<Rightarrow> ('st, 'm) cmanager \<Rightarrow> ('st, 'w, 'm) pipe \<Rightarrow> ('st, 'w, 'm) frame \<Rightarrow> ('st, 'w, 'm) pipe" where
  "leave i cm W f =
     W\<lparr>p_cm := put_con i (f_con f, f_heap f) cm, p_counter_c := f_cc f, p_counter_s := f_cs f,
       p_wheel := f_wheel f, p_alloc := f_alloc f, p_producer := f_producer f\<rparr>"

section \<open>Steps on a frame\<close>

definition on_con ::
  "('m conn \<times> 'st heap \<Rightarrow> ('m conn \<times> 'st heap) res) \<Rightarrow> ('st, 'w, 'm) frame \<Rightarrow> ('st, 'w, 'm) frame res" where
  "on_con g f = bindR (g (f_con f, f_heap f)) (\<lambda>(c, h). Inr (f\<lparr>f_con := c, f_heap := h\<rparr>))"

definition count_c :: "tcp_stat \<Rightarrow> ('st, 'w, 'm) frame \<Rightarrow> ('st, 'w, 'm) frame" where
  "count_c s f = f\<lparr>f_cc := incr s (f_cc f)\<rparr>"

definition count_s :: "tcp_stat \<Rightarrow> ('st, 'w, 'm) frame \<Rightarrow> ('st, 'w, 'm) frame" where
  "count_s s f = f\<lparr>f_cs := incr s (f_cs f)\<rparr>"

section \<open>Packets from the client\<close>

definition client_syn ::
  "('cr, 'st, 'w, 'm, 'z) net_lib_scheme \<Rightarrow> 'm pcfg \<Rightarrow> (nat \<Rightarrow> u64) \<Rightarrow> tcp_state \<Rightarrow>
   ('st, 'w, 'm) frame \<Rightarrow> ('st, 'w, 'm) frame res" where
  "client_syn X cfg clk old_c f =
     (if old_c = Closed
      then let (p, c) = client_syn_received X (clk 0) (f_pdu f) (f_con f);
               f = f\<lparr>f_pdu := p, f_con := c\<rparr>
           in bindR (on_con (c_push_state X (clk 1) SynSent) f) (\<lambda>f.
              let f = count_c SentSynAck (count_c RecvSyn f)
              in bindR (unwrapR (timeouts_established cfg)) (\<lambda>t.
                 bindR (mul_w (overflow_checks X) t (cpu_clock cfg)) (\<lambda>cycles.
                 let (k, w) = wheel_schedule X (cycles div 1000) (con_port (f_con f)) (f_wheel f)
                 in Inr (f\<lparr>f_wheel := w, f_con := (f_con f)\<lparr>wheel_slot_and_index := k\<rparr>, f_group := 1\<rparr>))))
      else Inr f)"

definition client_handshake_ack ::
  "('cr, 'st, 'w, 'm, 'z) net_lib_scheme \<Rightarrow> (nat \<Rightarrow> u64) \<Rightarrow> ('st, 'w, 'm) frame \<Rightarrow> ('st, 'w, 'm) frame res" where
  "client_handshake_ack X clk f =
     bindR (on_con (c_push_state X (clk 0) Established) f) (\<lambda>f. Inr (count_c RecvSynAck2 f))"

text \<open>FIN from the client while the server is closing.\<close>

definition client_fin_passive ::
  "('cr, 'st, 'w, 'm, 'z) net_lib_scheme \<Rightarrow> (nat \<Rightarrow> u64) \<Rightarrow> tcp_hdr \<Rightarrow> tcp_state \<Rightarrow>
   ('st, 'w, 'm) frame \<Rightarrow> ('st, 'w, 'm) frame res" where
  "client_fin_passive X clk tcp old_s f =
     bindR (if ack_flag tcp \<and> ack_num tcp = seqn (f_con f)
            then let f = count_s SentAck4Fin (count_c RecvAck4Fin (count_s SentFinPssv (count_c RecvFinPssv f)))
                 in bindR (on_con (set_release_cause X PassiveClose) f) (\<lambda>f.
                    on_con (c_push_state X (clk 0) LastAck) f)
            else let f = count_s SentFin (count_c RecvFin f)
                 in bindR (on_con (set_release_cause X ActiveClose) f) (\<lambda>f.
                    bindR (on_con (c_push_state X (clk 0) Closing) f) (\<lambda>f.
                    if old_s = FinWait1 then on_con (s_push_state X (clk 1) Closing) f
                    else if old_s = FinWait2 then on_con (s_push_state X (clk 1) Closed) f
                    else Inr f)))
       (\<lambda>f. Inr (f\<lparr>f_group := 1\<rparr>))"

text \<open>FIN from the client before the server connection exists: the proxy answers with a FIN-ACK itself.\<close>

definition client_fin_unbound ::
  "('cr, 'st, 'w, 'm, 'z) net_lib_scheme \<Rightarrow> (nat \<Rightarrow> u64) \<Rightarrow> ('st, 'w, 'm) frame \<Rightarrow> ('st, 'w, 'm) frame res" where
  "client_fin_unbound X clk f =
     (let p = make_reply_packet X 1 (f_pdu f);
          p = p\<lparr>tcp_h := (tcp_h p)\<lparr>ack_flag := True\<rparr>\<rparr>;
          c = (f_con f)\<lparr>c_seqn := c_seqn (f_con f) + 1\<rparr>;
          p = p\<lparr>tcp_h := (tcp_h p)\<lparr>seq_num := c_seqn c\<rparr>\<rparr>;
          p = prepare_checksum_and_ttl X p
      in bindR (on_con (s_push_state X (clk 1) LastAck) (f\<lparr>f_pdu := p, f_con := c\<rparr>)) (\<lambda>f.
         bindR (on_con (s_set_release_cause X PassiveClose) f) (\<lambda>f.
         let f = count_c SentAck4Fin (count_c SentFinPssv f)
         in Inr (f\<lparr>f_con := (f_con f)\<lparr>seqn := c_seqn (f_con f) + 1\<rparr>\<rparr>))))"

text \<open>FIN from the client as the first one to close.\<close>

definition client_fin_active ::
  "('cr, 'st, 'w, 'm, 'z) net_lib_scheme \<Rightarrow> (nat \<Rightarrow> u64) \<Rightarrow> tcp_state \<Rightarrow>
   ('st, 'w, 'm) frame \<Rightarrow> ('st, 'w, 'm) frame res" where
  "client_fin_active X clk old_s f =
     bindR (on_con (set_release_cause X ActiveClose) f) (\<lambda>f.
     let f = count_c RecvFin f in
     bindR (on_con (c_push_state X (clk 0) FinWait1) f) (\<lambda>f.
     bindR (if state_less X old_s Established then client_fin_unbound X clk f
            else Inr (count_s SentFin f)) (\<lambda>f.
     Inr (f\<lparr>f_group := 1\<rparr>))))"

definition client_fin ::
  "('cr, 'st, 'w, 'm, 'z) net_lib_scheme \<Rightarrow> (nat \<Rightarrow> u64) \<Rightarrow> tcp_hdr \<Rightarrow> tcp_state \<Rightarrow>
   ('st, 'w, 'm) frame \<Rightarrow> ('st, 'w, 'm) frame res" where
  "client_fin X clk tcp old_s f =
     (if state_ge X old_s FinWait1 then client_fin_passive X clk tcp old_s f
      else client_fin_active X clk old_s f)"

definition client_rst ::
  "('cr, 'st, 'w, 'm, 'z) net_lib_scheme \<Rightarrow> (nat \<Rightarrow> u64) \<Rightarrow> ('st, 'w, 'm) frame \<Rightarrow> ('st, 'w, 'm) frame res" where
  "client_rst X clk f =
     (let f = count_c RecvRst f in
      bindR (on_con (c_push_state X (clk 0) Closed) f) (\<lambda>f.
      bindR (on_con (set_release_cause X ActiveRst) f) (\<lambda>f.
      Inr (f\<lparr>f_release := Some (con_port (f_con f))\<rparr>))))"

text \<open>ACK from the client for the FIN of the server.\<close>

definition client_ack4fin ::
  "('cr, 'st, 'w, 'm, 'z) net_lib_scheme \<Rightarrow> (nat \<Rightarrow> u64) \<Rightarrow> tcp_state \<Rightarrow> tcp_state \<Rightarrow>
   ('st, 'w, 'm) frame \<Rightarrow> ('st, 'w, 'm) frame res" where
  "client_ack4fin X clk old_c old_s f =
     bindR (case old_s of
              FinWait1 \<Rightarrow> on_con (s_push_state X (clk 0) FinWait2) f
            | Closing \<Rightarrow> on_con (s_push_state X (clk 0) Closed) f
            | _ \<Rightarrow> Inr f) (\<lambda>f.
     bindR (case old_c of
              Established \<Rightarrow> on_con (c_push_state X (clk 1) CloseWait) f
            | FinWait1 \<Rightarrow> on_con (c_push_state X (clk 1) Closing) f
            | FinWait2 \<Rightarrow> on_con (c_push_state X (clk 1) Closed) f
            | _ \<Rightarrow> Inr f) (\<lambda>f.
     Inr (count_s SentAck4Fin (count_c RecvAck4Fin f))))"

text \<open>The final ACK of a close that the client began.\<close>

definition client_final_ack ::
  "('cr, 'st, 'w, 'm, 'z) net_lib_scheme \<Rightarrow> (nat \<Rightarrow> u64) \<Rightarrow> ('st, 'w, 'm) frame \<Rightarrow> ('st, 'w, 'm) frame res" where
  "client_final_ack X clk f =
     bindR (on_con (s_push_state X (clk 0) Closed) f) (\<lambda>f.
     bindR (on_con (c_push_state X (clk 1) Closed) f) (\<lambda>f.
     Inr (count_s SentAck4Fin (count_c RecvAck4Fin f))))"

text \<open>The first payload packet: bind the connection to a server and send it a SYN.\<close>

definition client_first_payload ::
  "('cr, 'st, 'w, 'm, 'z) net_lib_scheme \<Rightarrow> 'm pcfg \<Rightarrow> (nat \<Rightarrow> u64) \<Rightarrow>
   ('st, 'w, 'm) frame \<Rightarrow> ('st, 'w, 'm) frame res" where
  "client_first_payload X cfg clk f =
     (let (o', a) = get_pdu X (f_alloc f); f = f\<lparr>f_alloc := a\<rparr> in
      bindR (unwrapR o') (\<lambda>syn.
      bindR (select_server X (me cfg) (servers cfg) (f_select_server cfg) syn (f_pdu f) (f_con f)) (\<lambda>(p, c).
      bindR (on_con (s_init X) (f\<lparr>f_pdu := p, f_con := c\<rparr>)) (\<lambda>f.
      bindR (on_con (s_push_state X (clk 0) SynReceived) f) (\<lambda>f.
      Inr ((count_s SentSyn (count_c RecvPayload f))\<lparr>f_group := 1\<rparr>))))))"

definition client_unexpected :: "('st, 'w, 'm) frame \<Rightarrow> ('st, 'w, 'm) frame" where
  "client_unexpected f = (count_c Unexpected f)\<lparr>f_group := 2\<rparr>"

definition client_tcp ::
  "('cr, 'st, 'w, 'm, 'z) net_lib_scheme \<Rightarrow> 'm pcfg \<Rightarrow> (nat \<Rightarrow> u64) \<Rightarrow> tcp_hdr \<Rightarrow> tcp_state \<Rightarrow> tcp_state \<Rightarrow>
   ('st, 'w, 'm) frame \<Rightarrow> ('st, 'w, 'm) frame res" where
  "client_tcp X cfg clk tcp old_c old_s f =
     (if old_c \<noteq> Closed \<and> seq_num tcp < ackn_p2c (f_con f) then Inr f
      else if syn_flag tcp then client_syn X cfg clk old_c f
      else if ack_flag tcp \<and> old_c = SynSent then client_handshake_ack X clk f
      else if fin_flag tcp then client_fin X clk tcp old_s f
      else if rst_flag tcp then client_rst X clk f
      else if ack_flag tcp \<and> ack_num tcp = seqn (f_con f) \<and> state_ge X old_s FinWait1
           then client_ack4fin X clk old_c old_s f
      else if old_s = LastAck \<and> ack_flag tcp \<and> ack_num tcp = seqn (f_con f)
           then client_final_ack X clk f
      else if old_c = Established \<and> old_s = Listen then client_first_payload X cfg clk f
      else if state_less X old_s SynReceived \<or> state_less X old_c Established
           then Inr (client_unexpected f)
      else Inr f)"

definition release_if_closed ::
  "('cr, 'st, 'w, 'm, 'z) net_lib_scheme \<Rightarrow> ('st, 'w, 'm) frame \<Rightarrow> ('st, 'w, 'm) frame" where
  "release_if_closed X f =
     (if con_client_state X (f_con f) = Closed \<and> con_server_state X (f_con f) = Closed
      then f\<lparr>f_release := Some (con_port (f_con f))\<rparr> else f)"

definition client_step ::
  "('cr, 'st, 'w, 'm, 'z) net_lib_scheme \<Rightarrow> 'm pcfg \<Rightarrow> (nat \<Rightarrow> u64) \<Rightarrow> tcp_hdr \<Rightarrow>
   ('st, 'w, 'm) frame \<Rightarrow> ('st, 'w, 'm) frame res" where
  "client_step X cfg clk tcp f =
     (let old_s = con_server_state X (f_con f); old_c = con_client_state X (f_con f) in
      bindR (client_tcp X cfg clk tcp old_c old_s f) (\<lambda>f.
      let f = release_if_closed X f in
      if state_ge X old_s Established \<and> state_less X old_s Closed \<and> state_ge X old_c Established
      then bindR (client_to_server X (me cfg) (servers cfg) (f_process_payload_c_s cfg) (f_pdu f) (f_con f)) (\<lambda>(p, c).
           Inr (f\<lparr>f_pdu := p, f_con := c, f_group := 1\<rparr>))
      else Inr f))"

definition handle_client ::
  "('cr, 'st, 'w, 'm, 'z) net_lib_scheme \<Rightarrow> 'm pcfg \<Rightarrow> (nat \<Rightarrow> u64) \<Rightarrow> 'm pdu_scheme \<Rightarrow> ('st, 'w, 'm) pipe \<Rightarrow>
   (('st, 'w, 'm) pipe \<times> 'm pdu_scheme \<times> nat \<times> u16 option) res" where
  "handle_client X cfg clk p W =
     (let tcp = tcp_h p; src_sock = (ip_src (ip_h p), src_port tcp) in
      bindR (if syn_flag tcp then get_mut_or_insert X src_sock (p_cm W)
             else bindR (get_mut_by_sock X src_sock (p_cm W)) (\<lambda>r. Inr (r, p_cm W))) (\<lambda>(r, cm).
      case r of
        None \<Rightarrow> Inr (W\<lparr>p_cm := cm\<rparr>, p, 0, None)
      | Some i \<Rightarrow>
          bindR (client_step X cfg clk tcp (enter i cm p W)) (\<lambda>f.
          Inr (leave i cm W f, f_pdu f, f_group f, f_release f))))"

section \<open>Packets from the server\<close>

definition server_synack ::
  "('cr, 'st, 'w, 'm, 'z) net_lib_scheme \<Rightarrow> (nat \<Rightarrow> u64) \<Rightarrow> tcp_state \<Rightarrow>
   ('st, 'w, 'm) frame \<Rightarrow> ('st, 'w, 'm) frame res" where
  "server_synack X clk old_s f =
     (let f = count_s RecvSynAck f in
      if old_s = SynReceived
      then bindR (on_con (s_push_state X (clk 0) Established) f) (\<lambda>f.
           bindR (server_synack_received X (f_pdu f) (f_con f) (f_producer f)) (\<lambda>(p, c, q).
           Inr ((count_s SentPayload (count_s SentSynAck2 (f\<lparr>f_pdu := p, f_con := c, f_producer := q\<rparr>)))
                \<lparr>f_group := 0\<rparr>)))
      else Inr (f\<lparr>f_group := 0\<rparr>))"

definition server_fin ::
  "('cr, 'st, 'w, 'm, 'z) net_lib_scheme \<Rightarrow> (nat \<Rightarrow> u64) \<Rightarrow> tcp_hdr \<Rightarrow> tcp_state \<Rightarrow>
   ('st, 'w, 'm) frame \<Rightarrow> ('st, 'w, 'm) frame res" where
  "server_fin X clk tcp old_c f =
     (if state_ge X old_c FinWait1
      then if ack_flag tcp \<and> ack_num tcp = seqn_fin_p2s (f_con f) + 1
           then let f = count_c SentAck4Fin (count_s RecvAck4Fin (count_c SentFinPssv (count_s RecvFinPssv f)))
                in bindR (on_con (s_set_release_cause X PassiveClose) f) (\<lambda>f.
                   on_con (s_push_state X (clk 0) LastAck) f)
           else let f = count_c SentFin (count_s RecvFin f)
                in bindR (on_con (s_set_release_cause X ActiveClose) f) (\<lambda>f.
                   bindR (on_con (s_push_state X (clk 0) Closing) f) (\<lambda>f.
                   if old_c = FinWait1 then on_con (c_push_state X (clk 1) Closing) f
                   else if old_c = FinWait2 then on_con (c_push_state X (clk 1) Closed) f
                   else Inr f))
      else bindR (on_con (s_push_state X (clk 0) FinWait1) f) (\<lambda>f.
           bindR (on_con (s_set_release_cause X ActiveClose) f) (\<lambda>f.
           Inr (count_c SentFin (count_s RecvFin f)))))"

text \<open>ACK from the server while the client is closing.\<close>

definition server_ack4fin ::
  "('cr, 'st, 'w, 'm, 'z) net_lib_scheme \<Rightarrow> (nat \<Rightarrow> u64) \<Rightarrow> tcp_hdr \<Rightarrow> tcp_state \<Rightarrow>
   ('st, 'w, 'm) frame \<Rightarrow> ('st, 'w, 'm) frame res" where
  "server_ack4fin X clk tcp old_c f =
     (if ack_num tcp = seqn_fin_p2s (f_con f) + 1
      then bindR (case old_c of
                    LastAck \<Rightarrow> bindR (on_con (c_push_state X (clk 0) Closed) f) (\<lambda>f.
                               on_con (s_push_state X (clk 1) Closed) f)
                  | FinWait1 \<Rightarrow> on_con (c_push_state X (clk 0) FinWait2) f
                  | Closing \<Rightarrow> on_con (c_push_state X (clk 0) Closed) f
                  | _ \<Rightarrow> Inr f) (\<lambda>f.
           Inr (count_c SentAck4Fin (count_s RecvAck4Fin f)))
      else Inr f)"

definition server_tcp ::
  "('cr, 'st, 'w, 'm, 'z) net_lib_scheme \<Rightarrow> (nat \<Rightarrow> u64) \<Rightarrow> tcp_hdr \<Rightarrow> tcp_state \<Rightarrow> tcp_state \<Rightarrow>
   ('st, 'w, 'm) frame \<Rightarrow> ('st, 'w, 'm) frame res" where
  "server_tcp X clk tcp old_c old_s f =
     (if ack_flag tcp \<and> syn_flag tcp then server_synack X clk old_s f
      else if fin_flag tcp then server_fin X clk tcp old_c f
      else if state_ge X old_c LastAck \<and> ack_flag tcp then server_ack4fin X clk tcp old_c f
      else Inr (f\<lparr>f_unexpected := True\<rparr>))"

definition server_step ::
  "('cr, 'st, 'w, 'm, 'z) net_lib_scheme \<Rightarrow> 'm pcfg \<Rightarrow> (nat \<Rightarrow> u64) \<Rightarrow> tcp_hdr \<Rightarrow>
   ('st, 'w, 'm) frame \<Rightarrow> ('st, 'w, 'm) frame res" where
  "server_step X cfg clk tcp f =
     (let old_s = con_server_state X (f_con f); old_c = con_client_state X (f_con f) in
      bindR (server_tcp X clk tcp old_c old_s f) (\<lambda>f.
      let f = release_if_closed X f in
      bindR (if state_ge X old_s Established \<and> state_ge X old_c Established \<and> state_less X old_c Closed
             then bindR (server_to_client X (me cfg) (f_pdu f) (f_con f)) (\<lambda>(p, c).
                  Inr (f\<lparr>f_pdu := p, f_con := c, f_group := 1, f_unexpected := False\<rparr>))
             else Inr f) (\<lambda>f.
      Inr (if f_unexpected f then f\<lparr>f_group := 2\<rparr> else f))))"

definition handle_server ::
  "('cr, 'st, 'w, 'm, 'z) net_lib_scheme \<Rightarrow> 'm pcfg \<Rightarrow> (nat \<Rightarrow> u64) \<Rightarrow> 'm pdu_scheme \<Rightarrow> ('st, 'w, 'm) pipe \<Rightarrow>
   (('st, 'w, 'm) pipe \<times> 'm pdu_scheme \<times> nat \<times> u16 option) res" where
  "handle_server X cfg clk p W =
     (let tcp = tcp_h p in
      bindR (get_mut_by_port X (dst_port tcp) (p_cm W)) (\<lambda>r.
      case r of
        None \<Rightarrow> Inr (W, p, 2, None)
      | Some i \<Rightarrow>
          bindR (server_step X cfg clk tcp (enter i (p_cm W) p W)) (\<lambda>f.
          Inr (leave i (p_cm W) W f, f_pdu f, f_group f, f_release f))))"

section \<open>Timer ticks\<close>

text \<open>Sending on the channel to the run-time; the \<open>unwrap\<close> fails once the receiver is gone.\<close>

definition send_reply :: "'st msg_from \<Rightarrow> ('st, 'w, 'm) pipe \<Rightarrow> ('st, 'w, 'm) pipe res" where
  "send_reply m W = (if p_tx_open W then Inr (W\<lparr>p_tx := p_tx W @ [m]\<rparr>) else Inl UnwrapNone)"

definition handle_message ::
  "('cr, 'st, 'w, 'm, 'z) net_lib_scheme \<Rightarrow> msg_to option \<Rightarrow> ('st, 'w, 'm) pipe \<Rightarrow> ('st, 'w, 'm) pipe res" where
  "handle_message X msg W =
     (case msg of
        Some FetchCounter \<Rightarrow> send_reply (Counter (p_counter_c W) (p_counter_s W)) W
      | Some FetchCRecords \<Rightarrow>
          (let (c_recs, cm) = fetch_c_records X (p_cm W) in send_reply (CRecords c_recs) (W\<lparr>p_cm := cm\<rparr>))
      | _ \<Rightarrow> Inr W)"

definition handle_timer ::
  "('cr, 'st, 'w, 'm, 'z) net_lib_scheme \<Rightarrow> 'm pcfg \<Rightarrow> (nat \<Rightarrow> u64) \<Rightarrow> msg_to option \<Rightarrow> ('st, 'w, 'm) pipe \<Rightarrow>
   ('st, 'w, 'm) pipe res option" where
  "handle_timer X cfg clk msg W =
     (case bindR (add_w (overflow_checks X) (p_ticks W) 1) (\<lambda>ticks. handle_message X msg (W\<lparr>p_ticks := ticks\<rparr>)) of
        Inl e \<Rightarrow> Some (Inl e)
      | Inr W \<Rightarrow>
          if wheel_tick_reduction_factor cfg = 0 then Some (Inl DivByZero)
          else if p_ticks W mod wheel_tick_reduction_factor cfg = 0
          then map_option (\<lambda>r. bindR r (\<lambda>(cm, w). Inr (W\<lparr>p_cm := cm, p_wheel := w\<rparr>)))
                 (release_timeouts X (clk 0) (\<lambda>n. clk (Suc n)) (p_cm W) (p_wheel W))
          else Some (Inr W))"

section \<open>The closure\<close>

text \<open>What is not TCP for this pipeline, by the headers alone: \<open>Some g\<close> if the packet goes to group \<open>g\<close> at once.\<close>

definition l2_l3_filter ::
  "('cr, 'st, 'w, 'm, 'z) net_lib_scheme \<Rightarrow> 'm pcfg \<Rightarrow> 'm pdu_scheme \<Rightarrow> nat option" where
  "l2_l3_filter X cfg p =
     (let l234 = me_l234 (me cfg) in
      if private_etype X (etype (mac_h p)) then None
      else if mac_dst (mac_h p) \<noteq> l_mac l234 \<and> \<not> is_multicast X (mac_dst (mac_h p))
              \<and> \<not> is_broadcast X (mac_dst (mac_h p)) then Some 0
      else if etype (mac_h p) \<noteq> 0x0800 then Some 2
      else if protocol (ip_h p) \<noteq> 6 \<or> ip_dst (ip_h p) \<noteq> pipeline_ip cfg \<and> ip_dst (ip_h p) \<noteq> l_ip l234 then Some 2
      else None)"

definition release_connection ::
  "('cr, 'st, 'w, 'm, 'z) net_lib_scheme \<Rightarrow> u16 option \<Rightarrow> ('st, 'w, 'm) pipe \<Rightarrow> ('st, 'w, 'm) pipe res" where
  "release_connection X rel W =
     (case rel of
        None \<Rightarrow> Inr W
      | Some sport \<Rightarrow>
          bindR (release_port X sport (p_cm W, p_wheel W)) (\<lambda>(cm, w).
          Inr (W\<lparr>p_cm := cm, p_wheel := w\<rparr>)))"

definition delayed_binding_closure ::
  "('cr, 'st, 'w, 'm, 'z) net_lib_scheme \<Rightarrow> 'm pcfg \<Rightarrow> (nat \<Rightarrow> u64) \<Rightarrow> msg_to option \<Rightarrow>
   'm pdu_scheme \<Rightarrow> ('st, 'w, 'm) pipe \<Rightarrow> (('st, 'w, 'm) pipe \<times> 'm pdu_scheme \<times> nat) res option" where
  "delayed_binding_closure X cfg clk msg p W =
     (let b_private_etype = private_etype X (etype (mac_h p)) in
      case l2_l3_filter X cfg p of
        Some g \<Rightarrow> Some (Inr (W, p, g))
      | None \<Rightarrow>
          (let p = (if csum_offload cfg then set_tcp_ipv4_checksum_tx_offload X p else p) in
           if \<not> b_private_etype \<and> dst_port (tcp_h p) \<noteq> l_port (me_l234 (me cfg))
              \<and> dst_port (tcp_h p) < tcp_min_port cfg
           then Some (Inr (W, p, 2))
           else if etype (mac_h p) = PRIVATE_ETYPE_PACKET X then Some (Inr (W, p, 0))
           else if etype (mac_h p) = PRIVATE_ETYPE_TIMER X
           then map_option (\<lambda>r. bindR r (\<lambda>W. Inr (W, p, 0))) (handle_timer X cfg clk msg W)
           else Some (bindR (if dst_port (tcp_h p) = l_port (me_l234 (me cfg))
                             then handle_client X cfg clk p W else handle_server X cfg clk p W)
                       (\<lambda>(W, p, g, rel).
                      bindR (release_connection X rel W) (\<lambda>W. Inr (W, p, g))))))"

end
