(* ===== verification/Forward_Lemmas.thy ===== *)
theory Forward_Lemmas
  imports Forward
begin

text \<open>
  The documented behaviour of the packet library that the proxy relies on (\<open>net_ok\<close>), and what the
  packet functions do with a packet and its connection under it. Sequence numbers are 32-bit words:
  all translations are modulo \<open>2 ^ 32\<close>.
\<close>

section \<open>The packet library\<close>

definition set_header_ok :: "('cr, 'st, 'w, 'm, 'z) net_lib_scheme \<Rightarrow> bool" where
  "set_header_ok X \<longleftrightarrow> (\<forall>srv port smac sip p.
     mac_h (set_header X srv port smac sip p) = (mac_h p)\<lparr>mac_dst := l_mac srv, mac_src := smac\<rparr> \<and>
     ip_h (set_header X srv port smac sip p) = (ip_h p)\<lparr>ip_dst := l_ip srv, ip_src := sip\<rparr> \<and>
     tcp_h (set_header X srv port smac sip p) = (tcp_h p)\<lparr>src_port := port, dst_port := l_port srv\<rparr> \<and>
     payload (set_header X srv port smac sip p) = payload p \<and>
     refcnt (set_header X srv port smac sip p) = refcnt p)"

text \<open>A reply swaps sender and receiver and acknowledges the packet; its sequence number is left to the caller.\<close>

definition make_reply_ok :: "('cr, 'st, 'w, 'm, 'z) net_lib_scheme \<Rightarrow> bool" where
  "make_reply_ok X \<longleftrightarrow> (\<forall>inc p.
     mac_src (mac_h (make_reply_packet X inc p)) = mac_dst (mac_h p) \<and>
     mac_dst (mac_h (make_reply_packet X inc p)) = mac_src (mac_h p) \<and>
     ip_src (ip_h (make_reply_packet X inc p)) = ip_dst (ip_h p) \<and>
     ip_dst (ip_h (make_reply_packet X inc p)) = ip_src (ip_h p) \<and>
     src_port (tcp_h (make_reply_packet X inc p)) = dst_port (tcp_h p) \<and>
     dst_port (tcp_h (make_reply_packet X inc p)) = src_port (tcp_h p) \<and>
     ack_num (tcp_h (make_reply_packet X inc p)) = seq_num (tcp_h p) + inc \<and>
     ack_flag (tcp_h (make_reply_packet X inc p)) \<and>
     syn_flag (tcp_h (make_reply_packet X inc p)) = syn_flag (tcp_h p) \<and>
     fin_flag (tcp_h (make_reply_packet X inc p)) = fin_flag (tcp_h p) \<and>
     rst_flag (tcp_h (make_reply_packet X inc p)) = rst_flag (tcp_h p) \<and>
     payload (make_reply_packet X inc p) = payload p \<and>
     refcnt (make_reply_packet X inc p) = refcnt p)"

text \<open>Functions that touch only what the proxy does not read: checksums, options, padding.\<close>

definition keeps_headers :: "('m pdu_scheme \<Rightarrow> 'm pdu_scheme) \<Rightarrow> bool" where
  "keeps_headers g \<longleftrightarrow> (\<forall>p. mac_h (g p) = mac_h p \<and> ip_h (g p) = ip_h p \<and> tcp_h (g p) = tcp_h p \<and>
     payload (g p) = payload p \<and> refcnt (g p) = refcnt p)"

definition remove_options_ok :: "('cr, 'st, 'w, 'm, 'z) net_lib_scheme \<Rightarrow> bool" where
  "remove_options_ok X \<longleftrightarrow> (\<forall>p. mac_h (remove_tcp_options X p) = mac_h p \<and>
     (\<exists>n. ip_h (remove_tcp_options X p) = (ip_h p)\<lparr>ip_length := n\<rparr>) \<and>
     tcp_h (remove_tcp_options X p) = tcp_h p \<and> payload (remove_tcp_options X p) = payload p \<and>
     refcnt (remove_tcp_options X p) = refcnt p)"

text \<open>Headers are pushed one after the other on a new buffer, which has room for them.\<close>

definition push_header_ok :: "('cr, 'st, 'w, 'm, 'z) net_lib_scheme \<Rightarrow> bool" where
  "push_header_ok X \<longleftrightarrow> (\<forall>h p. fst (push_header X h p) \<and>
     mac_h (snd (push_header X h p)) = (case h of MacH m \<Rightarrow> m | _ \<Rightarrow> mac_h p) \<and>
     ip_h (snd (push_header X h p)) = (case h of IpH i \<Rightarrow> i | _ \<Rightarrow> ip_h p) \<and>
     tcp_h (snd (push_header X h p)) = (case h of TcpH t \<Rightarrow> t | _ \<Rightarrow> tcp_h p) \<and>
     refcnt (snd (push_header X h p)) = refcnt p)"

definition net_ok :: "('cr, 'st, 'w, 'm, 'z) net_lib_scheme \<Rightarrow> bool" where
  "net_ok X \<longleftrightarrow> set_header_ok X \<and> make_reply_ok X \<and> remove_options_ok X \<and> push_header_ok X \<and>
     keeps_headers (prepare_checksum_and_ttl X) \<and> keeps_headers (set_tcp_ipv4_checksum_tx_offload X) \<and>
     (\<forall>n. keeps_headers (add_padding X n)) \<and>
     (\<forall>n i. \<exists>m. trim_length_by X n i = i\<lparr>ip_length := m\<rparr>) \<and>
     (\<forall>p. tcp_payload_size X p < 2 ^ 16)"

text \<open>
  The size of the payload follows from the lengths in the headers: rewriting addresses, ports,
  numbers or flags does not change it.
\<close>

definition payload_size_ok :: "('cr, 'st, 'w, 'm, 'z) net_lib_scheme \<Rightarrow> bool" where
  "payload_size_ok X \<longleftrightarrow> (\<forall>p m i t. ip_length i = ip_length (ip_h p) \<longrightarrow>
     tcp_payload_size X (p\<lparr>mac_h := m, ip_h := i, tcp_h := t\<rparr>) = tcp_payload_size X p)"

lemma keeps_headers_simps:
  "keeps_headers g \<Longrightarrow> mac_h (g p) = mac_h p"
  "keeps_headers g \<Longrightarrow> ip_h (g p) = ip_h p"
  "keeps_headers g \<Longrightarrow> tcp_h (g p) = tcp_h p"
  "keeps_headers g \<Longrightarrow> payload (g p) = payload p"
  "keeps_headers g \<Longrightarrow> refcnt (g p) = refcnt p"
  by (simp_all add: keeps_headers_def)

lemma net_prepare [simp]:
  assumes "net_ok X"
  shows "mac_h (prepare_checksum_and_ttl X p) = mac_h p" "ip_h (prepare_checksum_and_ttl X p) = ip_h p"
    "tcp_h (prepare_checksum_and_ttl X p) = tcp_h p" "payload (prepare_checksum_and_ttl X p) = payload p"
    "refcnt (prepare_checksum_and_ttl X p) = refcnt p"
  using assms by (simp_all add: net_ok_def keeps_headers_simps)

lemma net_offload [simp]:
  assumes "net_ok X"
  shows "mac_h (set_tcp_ipv4_checksum_tx_offload X p) = mac_h p"
    "ip_h (set_tcp_ipv4_checksum_tx_offload X p) = ip_h p"
    "tcp_h (set_tcp_ipv4_checksum_tx_offload X p) = tcp_h p"
    "payload (set_tcp_ipv4_checksum_tx_offload X p) = payload p"
    "refcnt (set_tcp_ipv4_checksum_tx_offload X p) = refcnt p"
  using assms by (simp_all add: net_ok_def keeps_headers_simps)

lemma net_padding [simp]:
  assumes "net_ok X"
  shows "mac_h (add_padding X n p) = mac_h p" "ip_h (add_padding X n p) = ip_h p"
    "tcp_h (add_padding X n p) = tcp_h p" "payload (add_padding X n p) = payload p"
    "refcnt (add_padding X n p) = refcnt p"
  using assms by (simp_all add: net_ok_def keeps_headers_simps)

lemma net_set_header [simp]:
  assumes "net_ok X"
  shows "mac_h (set_header X srv port smac sip p) = (mac_h p)\<lparr>mac_dst := l_mac srv, mac_src := smac\<rparr>"
    "ip_h (set_header X srv port smac sip p) = (ip_h p)\<lparr>ip_dst := l_ip srv, ip_src := sip\<rparr>"
    "tcp_h (set_header X srv port smac sip p) = (tcp_h p)\<lparr>src_port := port, dst_port := l_port srv\<rparr>"
    "payload (set_header X srv port smac sip p) = payload p"
    "refcnt (set_header X srv port smac sip p) = refcnt p"
  using assms unfolding net_ok_def set_header_ok_def by blast+

lemma net_make_reply [simp]:
  assumes "net_ok X"
  shows "mac_src (mac_h (make_reply_packet X inc p)) = mac_dst (mac_h p)"
    "mac_dst (mac_h (make_reply_packet X inc p)) = mac_src (mac_h p)"
    "ip_src (ip_h (make_reply_packet X inc p)) = ip_dst (ip_h p)"
    "ip_dst (ip_h (make_reply_packet X inc p)) = ip_src (ip_h p)"
    "src_port (tcp_h (make_reply_packet X inc p)) = dst_port (tcp_h p)"
    "dst_port (tcp_h (make_reply_packet X inc p)) = src_port (tcp_h p)"
    "ack_num (tcp_h (make_reply_packet X inc p)) = seq_num (tcp_h p) + inc"
    "ack_flag (tcp_h (make_reply_packet X inc p))"
    "syn_flag (tcp_h (make_reply_packet X inc p)) = syn_flag (tcp_h p)"
    "fin_flag (tcp_h (make_reply_packet X inc p)) = fin_flag (tcp_h p)"
    "rst_flag (tcp_h (make_reply_packet X inc p)) = rst_flag (tcp_h p)"
    "payload (make_reply_packet X inc p) = payload p"
    "refcnt (make_reply_packet X inc p) = refcnt p"
  using assms unfolding net_ok_def make_reply_ok_def by blast+

lemma net_remove_options [simp]:
  assumes "net_ok X"
  shows "mac_h (remove_tcp_options X p) = mac_h p"
    "ip_src (ip_h (remove_tcp_options X p)) = ip_src (ip_h p)"
    "ip_dst (ip_h (remove_tcp_options X p)) = ip_dst (ip_h p)"
    "tcp_h (remove_tcp_options X p) = tcp_h p"
    "refcnt (remove_tcp_options X p) = refcnt p"
proof -
  obtain n where n: "ip_h (remove_tcp_options X p) = (ip_h p)\<lparr>ip_length := n\<rparr>"
    using assms unfolding net_ok_def remove_options_ok_def by blast
  show "ip_src (ip_h (remove_tcp_options X p)) = ip_src (ip_h p)"
    "ip_dst (ip_h (remove_tcp_options X p)) = ip_dst (ip_h p)" by (simp_all add: n)
  show "mac_h (remove_tcp_options X p) = mac_h p" "tcp_h (remove_tcp_options X p) = tcp_h p"
    "refcnt (remove_tcp_options X p) = refcnt p"
    using assms by (simp_all add: net_ok_def remove_options_ok_def)
qed

lemma net_trim [simp]:
  assumes "net_ok X"
  shows "ip_src (trim_length_by X n i) = ip_src i" "ip_dst (trim_length_by X n i) = ip_dst i"
    "protocol (trim_length_by X n i) = protocol i"
proof -
  obtain m where "trim_length_by X n i = i\<lparr>ip_length := m\<rparr>" using assms unfolding net_ok_def by blast
  then show "ip_src (trim_length_by X n i) = ip_src i" "ip_dst (trim_length_by X n i) = ip_dst i"
    "protocol (trim_length_by X n i) = protocol i" by simp_all
qed

lemma net_push:
  assumes "net_ok X"
  obtains p' where "push_header X h p = (True, p')"
    and "mac_h p' = (case h of MacH m \<Rightarrow> m | _ \<Rightarrow> mac_h p)"
    and "ip_h p' = (case h of IpH i \<Rightarrow> i | _ \<Rightarrow> ip_h p)"
    and "tcp_h p' = (case h of TcpH t \<Rightarrow> t | _ \<Rightarrow> tcp_h p)" and "refcnt p' = refcnt p"
proof -
  have "fst (push_header X h p)" "mac_h (snd (push_header X h p)) = (case h of MacH m \<Rightarrow> m | _ \<Rightarrow> mac_h p)"
    "ip_h (snd (push_header X h p)) = (case h of IpH i \<Rightarrow> i | _ \<Rightarrow> ip_h p)"
    "tcp_h (snd (push_header X h p)) = (case h of TcpH t \<Rightarrow> t | _ \<Rightarrow> tcp_h p)"
    "refcnt (snd (push_header X h p)) = refcnt p"
    using assms unfolding net_ok_def push_header_ok_def by blast+
  then show ?thesis using that [of "snd (push_header X h p)"] by (metis prod.collapse)
qed

lemma net_size: "net_ok X \<Longrightarrow> tcp_payload_size X p < 2 ^ 16"
  by (simp add: net_ok_def)

section \<open>Signed shifts of sequence numbers\<close>

text \<open>
  Both branches of the sign test come down to one addition modulo \<open>2 ^ 32\<close>. The least 32-bit integer
  is the only count whose negation overflows, and then only in a build with overflow checks.
\<close>

lemma seq_forward_eq:
  assumes "checks \<longrightarrow> sint d \<noteq> - (2 ^ 31)"
  shows "seq_forward checks x d = Inr (x + d)"
  using assms by (auto simp: seq_forward_def neg_w_def)

lemma ack_backward_eq:
  assumes "checks \<longrightarrow> sint d \<noteq> - (2 ^ 31)"
  shows "ack_backward checks x d = Inr (x - d)"
  using assms by (auto simp: ack_backward_def neg_w_def)

lemma seq_forward_result: "seq_forward checks x d = Inr y \<Longrightarrow> y = x + d"
  by (auto simp: seq_forward_def neg_w_def split: if_splits)

lemma ack_backward_result: "ack_backward checks x d = Inr y \<Longrightarrow> y = x - d"
  by (auto simp: ack_backward_def neg_w_def split: if_splits)

section \<open>The two directions\<close>

text \<open>A packet from the client, as the server sees it.\<close>

lemma client_to_server_packet:
  assumes net: "net_ok X" and run: "client_to_server X m srvs f p c = Inr (p', c')"
    and f: "tcp_payload_size X p = 0 \<or>
      (let d = fst (f c (payload p) (get_tailroom X p)) in
       c_seqn d = c_seqn c \<and> c2s_inserted_bytes d = c2s_inserted_bytes c \<and> server_index d = server_index c \<and>
       proxy_port d = proxy_port c)"
  shows "con_server_index c < length srvs"
    and "ip_dst (ip_h p') = l_ip (srvs ! con_server_index c)"
    and "ip_src (ip_h p') = me_ip_s m"
    and "tcp_h p' = (tcp_h p)\<lparr>src_port := proxy_port c, dst_port := l_port (srvs ! con_server_index c),
           seq_num := seq_num (tcp_h p) + c2s_inserted_bytes c, ack_num := ack_num (tcp_h p) - c_seqn c\<rparr>"
    and "mac_dst (mac_h p') = l_mac (srvs ! con_server_index c)"
    and "ackn_p2s c' = ack_num (tcp_h p) - c_seqn c"
    and "fin_flag (tcp_h p) \<Longrightarrow> seqn_fin_p2s c' = seq_num (tcp_h p) + c2s_inserted_bytes c"
  using run f net
  by (auto simp: client_to_server_def Let_def bindR_eq_Inr indexR_eq_Inr con_server_index_def con_port_def
      split: prod.splits if_splits dest!: seq_forward_result)

text \<open>A packet from the server, as the client sees it.\<close>

lemma server_to_client_packet:
  assumes net: "net_ok X" and run: "server_to_client X m p c = Inr (p', c')"
  shows "con_sock c = Some (ip_dst (ip_h p'), dst_port (tcp_h p'))"
    and "ip_src (ip_h p') = l_ip (me_l234 m)" and "src_port (tcp_h p') = l_port (me_l234 m)"
    and "mac_dst (mac_h p') = client_mac c"
    and "tcp_h p' = (tcp_h p)\<lparr>src_port := l_port (me_l234 m), dst_port := dst_port (tcp_h p'),
           seq_num := seq_num (tcp_h p) + c_seqn c, ack_num := ack_num (tcp_h p) - c2s_inserted_bytes c\<rparr>"
    and "payload p' = payload p"
    and "ackn_p2c c' = ack_num (tcp_h p) - c2s_inserted_bytes c"
    and "c_seqn c' = c_seqn c" and "c2s_inserted_bytes c' = c2s_inserted_bytes c"
  using run net
  by (auto simp: server_to_client_def Let_def bindR_eq_Inr split: if_splits dest!: ack_backward_result)

text \<open>Both directions, run: a packet without payload does not reach the payload callback.\<close>

lemma client_to_server_no_payload:
  assumes "net_ok X" and "tcp_payload_size X p = 0" and "con_server_index c < length srvs"
    and "overflow_checks X \<longrightarrow> sint (c2s_inserted_bytes c) \<noteq> - (2 ^ 31)"
  shows "\<exists>p'. client_to_server X m srvs f p c = Inr (p', c\<lparr>ackn_p2s := ack_num (tcp_h p) - c_seqn c,
      seqn_fin_p2s := if fin_flag (tcp_h p) then seq_num (tcp_h p) + c2s_inserted_bytes c else seqn_fin_p2s c\<rparr>) \<and>
    tcp_h p' = (tcp_h p)\<lparr>src_port := proxy_port c, dst_port := l_port (srvs ! con_server_index c),
      seq_num := seq_num (tcp_h p) + c2s_inserted_bytes c, ack_num := ack_num (tcp_h p) - c_seqn c\<rparr>"
  using assms by (auto simp: client_to_server_def Let_def seq_forward_eq con_port_def)

lemma server_to_client_run:
  assumes net: "net_ok X" and size: "payload_size_ok X" and sock: "con_sock c = Some s"
    and neg: "overflow_checks X \<longrightarrow> sint (c2s_inserted_bytes c) \<noteq> - (2 ^ 31)"
  shows "\<exists>p'. server_to_client X m p c = Inr (p', c\<lparr>ackn_p2c := ack_num (tcp_h p) - c2s_inserted_bytes c,
      seqn := if fin_flag (tcp_h p) then seq_num (tcp_h p) + c_seqn c + of_nat (tcp_payload_size X p) + 1 else seqn c\<rparr>) \<and>
    mac_dst (mac_h p') = client_mac c \<and> ip_dst (ip_h p') = fst s \<and> ip_src (ip_h p') = l_ip (me_l234 m) \<and>
    tcp_h p' = (tcp_h p)\<lparr>src_port := l_port (me_l234 m), dst_port := snd s,
      seq_num := seq_num (tcp_h p) + c_seqn c, ack_num := ack_num (tcp_h p) - c2s_inserted_bytes c\<rparr> \<and>
    payload p' = payload p"
proof -
  have ack: "ack_backward (overflow_checks X) x (c2s_inserted_bytes c) = Inr (x - c2s_inserted_bytes c)" for x
    by (rule ack_backward_eq [OF neg])
  have add: "add_w ov (of_nat (tcp_payload_size X q)) (1 :: u32) = Inr (of_nat (tcp_payload_size X q) + 1)" for ov q
    using net_size [OF net, of q] by (intro add_w_ok) (simp add: unat_of_nat)
  have sz: "tcp_payload_size X (p\<lparr>mac_h := a, ip_h := (ip_h p)\<lparr>ip_dst := y, ip_src := x\<rparr>, tcp_h := d\<rparr>) = tcp_payload_size X p"
    for a x y d using size by (simp add: payload_size_ok_def)
  show ?thesis
    using net sock by (auto simp: server_to_client_def Let_def ack add sz add.assoc)
qed

section \<open>Delayed binding\<close>

lemma sub_i32_small: "a < 2 ^ 16 \<Longrightarrow> b < 2 ^ 16 \<Longrightarrow> sub_i32 ov (of_nat a) (of_nat b) = Inr (of_nat a - of_nat b)"
proof -
  assume ab: "a < 2 ^ 16" "b < 2 ^ 16"
  have "sint (of_nat n :: i32) = int n" if "n < 2 ^ 16" for n
    using that by (simp add: signed_of_nat signed_take_bit_int_eq_self)
  then show ?thesis using ab by (simp add: sub_i32_def)
qed

text \<open>
  \<open>select_server\<close> runs through when the closure leaves a payload packet and a valid server index. The
  packet that leaves is a SYN to the selected server, one sequence number before the payload; the
  saved payload packet, which shared its buffer with the incoming packet, is addressed to the same
  server and has one reference left.
\<close>

lemma select_server_ok:
  assumes net: "net_ok X" and sel: "f (c\<lparr>payload_packet := Some (p\<lparr>refcnt := refcnt p + 1\<rparr>)\<rparr>) = Inr c1"
    and buf: "payload_packet c1 = Some b" and idx: "con_server_index c1 < length srvs"
  defines "srv \<equiv> srvs ! con_server_index c1"
  shows "\<exists>p' c' b'. select_server X m srvs f syn p c = Inr (p', c') \<and>
    mac_dst (mac_h p') = l_mac srv \<and> ip_dst (ip_h p') = l_ip srv \<and> ip_src (ip_h p') = me_ip_s m \<and>
    tcp_h p' = (tcp_h b)\<lparr>src_port := proxy_port c1, dst_port := l_port srv, seq_num := seq_num (tcp_h b) - 1,
      syn_flag := True, ack_num := 0, ack_flag := False, psh_flag := False\<rparr> \<and>
    c' = c1\<lparr>payload_packet := Some b', seqn := seq_num (tcp_h b) - 1,
      c2s_inserted_bytes := of_nat (tcp_payload_size X b) - of_nat (tcp_payload_size X (p\<lparr>refcnt := refcnt p + 1\<rparr>))\<rparr> \<and>
    mac_h b' = (mac_h b)\<lparr>mac_dst := l_mac srv, mac_src := l_mac (me_l234 m)\<rparr> \<and>
    ip_h b' = (ip_h b)\<lparr>ip_dst := l_ip srv, ip_src := me_ip_s m\<rparr> \<and>
    tcp_h b' = (tcp_h b)\<lparr>src_port := proxy_port c1, dst_port := l_port srv\<rparr> \<and>
    payload b' = payload b \<and> refcnt b' = refcnt b - 1"
proof -
  let ?b = "set_header X srv (proxy_port c1) (l_mac (me_l234 m)) (me_ip_s m) b"
  obtain s1 where s1: "push_header X (MacH (mac_h ?b)) syn = (True, s1)" "mac_h s1 = mac_h ?b"
    by (rule net_push [OF net, of "MacH (mac_h ?b)" syn]) simp
  obtain s2 where s2: "push_header X (IpH (ip_h ?b)) s1 = (True, s2)" "mac_h s2 = mac_h ?b" "ip_h s2 = ip_h ?b"
    by (rule net_push [OF net, of "IpH (ip_h ?b)" s1]) (simp add: s1)
  obtain s3 where s3: "push_header X (TcpH (tcp_h ?b)) s2 = (True, s3)" "mac_h s3 = mac_h ?b"
    "ip_h s3 = ip_h ?b" "tcp_h s3 = tcp_h ?b"
    by (rule net_push [OF net, of "TcpH (tcp_h ?b)" s2]) (simp add: s2)
  have size: "sub_i32 (overflow_checks X) (of_nat (tcp_payload_size X b))
      (of_nat (tcp_payload_size X (p\<lparr>refcnt := refcnt p + 1\<rparr>)))
    = Inr (of_nat (tcp_payload_size X b) - of_nat (tcp_payload_size X (p\<lparr>refcnt := refcnt p + 1\<rparr>)))"
    by (rule sub_i32_small [OF net_size [OF net] net_size [OF net]])
  have idx': "unat (server_index c1) < length srvs" using idx by (simp add: con_server_index_def)
  have srv: "srvs ! unat (server_index c1) = srv" by (simp add: srv_def con_server_index_def)
  have run: "select_server X m srvs f syn p c = Inr (
     prepare_checksum_and_ttl X (s3\<lparr>ip_h := trim_length_by X (of_nat (tcp_payload_size X (p\<lparr>refcnt := refcnt p + 1\<rparr>))) (ip_h s3),
       tcp_h := (tcp_h s3)\<lparr>seq_num := seq_num (tcp_h s3) - 1, syn_flag := True, ack_num := 0, ack_flag := False,
         psh_flag := False\<rparr>\<rparr>),
     c1\<lparr>c2s_inserted_bytes := of_nat (tcp_payload_size X b) - of_nat (tcp_payload_size X (p\<lparr>refcnt := refcnt p + 1\<rparr>)),
       payload_packet := Some (?b\<lparr>refcnt := refcnt ?b - 1\<rparr>), seqn := seq_num (tcp_h s3) - 1\<rparr>)"
    using idx' s1(1) s2(1) s3(1) sel buf
    by (simp add: select_server_def Let_def size [simplified] con_server_index_def con_port_def srv net)
  show ?thesis
    unfolding run using net s3
    by (intro exI [of _ "?b\<lparr>refcnt := refcnt ?b - 1\<rparr>"] exI conjI) (rule refl, simp_all add: net)
qed

text \<open>
  The SYN-ACK of the server: the connection's sequence number becomes the difference between the two
  servers' sides, the ACK of the handshake is queued, and after it the saved payload packet, with the
  same TCP header as the ACK and the push flag.
\<close>

lemma synack_plain:
  assumes net: "net_ok X" and "payload_packet c = None"
  shows "\<exists>p'. server_synack_received X p c q =
      Inr (p', c\<lparr>c_seqn := c_seqn c - seq_num (tcp_h p), seqn := seqn c + 1\<rparr>, q @ [p']) \<and>
    seq_num (tcp_h p') = seqn c + 1 \<and> ack_num (tcp_h p') = seq_num (tcp_h p) + 1 \<and>
    ack_flag (tcp_h p') \<and> \<not> syn_flag (tcp_h p') \<and> ip_dst (ip_h p') = ip_src (ip_h p)"
  using assms by (simp add: server_synack_received_def Let_def)

lemma synack_payload:
  assumes net: "net_ok X" and pp: "payload_packet c = Some b" and ref: "refcnt b = 1"
  shows "\<exists>p' b'. server_synack_received X p c q =
      Inr (p', c\<lparr>c_seqn := c_seqn c - seq_num (tcp_h p), seqn := seqn c + 1, payload_packet := None,
        ackn_p2s := seq_num (tcp_h p) + 1\<rparr>, q @ [p', b']) \<and>
    seq_num (tcp_h p') = seqn c + 1 \<and> ack_num (tcp_h p') = seq_num (tcp_h p) + 1 \<and>
    src_port (tcp_h p') = dst_port (tcp_h p) \<and> dst_port (tcp_h p') = src_port (tcp_h p) \<and>
    ack_flag (tcp_h p') \<and> \<not> syn_flag (tcp_h p') \<and>
    tcp_h b' = (tcp_h p')\<lparr>psh_flag := True\<rparr> \<and> payload b' = payload b \<and> ip_h b' = ip_h b \<and>
    mac_h b' = mac_h b \<and> ip_dst (ip_h p') = ip_src (ip_h p)"
  using assms by (simp add: server_synack_received_def Let_def)

end
