(* ===== verification/Manager_Inv.thy ===== *)
theory Manager_Inv
  imports Manager
begin

text \<open>
  The invariant of the connection table and that every operation keeps it: each port of the range
  is either free or in use, the free queue holds every free port once, and client sockets and
  proxy ports in use are in one-to-one correspondence through \<open>sock2port\<close>.
\<close>

section \<open>Definitions\<close>

definition pidx :: "('st, 'm) cmanager \<Rightarrow> u16 \<Rightarrow> nat" where
  "pidx cm p = unat (p - tcp_port_base cm)"

definition con_at :: "('st, 'm) cmanager \<Rightarrow> u16 \<Rightarrow> 'm conn" where
  "con_at cm p = port2con cm ! pidx cm p"

text \<open>The mask of the network interface leaves the low bits open, and the base port has none of them.\<close>

definition mask_conf :: "u16 \<Rightarrow> u16 \<Rightarrow> bool" where
  "mask_conf pmask base \<longleftrightarrow> base AND pmask = base \<and> (\<exists>k. NOT pmask = mask k)"

definition table_wf :: "('st, 'm) cmanager \<Rightarrow> bool" where
  "table_wf cm \<longleftrightarrow> length (port2con cm) = unat (NOT (port_mask cm)) + 1"

definition cm_inv :: "('st, 'm) cmanager \<Rightarrow> bool" where
  "cm_inv cm \<longleftrightarrow>
     mask_conf (port_mask cm) (tcp_port_base cm) \<and> table_wf cm \<and>
     distinct (free_ports cm) \<and>
     (\<forall>p. p \<in> set (free_ports cm) \<longleftrightarrow> owns_tcp_port cm p \<and> p \<noteq> 0 \<and> \<not> in_use (con_at cm p)) \<and>
     (\<forall>p. owns_tcp_port cm p \<longrightarrow> in_use (con_at cm p) \<longrightarrow> proxy_port (con_at cm p) = p) \<and>
     (\<forall>s p. sock2port cm s = Some p \<longleftrightarrow>
        owns_tcp_port cm p \<and> in_use (con_at cm p) \<and> con_sock (con_at cm p) = Some s) \<and>
     (\<forall>p. owns_tcp_port cm p \<longrightarrow> in_use (con_at cm p) \<longrightarrow> con_sock (con_at cm p) \<noteq> None)"

text \<open>
  How the connections use the record store: without detailed records no connection has a detailed
  part; with them the connections in use hold a slot of the current store and the others nothing.
\<close>

definition det_conn :: "bool \<Rightarrow> rc \<Rightarrow> 'm conn \<Rightarrow> bool" where
  "det_conn detailed r c \<longleftrightarrow>
     (case detailed_c c of
        None \<Rightarrow> \<not> (detailed \<and> in_use c)
      | Some d \<Rightarrow> detailed \<and> (if in_use c then con_rec d \<noteq> None \<and> d_store d = Some r else d_store d = None))"

definition det_inv :: "('st, 'm) cmanager \<Rightarrow> bool" where
  "det_inv cm \<longleftrightarrow>
     record_store cm < rc_next cm \<and>
     (\<forall>c \<in> set (port2con cm). det_conn (detailed_records cm) (record_store cm) c)"

section \<open>Indexing by port\<close>

lemma pidx_in_range:
  assumes "owns_tcp_port cm p" and "table_wf cm"
  shows "pidx cm p < length (port2con cm)"
  using masked_offset(3) [of p "port_mask cm" "tcp_port_base cm"] assms
  by (simp add: owns_tcp_port_def table_wf_def pidx_def)

lemma get_mut_con_owned:
  assumes "owns_tcp_port cm p" and "table_wf cm"
  shows "get_mut_con X cm p = Inr (pidx cm p)"
proof -
  have "tcp_port_base cm \<le> p"
    using assms(1) unfolding owns_tcp_port_def by (rule masked_offset(2))
  then show ?thesis
    using pidx_in_range [OF assms] by (simp add: get_mut_con_def sub_w_ok pidx_def)
qed

lemma get_mut_con_panics_or_owned:
  assumes "get_mut_con X cm p = Inr i"
  shows "i = pidx cm p" and "i < length (port2con cm)"
  using assms by (auto simp: get_mut_con_def pidx_def bindR_eq_Inr indexR_eq_Inr dest!: sub_w_eq_Inr)

lemma pidx_inject: "pidx cm p = pidx cm q \<longleftrightarrow> p = q"
  by (simp add: pidx_def word_unat_eq_iff [symmetric])

lemma con_at_same:
  "owns_tcp_port cm p \<Longrightarrow> table_wf cm \<Longrightarrow> tcp_port_base cm' = tcp_port_base cm \<Longrightarrow>
   port2con cm' = (port2con cm)[pidx cm p := c] \<Longrightarrow> con_at cm' p = c"
  using pidx_in_range [of cm p] by (simp add: con_at_def pidx_def)

lemma con_at_other:
  "q \<noteq> p \<Longrightarrow> tcp_port_base cm' = tcp_port_base cm \<Longrightarrow>
   port2con cm' = (port2con cm)[pidx cm p := c] \<Longrightarrow> con_at cm' q = con_at cm q"
  by (simp add: con_at_def pidx_def word_unat_eq_iff [symmetric])

lemma con_at_upd:
  "owns_tcp_port cm p \<Longrightarrow> table_wf cm \<Longrightarrow> tcp_port_base cm' = tcp_port_base cm \<Longrightarrow>
   port2con cm' = (port2con cm)[pidx cm p := c] \<Longrightarrow>
   con_at cm' q = (if q = p then c else con_at cm q)"
  by (auto intro: con_at_same con_at_other)

lemma table_wf_upd:
  "table_wf cm \<Longrightarrow> port_mask cm' = port_mask cm \<Longrightarrow> port2con cm' = (port2con cm)[i := c] \<Longrightarrow> table_wf cm'"
  by (simp add: table_wf_def)

lemma owns_upd:
  "port_mask cm' = port_mask cm \<Longrightarrow> tcp_port_base cm' = tcp_port_base cm \<Longrightarrow>
   owns_tcp_port cm' p = owns_tcp_port cm p"
  by (simp add: owns_tcp_port_def)

text \<open>Every entry of the table is the entry of a port of the range.\<close>

lemma index_is_port:
  assumes wf: "table_wf cm" and conf: "mask_conf (port_mask cm) (tcp_port_base cm)"
    and i: "i < length (port2con cm)"
  obtains p where "owns_tcp_port cm p" and "pidx cm p = i"
proof -
  let ?b = "tcp_port_base cm" and ?m = "port_mask cm"
  obtain k where low: "NOT ?m = mask k" and b: "?b AND ?m = ?b"
    using conf by (auto simp: mask_conf_def)
  define d :: u16 where "d = of_nat i"
  have "i \<le> unat (NOT ?m)" using i wf by (simp add: table_wf_def)
  moreover from this have "unat d = i"
    unfolding d_def using unsigned_less [of "NOT ?m", where 'a = nat]
    by (simp add: unat_of_nat)
  ultimately have d: "d \<le> NOT ?m" by (simp add: word_le_nat_alt)
  have le: "?b \<le> ?b + d"
  proof -
    have disj: "d AND ?b = 0"
    proof (rule bit_word_eqI)
      fix n assume n: "n < LENGTH(16)"
      have "bit d n \<Longrightarrow> \<not> bit ?m n"
        using and_mask_le [of d k] d low n by (metis bit_and_iff bit_not_iff_eq)
      moreover have "bit ?b n \<Longrightarrow> bit ?m n" using b by (metis bit_and_iff)
      ultimately show "bit (d AND ?b) n \<longleftrightarrow> bit (0::u16) n" by (auto simp: bit_simps)
    qed
    then have "?b + d = ?b OR d"
      by (intro disjunctive_add) (metis bit_0_eq bit_and_iff bot_apply bot_bool_def)
    then show ?thesis by (simp add: le_word_or2)
  qed
  have "owns_tcp_port cm (?b + d)"
    unfolding owns_tcp_port_def by (rule low_mask_offset [OF low b le]) (use d in simp)
  moreover have "pidx cm (?b + d) = i"
    using \<open>unat d = i\<close> by (simp add: pidx_def)
  ultimately show ?thesis by (rule that)
qed

section \<open>Consequences of the invariant\<close>

lemma cm_inv_wf: "cm_inv cm \<Longrightarrow> table_wf cm"
  by (simp add: cm_inv_def)

lemma cm_inv_sock2port:
  assumes "cm_inv cm" and "sock2port cm s = Some p"
  shows "owns_tcp_port cm p" and "in_use (con_at cm p)" and "con_sock (con_at cm p) = Some s"
    and "get_mut_con X cm p = Inr (pidx cm p)"
proof -
  show own: "owns_tcp_port cm p" and "in_use (con_at cm p)" and "con_sock (con_at cm p) = Some s"
    using assms unfolding cm_inv_def by blast+
  show "get_mut_con X cm p = Inr (pidx cm p)"
    using own cm_inv_wf [OF assms(1)] by (rule get_mut_con_owned)
qed

lemma cm_inv_used:
  assumes "cm_inv cm" and "owns_tcp_port cm p" and "in_use (con_at cm p)"
  obtains s where "con_sock (con_at cm p) = Some s" and "sock2port cm s = Some p"
    and "proxy_port (con_at cm p) = p" and "p \<noteq> 0"
proof -
  have pp: "proxy_port (con_at cm p) = p" using assms unfolding cm_inv_def by blast
  moreover have "p \<noteq> 0" using assms(3) pp by (auto simp: in_use_def)
  moreover obtain s where "con_sock (con_at cm p) = Some s"
    using assms unfolding cm_inv_def by blast
  moreover from this have "sock2port cm s = Some p" using assms unfolding cm_inv_def by blast
  ultimately show ?thesis using that by blast
qed

lemma cm_inv_port:
  assumes "cm_inv cm" and "sock2port cm s = Some p"
  shows "proxy_port (con_at cm p) = p"
  using cm_inv_used [OF assms(1) cm_inv_sock2port(1,2) [OF assms]] by blast

lemma cm_inv_free:
  assumes "cm_inv cm" and "p \<in> set (free_ports cm)"
  shows "owns_tcp_port cm p" and "p \<noteq> 0" and "\<not> in_use (con_at cm p)"
    and "get_mut_con X cm p = Inr (pidx cm p)"
proof -
  show own: "owns_tcp_port cm p" and "p \<noteq> 0" and "\<not> in_use (con_at cm p)"
    using assms unfolding cm_inv_def by blast+
  show "get_mut_con X cm p = Inr (pidx cm p)"
    using own cm_inv_wf [OF assms(1)] by (rule get_mut_con_owned)
qed

section \<open>The three ways the table changes\<close>

text \<open>Opening: the first free port is taken for a client socket that has none.\<close>

lemma cm_inv_open:
  assumes inv: "cm_inv cm" and new: "sock2port cm s = None" and fr: "free_ports cm = p # rest"
    and c: "proxy_port c = p" "con_sock c = Some s"
    and upd: "free_ports cm' = rest" "port2con cm' = (port2con cm)[pidx cm p := c]"
      "sock2port cm' = (sock2port cm)(s \<mapsto> p)" "port_mask cm' = port_mask cm"
      "tcp_port_base cm' = tcp_port_base cm"
  shows "cm_inv cm'"
proof -
  have p: "owns_tcp_port cm p" "p \<noteq> 0" "\<not> in_use (con_at cm p)"
    using cm_inv_free [OF inv, of p] fr by simp_all
  have used: "in_use c" using c p by (simp add: in_use_def)
  note at = con_at_upd [OF p(1) cm_inv_wf [OF inv] upd(5,2)]
  note own = owns_upd [OF upd(4,5)]
  have free: "q \<in> set (free_ports cm) \<longleftrightarrow> owns_tcp_port cm q \<and> q \<noteq> 0 \<and> \<not> in_use (con_at cm q)" for q
    using inv unfolding cm_inv_def by blast
  have "distinct (p # rest)" using inv fr unfolding cm_inv_def by metis
  moreover have "q \<in> set rest \<longleftrightarrow> q \<noteq> p \<and> q \<in> set (free_ports cm)" for q
    using \<open>distinct (p # rest)\<close> fr by auto
  moreover have s: "sock2port cm t = Some q \<longleftrightarrow>
      owns_tcp_port cm q \<and> in_use (con_at cm q) \<and> con_sock (con_at cm q) = Some t" for t q
    using inv unfolding cm_inv_def by blast
  moreover have "sock2port cm' t = Some q \<longleftrightarrow>
      owns_tcp_port cm' q \<and> in_use (con_at cm' q) \<and> con_sock (con_at cm' q) = Some t" for t q
    using s [of t q] s [of t p] new p c used by (auto simp: own at upd(3))
  moreover have "mask_conf (port_mask cm') (tcp_port_base cm')" and "table_wf cm'"
    using inv upd(4,5) table_wf_upd [OF _ upd(4,2)] by (simp_all add: cm_inv_def)
  moreover have "owns_tcp_port cm q \<longrightarrow> in_use (con_at cm q) \<longrightarrow>
      proxy_port (con_at cm q) = q \<and> con_sock (con_at cm q) \<noteq> None" for q
    using inv unfolding cm_inv_def by blast
  ultimately show ?thesis
    unfolding cm_inv_def own at using free used c p upd(1) by auto
qed

text \<open>Closing: a port in use goes back to the end of the queue.\<close>

lemma cm_inv_close:
  assumes inv: "cm_inv cm" and p: "owns_tcp_port cm p" "in_use (con_at cm p)"
    and sk: "con_sock (con_at cm p) = Some s" and c: "\<not> in_use c"
    and upd: "free_ports cm' = free_ports cm @ [p]" "port2con cm' = (port2con cm)[pidx cm p := c]"
      "sock2port cm' = (sock2port cm)(s := None)" "port_mask cm' = port_mask cm"
      "tcp_port_base cm' = tcp_port_base cm"
  shows "cm_inv cm'"
proof -
  note at = con_at_upd [OF p(1) cm_inv_wf [OF inv] upd(5,2)]
  note own = owns_upd [OF upd(4,5)]
  have p0: "p \<noteq> 0" using cm_inv_used [OF inv p] by metis
  have free: "q \<in> set (free_ports cm) \<longleftrightarrow> owns_tcp_port cm q \<and> q \<noteq> 0 \<and> \<not> in_use (con_at cm q)" for q
    using inv unfolding cm_inv_def by blast
  have "distinct (free_ports cm @ [p])"
    using inv free p unfolding cm_inv_def by simp
  moreover have s: "sock2port cm t = Some q \<longleftrightarrow>
      owns_tcp_port cm q \<and> in_use (con_at cm q) \<and> con_sock (con_at cm q) = Some t" for t q
    using inv unfolding cm_inv_def by blast
  moreover have "sock2port cm' t = Some q \<longleftrightarrow>
      owns_tcp_port cm' q \<and> in_use (con_at cm' q) \<and> con_sock (con_at cm' q) = Some t" for t q
    using s [of t q] s [of s p] s [of s q] s [of t p] p c sk by (auto simp: own at upd(3))
  moreover have "mask_conf (port_mask cm') (tcp_port_base cm')" and "table_wf cm'"
    using inv upd(4,5) table_wf_upd [OF _ upd(4,2)] by (simp_all add: cm_inv_def)
  moreover have "owns_tcp_port cm q \<longrightarrow> in_use (con_at cm q) \<longrightarrow>
      proxy_port (con_at cm q) = q \<and> con_sock (con_at cm q) \<noteq> None" for q
    using inv unfolding cm_inv_def by blast
  ultimately show ?thesis
    unfolding cm_inv_def own at using free c p p0 upd(1) by auto
qed

text \<open>Writing a connection in place, with the same port and the same client.\<close>

lemma cm_inv_write:
  assumes inv: "cm_inv cm" and p: "owns_tcp_port cm p"
    and c: "proxy_port c = proxy_port (con_at cm p)" "con_sock c = con_sock (con_at cm p)"
    and upd: "free_ports cm' = free_ports cm" "port2con cm' = (port2con cm)[pidx cm p := c]"
      "sock2port cm' = sock2port cm" "port_mask cm' = port_mask cm" "tcp_port_base cm' = tcp_port_base cm"
  shows "cm_inv cm'"
proof -
  note at = con_at_upd [OF p cm_inv_wf [OF inv] upd(5,2)]
  note own = owns_upd [OF upd(4,5)]
  have eqs: "in_use (con_at cm' q) = in_use (con_at cm q)"
    "proxy_port (con_at cm' q) = proxy_port (con_at cm q)"
    "con_sock (con_at cm' q) = con_sock (con_at cm q)" for q
    using c by (auto simp: at in_use_def)
  show ?thesis
    using inv table_wf_upd [OF _ upd(4,2)] unfolding cm_inv_def own eqs upd by blast
qed

end
