(* ===== verification/Manager_Ops.thy ===== *)
theory Manager_Ops
  imports Manager_Inv
begin

text \<open>
  Every operation of the connection manager under its invariant: what it returns, that it does not
  panic, and what it leaves alone. \<open>wheel_inv\<close> links the table with the timer wheel: the wheel's
  entry at the place a connection remembers is the connection's port.
\<close>

section \<open>Set-up\<close>

text \<open>The ports of the range are an interval.\<close>

lemma owned_interval:
  assumes "mask_conf pmask base"
  shows "p AND pmask = base \<longleftrightarrow> base \<le> p \<and> p \<le> base + NOT pmask"
    and "unat base + unat (NOT pmask) < 2 ^ 16"
proof -
  obtain k where low: "NOT pmask = mask k" and b: "base AND pmask = base"
    using assms by (auto simp: mask_conf_def)
  have "base + NOT pmask = base OR NOT pmask"
  proof (rule disjunctive_add)
    fix n
    have "\<not> (bit base n \<and> bit (NOT pmask) n)"
      using b by (metis bit_and_iff bit_not_iff_eq)
    then show "\<not> bit base n \<or> \<not> bit (NOT pmask) n" by blast
  qed
  then have "base \<le> base + NOT pmask" by (simp add: le_word_or2)
  then show nov: "unat base + unat (NOT pmask) < 2 ^ 16"
    by (simp add: no_olen_add_nat)
  then have sum: "unat (base + NOT pmask) = unat base + unat (NOT pmask)"
    by (simp add: unat_word_ariths)
  show "p AND pmask = base \<longleftrightarrow> base \<le> p \<and> p \<le> base + NOT pmask"
  proof
    assume own: "p AND pmask = base"
    have le: "base \<le> p" and off: "unat (p - base) \<le> unat (NOT pmask)"
      using masked_offset(2,3) [OF own] by simp_all
    have "unat p \<le> unat (base + NOT pmask)"
      using off le by (simp add: sum unat_sub word_le_nat_alt)
    then show "base \<le> p \<and> p \<le> base + NOT pmask" using le by (simp add: word_le_nat_alt)
  next
    assume "base \<le> p \<and> p \<le> base + NOT pmask"
    then have le: "base \<le> p" and "unat p \<le> unat base + unat (NOT pmask)"
      by (simp_all add: word_le_nat_alt sum)
    then have "p - base \<le> NOT pmask" by (simp add: word_le_nat_alt unat_sub)
    with low b le show "p AND pmask = base" by (rule low_mask_offset)
  qed
qed

lemma interval_snoc:
  fixes a b :: u16
  assumes "a \<le> b" and "b \<noteq> 0"
  shows "insert b {a..b - 1} = {a..b}" and "b \<notin> {a..b - 1}"
proof -
  have b1: "unat (b - 1) = unat b - 1"
    using assms(2) by (simp add: unat_minus_one)
  have b0: "0 < unat b" using assms(2) by (simp add: unat_gt_0)
  have lt: "x \<le> b - 1 \<longleftrightarrow> x < b" for x
  proof -
    have "x \<le> b - 1 \<longleftrightarrow> unat x \<le> unat b - 1" by (simp only: word_le_nat_alt b1)
    also have "\<dots> \<longleftrightarrow> unat x < unat b" using b0 by linarith
    finally show ?thesis by (simp only: word_less_nat_alt)
  qed
  show "insert b {a..b - 1} = {a..b}" and "b \<notin> {a..b - 1}"
    using assms(1) by (auto simp: lt)
qed

lemma cm_new_ok:
  fixes X :: "('cr, 'st, 'w, 'z) mgr_lib_scheme"
  assumes sh: "shuffle_ok X" and conf: "mask_conf pmask base" and some: "base + NOT pmask \<noteq> 0"
  shows "\<exists>cm :: ('st, 'm) cmanager. cm_new X pmask ip_addr base detailed = Inr cm \<and> cm_inv cm \<and> det_inv cm \<and>
    set (free_ports cm) = {p. p AND pmask = base \<and> p \<noteq> 0} \<and> sock2port cm = Map.empty \<and>
    port_mask cm = pmask \<and> tcp_port_base cm = base \<and> detailed_records cm = detailed"
proof -
  let ?max = "base + NOT pmask" and ?first = "if base = 0 then 1 else base"
  have nov: "unat base + unat (NOT pmask) < 2 ^ 16"
    and own: "p AND pmask = base \<longleftrightarrow> base \<le> p \<and> p \<le> ?max" for p
    using owned_interval [OF conf] by simp_all
  have add: "add_w (overflow_checks X) base (NOT pmask) = Inr ?max"
    using nov by (intro add_w_ok) simp
  have one: "1 \<le> ?max" using some by (simp add: word_le_nat_alt unat_gt_0 Suc_le_eq)
  then have sub: "sub_w (overflow_checks X) ?max 1 = Inr (?max - 1)" by (rule sub_w_ok)
  have first: "?first \<le> ?max" using one own [of base] conf by (auto simp: mask_conf_def)
  define cm :: "('st, 'm) cmanager" where "cm = \<lparr>rc_heap = (\<lambda>_. st_with_capacity X MAX_RECORDS), rc_next = 1,
     record_store = 0, sock2port = Map.empty,
     free_ports = shuffle_ports X ?first (?max - 1) @ [?max],
     port2con = replicate (unat (NOT pmask) + 1) (con_clone X (con_new X)),
     port_mask = pmask, tcp_port_base = base, cm_ip = ip_addr, detailed_records = detailed\<rparr>"
  have new: "cm_new X pmask ip_addr base detailed = Inr cm"
    using add sub by (simp add: cm_new_def cm_def)
  have d: "distinct (shuffle_ports X ?first (?max - 1))"
    and st: "set (shuffle_ports X ?first (?max - 1)) = {?first..?max - 1}"
    using sh by (simp_all add: shuffle_ok_def)
  have "set (free_ports cm) = insert ?max {?first..?max - 1}" by (simp add: cm_def st)
  also have "\<dots> = {?first..?max}" by (rule interval_snoc(1) [OF first some])
  also have "\<dots> = {p. p AND pmask = base \<and> p \<noteq> 0}"
    by (auto simp: own word_le_nat_alt unat_gt_0 Suc_le_eq unat_eq_zero)
  finally have free: "set (free_ports cm) = {p. p AND pmask = base \<and> p \<noteq> 0}" .
  have dist: "distinct (free_ports cm)"
    using d interval_snoc(2) [OF first some] by (simp add: cm_def st)
  have wf: "table_wf cm" by (simp add: table_wf_def cm_def)
  have at: "con_at cm p = con_new X" if "owns_tcp_port cm p" for p
    using pidx_in_range [OF that wf] by (simp add: con_at_def cm_def con_clone_def nth_replicate del: replicate.simps)
  have idle: "\<not> in_use (con_at cm p)" if "owns_tcp_port cm p" for p using at [OF that] by simp
  have ownc: "owns_tcp_port cm p \<longleftrightarrow> p AND pmask = base" for p
    by (simp add: owns_tcp_port_def cm_def)
  have "cm_inv cm"
    unfolding cm_inv_def
  proof (intro conjI allI impI iffI)
    show "mask_conf (port_mask cm) (tcp_port_base cm)" using conf by (simp add: cm_def)
    show "table_wf cm" "distinct (free_ports cm)" by (rule wf, rule dist)
    fix p s
    show "owns_tcp_port cm p" "p \<noteq> 0" "\<not> in_use (con_at cm p)" if "p \<in> set (free_ports cm)"
      using that idle by (simp_all add: free ownc)
    show "p \<in> set (free_ports cm)" if "owns_tcp_port cm p \<and> p \<noteq> 0 \<and> \<not> in_use (con_at cm p)"
      using that by (simp add: free ownc)
    show "owns_tcp_port cm p" "in_use (con_at cm p)" "con_sock (con_at cm p) = Some s"
      if "sock2port cm s = Some p" using that by (simp_all add: cm_def)
  qed (use idle in blast)+
  moreover have "det_inv cm"
    by (auto simp: det_inv_def cm_def det_conn_def con_clone_def con_new_def in_use_def)
  moreover have "sock2port cm = Map.empty" "port_mask cm = pmask" "tcp_port_base cm = base"
    "detailed_records cm = detailed" by (simp_all add: cm_def)
  ultimately show ?thesis using new free by (intro exI [of _ cm]) simp
qed

section \<open>Look-ups\<close>

text \<open>A look-up by port stays inside the table for every mask and every port.\<close>

lemma get_mut_by_port_eq:
  assumes "table_wf cm"
  shows "get_mut_by_port X p cm =
    Inr (if owns_tcp_port cm p \<and> in_use (con_at cm p) then Some (pidx cm p) else None)"
  using assms by (simp add: get_mut_by_port_def get_mut_con_owned con_at_def)

lemma get_mut_by_sock_eq:
  assumes "cm_inv cm"
  shows "get_mut_by_sock X s cm = Inr (map_option (pidx cm) (sock2port cm s))"
  by (cases "sock2port cm s") (simp_all add: get_mut_by_sock_def cm_inv_sock2port(4) [OF assms])

section \<open>Detailed records\<close>

lemma det_at:
  assumes "det_inv cm" and "table_wf cm" and "owns_tcp_port cm p"
  shows "det_conn (detailed_records cm) (record_store cm) (con_at cm p)"
  using assms pidx_in_range [OF assms(3,2)] by (auto simp: det_inv_def con_at_def)

lemma det_inv_upd:
  assumes "det_inv cm" and "det_conn (detailed_records cm) (record_store cm) c"
    and "port2con cm' = (port2con cm)[i := c]" and "record_store cm' = record_store cm"
    and "rc_next cm' = rc_next cm" and "detailed_records cm' = detailed_records cm"
  shows "det_inv cm'"
  using assms set_update_subset_insert [of "port2con cm" i c] by (auto simp: det_inv_def)

lemma det_log_ok:
  assumes "det_conn detailed r c" and "in_use c"
  shows "\<exists>h'. c_push_state X t s (c, h) = Inr (c\<lparr>client_state := state_as_u8 X s\<rparr>, h')"
    and "\<exists>h'. set_release_cause X cause (c, h) = Inr (c, h')"
    and "\<exists>h'. s_set_release_cause X cause (c, h) = Inr (c, h')"
    and "\<exists>h'. s_init X (c, h) = Inr (c, h')"
  using assms
  by (cases "detailed_c c";
      auto simp: det_conn_def c_push_state_def set_release_cause_def s_set_release_cause_def s_init_def
        dc_c_push_state_def dc_set_release_cause_def dc_s_set_release_cause_def dc_s_init_def
        dc_store_def dc_con_rec_def)+

lemma det_conn_release:
  "det_conn detailed r c \<Longrightarrow> det_conn detailed r' (con_release (c\<lparr>client_state := x\<rparr>))"
  by (cases "detailed_c c") (auto simp: det_conn_def con_release_def in_use_def dc_release_def)

lemma det_conn_release': "det_conn detailed r c \<Longrightarrow> det_conn detailed r' (con_release c)"
  by (cases "detailed_c c") (auto simp: det_conn_def con_release_def in_use_def dc_release_def)

lemma det_initialize:
  assumes "det_conn detailed r c" and "\<not> in_use c" and "p \<noteq> 0"
  shows "\<exists>c' h'. (if detailed then con_initialize_with_details X s p r c h
       else Inr (con_initialize X s p c, h)) = Inr (c', h') \<and>
     det_conn detailed r c' \<and> c'\<lparr>detailed_c := None\<rparr> = (con_initialize X s p c)\<lparr>detailed_c := None\<rparr>"
proof (cases detailed)
  case True
  then show ?thesis
    using assms
    by (cases "detailed_c c")
      (auto simp: con_initialize_with_details_def dc_new_def dc_re_new_def dc_initialize_def
        dc_store_def dc_con_rec_def det_conn_def in_use_def Let_def split: prod.split)
next
  case False
  then show ?thesis
    using assms by (auto simp: det_conn_def in_use_def split: option.splits)
qed

section \<open>Opening a connection\<close>

definition wheel_inv ::
  "('w \<Rightarrow> u16 \<times> u16 \<Rightarrow> u16 option) \<Rightarrow> u16 set \<Rightarrow> ('st, 'm) cmanager \<Rightarrow> 'w \<Rightarrow> bool" where
  "wheel_inv ent P cm w \<longleftrightarrow>
     (\<forall>p. p \<notin> P \<longrightarrow> owns_tcp_port cm p \<longrightarrow> in_use (con_at cm p) \<longrightarrow>
        ent w (wheel_slot_and_index (con_at cm p)) = Some p)"

definition same_conf :: "('st, 'm) cmanager \<Rightarrow> ('st, 'm) cmanager \<Rightarrow> bool" where
  "same_conf cm cm' \<longleftrightarrow> port_mask cm' = port_mask cm \<and> tcp_port_base cm' = tcp_port_base cm \<and>
     cm_ip cm' = cm_ip cm \<and> detailed_records cm' = detailed_records cm"

lemma same_conf_refl [simp]: "same_conf cm cm"
  by (simp add: same_conf_def)

lemma same_conf_trans: "same_conf a b \<Longrightarrow> same_conf b c \<Longrightarrow> same_conf a c"
  by (simp add: same_conf_def)

lemma same_conf_owns [simp]: "same_conf cm cm' \<Longrightarrow> owns_tcp_port cm' p = owns_tcp_port cm p"
  by (simp add: same_conf_def owns_tcp_port_def)

lemma same_conf_pidx: "same_conf cm cm' \<Longrightarrow> pidx cm' p = pidx cm p"
  by (simp add: same_conf_def pidx_def)

lemma insert_known:
  assumes "cm_inv cm" and "sock2port cm s = Some p"
  shows "get_mut_or_insert X s cm = Inr (Some (pidx cm p), cm)"
  using cm_inv_sock2port(2) [OF assms] assms(2)
  by (simp add: get_mut_or_insert_def con_at_def cm_inv_sock2port(4) [OF assms])

lemma insert_exhausted:
  assumes "sock2port cm s = None" and "free_ports cm = []"
  shows "get_mut_or_insert X s cm = Inr (None, cm)"
  using assms by (simp add: get_mut_or_insert_def)

lemma insert_fresh:
  assumes inv: "cm_inv cm" and det: "det_inv cm" and new: "sock2port cm s = None"
    and fr: "free_ports cm = p # rest" and ip: "fst s \<noteq> 0"
  shows "\<exists>cm'. get_mut_or_insert X s cm = Inr (Some (pidx cm p), cm') \<and>
    cm_inv cm' \<and> det_inv cm' \<and> same_conf cm cm' \<and> owns_tcp_port cm p \<and> p \<noteq> 0 \<and>
    free_ports cm' = rest \<and> sock2port cm' = (sock2port cm)(s \<mapsto> p) \<and>
    (con_at cm' p)\<lparr>detailed_c := None\<rparr> = (con_initialize X s p (con_at cm p))\<lparr>detailed_c := None\<rparr> \<and>
    (\<forall>q. q \<noteq> p \<longrightarrow> con_at cm' q = con_at cm q) \<and> record_store cm' = record_store cm"
proof -
  have p: "owns_tcp_port cm p" "p \<noteq> 0" "\<not> in_use (con_at cm p)" "get_mut_con X cm p = Inr (pidx cm p)"
    using cm_inv_free [OF inv, of p] fr by simp_all
  note wf = cm_inv_wf [OF inv]
  obtain c h where ini: "(if detailed_records cm
      then con_initialize_with_details X s p (record_store cm) (con_at cm p) (rc_heap cm)
      else Inr (con_initialize X s p (con_at cm p), rc_heap cm)) = Inr (c, h)"
    and dc: "det_conn (detailed_records cm) (record_store cm) c"
    and c: "c\<lparr>detailed_c := None\<rparr> = (con_initialize X s p (con_at cm p))\<lparr>detailed_c := None\<rparr>"
    using det_initialize [OF det_at [OF det wf p(1)] p(3,2)] by blast
  define cm' where "cm' = cm\<lparr>free_ports := rest, rc_heap := h,
    port2con := (port2con cm)[pidx cm p := c], sock2port := (sock2port cm)(s \<mapsto> p)\<rparr>"
  have run: "get_mut_or_insert X s cm = Inr (Some (pidx cm p), cm')"
    using p(3) by (simp add: get_mut_or_insert_def new fr p(4) con_at_def ini [unfolded con_at_def] cm'_def)
  have port: "proxy_port c = p" and sk: "con_sock c = Some s"
    using arg_cong [OF c, of proxy_port] arg_cong [OF c, of client_ip] arg_cong [OF c, of client_port] ip
    by (simp_all add: con_sock_def)
  have sel: "free_ports cm' = rest" "port2con cm' = (port2con cm)[pidx cm p := c]"
    "sock2port cm' = (sock2port cm)(s \<mapsto> p)" "port_mask cm' = port_mask cm"
    "tcp_port_base cm' = tcp_port_base cm" "record_store cm' = record_store cm"
    "rc_next cm' = rc_next cm" "detailed_records cm' = detailed_records cm" "cm_ip cm' = cm_ip cm"
    by (simp_all add: cm'_def)
  have "cm_inv cm'" by (rule cm_inv_open [OF inv new fr port sk sel(1-5)])
  moreover have "det_inv cm'" by (rule det_inv_upd [OF det dc sel(2,6,7,8)])
  moreover have "con_at cm' p = c" by (rule con_at_same [OF p(1) wf sel(5,2)])
  moreover have "con_at cm' q = con_at cm q" if "q \<noteq> p" for q by (rule con_at_other [OF that sel(5,2)])
  moreover have "same_conf cm cm'" by (simp add: same_conf_def sel)
  ultimately show ?thesis using run p c sel(1,3,6) by (intro exI [of _ cm'] conjI allI impI) simp_all
qed

end
