(* ===== verification/Manager_Release.thy ===== *)
theory Manager_Release
  imports Manager_Ops
begin

text \<open>
  Releasing connections: by \<open>release_port\<close> at the end of a connection, by \<open>release_timeouts\<close> when
  the timer wheel hands out ports, and by \<open>fetch_c_records\<close>, which moves the record store out.
\<close>

section \<open>Releasing one port\<close>

lemma wheel_replace_entries:
  assumes "wheel_ok X ent" and "wheel_replace X k v w = (old, w')"
  shows "old = ent w k" and "ent w' = (if ent w k = None then ent w else (ent w)(k \<mapsto> v))"
  using assms unfolding wheel_ok_def by blast+

lemma wheel_schedule_entries:
  assumes "wheel_ok X ent" and "wheel_load ent w < 2 ^ 16" and "wheel_schedule X d v w = (k, w')"
  shows "ent w k = None" and "ent w' = (ent w)(k \<mapsto> v)" and "wheel_load ent w' = Suc (wheel_load ent w)"
proof -
  show new: "ent w k = None" and upd: "ent w' = (ent w)(k \<mapsto> v)"
    using assms unfolding wheel_ok_def by blast+
  then show "wheel_load ent w' = Suc (wheel_load ent w)"
    by (simp add: wheel_load_def domIff card_insert_if)
qed

lemma wheel_replace_load:
  assumes "wheel_ok X ent" and "wheel_replace X k v w = (old, w')"
  shows "wheel_load ent w' = wheel_load ent w"
proof (cases "ent w k")
  case None
  then show ?thesis using wheel_replace_entries(2) [OF assms] by (simp add: wheel_load_def)
next
  case (Some q)
  then have "insert k (dom (ent w)) = dom (ent w)" by auto
  then show ?thesis using Some wheel_replace_entries(2) [OF assms] by (simp add: wheel_load_def)
qed

lemma release_port_ok:
  assumes inv: "cm_inv cm" and det: "det_inv cm" and wh: "wheel_ok X ent" "wheel_inv ent {} cm w"
    and p: "owns_tcp_port cm p" "in_use (con_at cm p)" and sk: "sock2port cm s = Some p"
  shows "\<exists>cm' w'. release_port X p (cm, w) = Inr (cm', w') \<and> cm_inv cm' \<and> det_inv cm' \<and>
    wheel_inv ent {} cm' w' \<and> same_conf cm cm' \<and> free_ports cm' = free_ports cm @ [p] \<and>
    sock2port cm' = (sock2port cm)(s := None) \<and> con_at cm' p = con_release (con_at cm p) \<and>
    (\<forall>q. q \<noteq> p \<longrightarrow> con_at cm' q = con_at cm q) \<and> ent w' = (ent w)(wheel_slot_and_index (con_at cm p) \<mapsto> 0)"
proof -
  note wf = cm_inv_wf [OF inv]
  let ?c = "con_at cm p"
  have sock: "con_sock ?c = Some s" by (rule cm_inv_sock2port(3) [OF inv sk])
  have port: "proxy_port ?c = p" using cm_inv_used [OF inv p] by metis
  have ent: "ent w (wheel_slot_and_index ?c) = Some p" using wh(2) p by (simp add: wheel_inv_def)
  obtain old w' where rep: "wheel_replace X (wheel_slot_and_index ?c) 0 w = (old, w')" by fastforce
  have old: "old = Some p" and w': "ent w' = (ent w)(wheel_slot_and_index ?c \<mapsto> 0)"
    using wheel_replace_entries [OF wh(1) rep] ent by simp_all
  define cm' where "cm' = cm\<lparr>free_ports := free_ports cm @ [p], sock2port := (sock2port cm)(s := None),
    port2con := (port2con cm)[pidx cm p := con_release ?c]\<rparr>"
  have run: "release_port X p (cm, w) = Inr (cm', w')"
    using p(2) sk sock port rep old
    by (simp add: release_port_def get_mut_con_owned [OF p(1) wf] con_at_def con_port_def cm'_def)
  have sel: "free_ports cm' = free_ports cm @ [p]" "port2con cm' = (port2con cm)[pidx cm p := con_release ?c]"
    "sock2port cm' = (sock2port cm)(s := None)" "port_mask cm' = port_mask cm"
    "tcp_port_base cm' = tcp_port_base cm" "record_store cm' = record_store cm"
    "rc_next cm' = rc_next cm" "detailed_records cm' = detailed_records cm" "cm_ip cm' = cm_ip cm"
    by (simp_all add: cm'_def)
  have at: "con_at cm' q = (if q = p then con_release ?c else con_at cm q)" for q
    by (rule con_at_upd [OF p(1) wf sel(5,2)])
  have conf: "same_conf cm cm'" by (simp add: same_conf_def sel)
  have "cm_inv cm'" by (rule cm_inv_close [OF inv p sock in_use_release sel(1-5)])
  moreover have "det_inv cm'"
    by (rule det_inv_upd [OF det det_conn_release' [OF det_at [OF det wf p(1)]] sel(2,6,7,8)])
  moreover have "wheel_inv ent {} cm' w'"
    unfolding wheel_inv_def
  proof (intro allI impI)
    fix q assume "owns_tcp_port cm' q" and use: "in_use (con_at cm' q)"
    then have q: "q \<noteq> p" "owns_tcp_port cm q" "in_use (con_at cm q)" "con_at cm' q = con_at cm q"
      using conf by (auto simp: at split: if_splits)
    then have "ent w (wheel_slot_and_index (con_at cm q)) = Some q"
      using wh(2) by (simp add: wheel_inv_def)
    then show "ent w' (wheel_slot_and_index (con_at cm' q)) = Some q"
      using q ent by (auto simp: w')
  qed
  ultimately show ?thesis
    using run conf sel(1,3) w' by (intro exI [of _ cm'] exI [of _ w'] conjI allI impI) (simp_all add: at)
qed

lemma release_port_idle:
  assumes "table_wf cm" and "owns_tcp_port cm p" and "\<not> in_use (con_at cm p)"
  shows "release_port X p (cm, w) = Inr (cm, w)"
  using assms by (simp add: release_port_def get_mut_con_owned con_at_def)

section \<open>Timeouts\<close>

lemma timeout_port_idle:
  assumes "table_wf cm" and "\<not> (owns_tcp_port cm p \<and> in_use (con_at cm p))"
  shows "timeout_port X now p cm = Inr cm"
proof -
  have "get_mut_by_port X p cm = Inr None"
    using assms(2) by (simp add: get_mut_by_port_eq [OF assms(1)])
  then show ?thesis by (simp add: timeout_port_def)
qed

lemma timeout_port_used:
  assumes inv: "cm_inv cm" and det: "det_inv cm"
    and p: "owns_tcp_port cm p" "in_use (con_at cm p)" and sk: "sock2port cm s = Some p"
  shows "\<exists>cm'. timeout_port X now p cm = Inr cm' \<and> cm_inv cm' \<and> det_inv cm' \<and> same_conf cm cm' \<and>
    free_ports cm' = free_ports cm @ [p] \<and> sock2port cm' = (sock2port cm)(s := None) \<and>
    \<not> in_use (con_at cm' p) \<and> (\<forall>q. q \<noteq> p \<longrightarrow> con_at cm' q = con_at cm q)"
proof -
  note wf = cm_inv_wf [OF inv]
  let ?c = "con_at cm p" and ?c' = "con_at cm p\<lparr>client_state := state_as_u8 X Closed\<rparr>"
  have dc: "det_conn (detailed_records cm) (record_store cm) ?c" by (rule det_at [OF det wf p(1)])
  have sock: "con_sock ?c = Some s" by (rule cm_inv_sock2port(3) [OF inv sk])
  then have sock': "con_sock ?c' = Some s" by simp
  obtain h1 where h1: "set_release_cause X Timeout (?c, rc_heap cm) = Inr (?c, h1)"
    using det_log_ok(2) [OF dc p(2)] by blast
  obtain h2 where h2: "c_push_state X now Closed (?c, h1) = Inr (?c', h2)"
    using det_log_ok(1) [OF dc p(2)] by blast
  define cm' where "cm' = cm\<lparr>rc_heap := h2, port2con := (port2con cm)[pidx cm p := con_release ?c'],
    free_ports := free_ports cm @ [p], sock2port := (sock2port cm)(s := None)\<rparr>"
  have run: "timeout_port X now p cm = Inr cm'"
    using p h1 h2 sock' by (simp add: timeout_port_def get_mut_by_port_eq [OF wf] con_at_def cm'_def)
  have sel: "free_ports cm' = free_ports cm @ [p]" "port2con cm' = (port2con cm)[pidx cm p := con_release ?c']"
    "sock2port cm' = (sock2port cm)(s := None)" "port_mask cm' = port_mask cm"
    "tcp_port_base cm' = tcp_port_base cm" "record_store cm' = record_store cm"
    "rc_next cm' = rc_next cm" "detailed_records cm' = detailed_records cm" "cm_ip cm' = cm_ip cm"
    by (simp_all add: cm'_def)
  have at: "con_at cm' q = (if q = p then con_release ?c' else con_at cm q)" for q
    by (rule con_at_upd [OF p(1) wf sel(5,2)])
  have "cm_inv cm'" by (rule cm_inv_close [OF inv p sock in_use_release sel(1-5)])
  moreover have "det_inv cm'"
    by (rule det_inv_upd [OF det det_conn_release [OF dc] sel(2,6,7,8)])
  ultimately show ?thesis
    using run sel(1,3) by (intro exI [of _ cm'] conjI allI impI) (simp_all add: at same_conf_def sel)
qed

text \<open>After a port was timed out it is not in use, and no other connection changed.\<close>

lemma timeout_port_ok:
  assumes inv: "cm_inv cm" and det: "det_inv cm"
  shows "\<exists>cm'. timeout_port X now p cm = Inr cm' \<and> cm_inv cm' \<and> det_inv cm' \<and> same_conf cm cm' \<and>
    \<not> (owns_tcp_port cm p \<and> in_use (con_at cm' p)) \<and> (\<forall>q. q \<noteq> p \<longrightarrow> con_at cm' q = con_at cm q)"
proof (cases "owns_tcp_port cm p \<and> in_use (con_at cm p)")
  case True
  then obtain s where "sock2port cm s = Some p" using cm_inv_used [OF inv] by metis
  then show ?thesis using timeout_port_used [OF inv det, of p s] True by blast
next
  case False
  have "timeout_port X now p cm = Inr cm"
    by (rule timeout_port_idle [OF cm_inv_wf [OF inv] False])
  then show ?thesis using inv det False by auto
qed

lemma timeout_drain_ok:
  assumes "cm_inv cm" and "det_inv cm"
  shows "\<exists>cm'. timeout_drain X clk ps cm = Inr cm' \<and> cm_inv cm' \<and> det_inv cm' \<and> same_conf cm cm' \<and>
    (\<forall>p \<in> set ps. p \<noteq> 0 \<longrightarrow> \<not> (owns_tcp_port cm p \<and> in_use (con_at cm' p))) \<and>
    (\<forall>q. q \<notin> set ps \<or> q = 0 \<longrightarrow> con_at cm' q = con_at cm q)"
  using assms
proof (induction ps arbitrary: cm clk)
  case Nil
  then show ?case by auto
next
  case (Cons p ps)
  show ?case
  proof (cases "p = 0")
    case True
    then show ?thesis using Cons.IH [OF Cons.prems, of clk] by auto
  next
    case False
    obtain c1 where c1: "timeout_port X (clk 0) p cm = Inr c1" "cm_inv c1" "det_inv c1" "same_conf cm c1"
      "\<not> (owns_tcp_port cm p \<and> in_use (con_at c1 p))" "\<forall>q. q \<noteq> p \<longrightarrow> con_at c1 q = con_at cm q"
      using timeout_port_ok [OF Cons.prems] by blast
    obtain c2 where c2: "timeout_drain X (\<lambda>n. clk (Suc n)) ps c1 = Inr c2" "cm_inv c2" "det_inv c2"
      "same_conf c1 c2" "\<forall>q \<in> set ps. q \<noteq> 0 \<longrightarrow> \<not> (owns_tcp_port c1 q \<and> in_use (con_at c2 q))"
      "\<forall>q. q \<notin> set ps \<or> q = 0 \<longrightarrow> con_at c2 q = con_at c1 q"
      using Cons.IH [OF c1(2,3), of "\<lambda>n. clk (Suc n)"] by blast
    have "timeout_drain X clk (p # ps) cm = Inr c2" using False c1(1) c2(1) by simp
    moreover have "same_conf cm c2" using c1(4) c2(4) by (rule same_conf_trans)
    moreover have "\<forall>q \<in> set (p # ps). q \<noteq> 0 \<longrightarrow> \<not> (owns_tcp_port cm q \<and> in_use (con_at c2 q))"
      using c1(4,5) c2(5,6) by auto
    moreover have "\<forall>q. q \<notin> set (p # ps) \<or> q = 0 \<longrightarrow> con_at c2 q = con_at cm q"
      using c1(6) c2(6) False by auto
    ultimately show ?thesis using c2(2,3) by blast
  qed
qed

lemma wheel_tick_entries:
  assumes "wheel_ok X ent" and "wheel_tick X now w = ((dr, again), w')"
    and "ent w k = Some p" and "p \<notin> set (case dr of None \<Rightarrow> [] | Some ps \<Rightarrow> ps)"
  shows "ent w' k = Some p"
proof -
  obtain K where "ent w' = (\<lambda>k. if k \<in> K then None else ent w k)"
    and "set (case dr of None \<Rightarrow> [] | Some ps \<Rightarrow> ps) = {p. \<exists>k\<in>K. ent w k = Some p}"
    using assms(1,2) unfolding wheel_ok_def by meson
  then show ?thesis using assms(3,4) by auto
qed

lemma drain_wheel_inv:
  assumes "wheel_ok X ent" and "wheel_tick X now w = ((dr, again), w')"
    and inv: "cm_inv cm" and wi: "wheel_inv ent {} cm w"
    and conf: "same_conf cm cm'" and inv': "cm_inv cm'"
    and gone: "\<forall>p \<in> set (case dr of None \<Rightarrow> [] | Some ps \<Rightarrow> ps). p \<noteq> 0 \<longrightarrow> \<not> (owns_tcp_port cm p \<and> in_use (con_at cm' p))"
    and same: "\<forall>q. q \<notin> set (case dr of None \<Rightarrow> [] | Some ps \<Rightarrow> ps) \<or> q = 0 \<longrightarrow> con_at cm' q = con_at cm q"
  shows "wheel_inv ent {} cm' w'"
  unfolding wheel_inv_def
proof (intro allI impI)
  fix q assume own: "owns_tcp_port cm' q" and use: "in_use (con_at cm' q)"
  have "q \<noteq> 0" using cm_inv_used [OF inv' own use] by blast
  then have notin: "q \<notin> set (case dr of None \<Rightarrow> [] | Some ps \<Rightarrow> ps)" using gone own use conf by auto
  then have at: "con_at cm' q = con_at cm q" using same by blast
  have "ent w (wheel_slot_and_index (con_at cm q)) = Some q"
    using wi own use conf by (simp add: wheel_inv_def at)
  then show "ent w' (wheel_slot_and_index (con_at cm' q)) = Some q"
    using wheel_tick_entries [OF assms(1,2)] notin by (simp add: at)
qed

text \<open>The wheel, asked with the same time until it has nothing left to do, hands out the ports \<open>ps\<close>.\<close>

inductive wheel_hands_out ::
  "('cr, 'st, 'w, 'z) mgr_lib_scheme \<Rightarrow> u64 \<Rightarrow> 'w \<Rightarrow> u16 list \<Rightarrow> 'w \<Rightarrow> bool" for X now where
  last_tick: "wheel_tick X now w = ((dr, False), w') \<Longrightarrow> wheel_hands_out X now w (case dr of None \<Rightarrow> [] | Some ps \<Rightarrow> ps) w'"
| next_tick: "wheel_tick X now w = ((dr, True), w1) \<Longrightarrow> wheel_hands_out X now w1 ps w' \<Longrightarrow>
    wheel_hands_out X now w ((case dr of None \<Rightarrow> [] | Some ps \<Rightarrow> ps) @ ps) w'"

text \<open>
  \<open>release_timeouts\<close> returns, since the wheel catches up, and it keeps the invariants. It releases
  exactly the connections whose ports the wheel hands out.
\<close>

lemma release_timeouts_ok:
  assumes "wheel_ok X ent" and "wheel_catches_up X lag"
    and "cm_inv cm" and "det_inv cm" and "wheel_inv ent {} cm w"
  shows "\<exists>cm' w'. release_timeouts X now clk cm w = Some (Inr (cm', w')) \<and> cm_inv cm' \<and> det_inv cm' \<and>
    wheel_inv ent {} cm' w' \<and> same_conf cm cm' \<and>
    (\<forall>q. in_use (con_at cm' q) \<longrightarrow> owns_tcp_port cm q \<longrightarrow> con_at cm' q = con_at cm q) \<and>
    (\<exists>ps. wheel_hands_out X now w ps w' \<and>
      (\<forall>q. owns_tcp_port cm q \<longrightarrow> in_use (con_at cm' q) = (in_use (con_at cm q) \<and> q \<notin> set ps)))"
  using assms(3-5)
proof (induction "lag now w" arbitrary: cm w clk rule: less_induct)
  case less
  obtain dr again w1 where t: "wheel_tick X now w = ((dr, again), w1)" by (metis prod.exhaust)
  let ?ps = "case dr of None \<Rightarrow> [] | Some ps \<Rightarrow> ps"
  obtain c1 where c1: "timeout_drain X clk ?ps cm = Inr c1" "cm_inv c1" "det_inv c1" "same_conf cm c1"
    "\<forall>p \<in> set ?ps. p \<noteq> 0 \<longrightarrow> \<not> (owns_tcp_port cm p \<and> in_use (con_at c1 p))"
    "\<forall>q. q \<notin> set ?ps \<or> q = 0 \<longrightarrow> con_at c1 q = con_at cm q"
    using timeout_drain_ok [OF less.prems(1,2)] by blast
  have w1: "wheel_inv ent {} c1 w1"
    by (rule drain_wheel_inv [OF assms(1) t less.prems(1,3) c1(4,2,5,6)])
  have keep: "con_at c1 q = con_at cm q" if "in_use (con_at c1 q)" "owns_tcp_port cm q" for q
    using that c1(5,6) by blast
  have rel: "in_use (con_at c1 q) = (in_use (con_at cm q) \<and> q \<notin> set ?ps)" if "owns_tcp_port cm q" for q
  proof (cases "q \<in> set ?ps")
    case True
    have "\<not> in_use (con_at cm 0)" if "q = 0" using cm_inv_used [OF less.prems(1)] \<open>owns_tcp_port cm q\<close> that by metis
    then show ?thesis using True c1(5,6) that by (cases "q = 0") auto
  qed (use c1(6) in simp)
  show ?case
  proof (cases again)
    case False
    then have "release_timeouts X now clk cm w = Some (Inr (c1, w1))"
      by (subst release_timeouts.simps) (simp add: t c1(1))
    moreover have "wheel_hands_out X now w ?ps w1" using t False by (simp add: last_tick)
    ultimately show ?thesis using c1(2,3,4) w1 keep rel by blast
  next
    case True
    have lg: "lag now w1 < lag now w" using assms(2) t True by (auto simp: wheel_catches_up_def)
    obtain c2 w2 qs where c2: "release_timeouts X now (\<lambda>n. clk (n + length ?ps)) c1 w1 = Some (Inr (c2, w2))"
      "cm_inv c2" "det_inv c2" "wheel_inv ent {} c2 w2" "same_conf c1 c2"
      "\<forall>q. in_use (con_at c2 q) \<longrightarrow> owns_tcp_port c1 q \<longrightarrow> con_at c2 q = con_at c1 q"
      "wheel_hands_out X now w1 qs w2"
      "\<forall>q. owns_tcp_port c1 q \<longrightarrow> in_use (con_at c2 q) = (in_use (con_at c1 q) \<and> q \<notin> set qs)"
      using less.hyps [OF lg c1(2,3) w1, of "\<lambda>n. clk (n + length ?ps)"] by (elim exE conjE)
    have qs: "wheel_hands_out X now w1 qs w2"
      "\<forall>q. owns_tcp_port cm q \<longrightarrow> in_use (con_at c2 q) = (in_use (con_at c1 q) \<and> q \<notin> set qs)"
      using c1(4) c2(7,8) by simp_all
    have "wheel_hands_out X now w (?ps @ qs) w2" using t True qs(1) by (simp add: next_tick)
    moreover have "\<forall>q. owns_tcp_port cm q \<longrightarrow> in_use (con_at c2 q) = (in_use (con_at cm q) \<and> q \<notin> set (?ps @ qs))"
      using qs(2) rel by simp
    ultimately have ex: "\<exists>ps. wheel_hands_out X now w ps w2 \<and>
        (\<forall>q. owns_tcp_port cm q \<longrightarrow> in_use (con_at c2 q) = (in_use (con_at cm q) \<and> q \<notin> set ps))" by blast
    have "release_timeouts X now clk cm w = Some (Inr (c2, w2))"
      using True c2(1) by (subst release_timeouts.simps) (simp add: t c1(1))
    moreover have "\<forall>q. in_use (con_at c2 q) \<longrightarrow> owns_tcp_port cm q \<longrightarrow> con_at c2 q = con_at cm q"
      using c2(6) keep c1(4) by (metis same_conf_owns)
    ultimately show ?thesis
      using c2(2-4) same_conf_trans [OF c1(4) c2(5)] ex by blast
  qed
qed

section \<open>Handing over the record store\<close>

lemma holds_store_released [simp]: "\<not> holds_store r (con_release c)"
  by (cases "detailed_c c") (simp_all add: holds_store_def con_release_def dc_release_def)

lemma strong_count_released: "strong_count r (map con_release cs) = 1"
  by (simp add: strong_count_def filter_empty_conv)

lemma strong_count_one: "strong_count r cs = 1 \<longleftrightarrow> (\<forall>c \<in> set cs. \<not> holds_store r c)"
  by (simp add: strong_count_def filter_empty_conv)

lemma fetch_c_records_eq:
  "fetch_c_records X cm =
     (Some (((rc_heap cm)(rc_next cm := st_with_capacity X MAX_RECORDS)) (record_store cm)),
      cm\<lparr>rc_heap := (rc_heap cm)(rc_next cm := st_with_capacity X MAX_RECORDS),
         rc_next := rc_next cm + 1, record_store := rc_next cm,
         port2con := if strong_count (record_store cm) (port2con cm) = 1 then port2con cm
                     else map con_release (port2con cm)\<rparr>)"
proof -
  have "strong_count (record_store cm) (port2con cm) > 1 \<longleftrightarrow> strong_count (record_store cm) (port2con cm) \<noteq> 1"
    by (simp add: strong_count_def)
  then show ?thesis by (simp add: fetch_c_records_def Let_def strong_count_released)
qed

section \<open>Writing a connection back\<close>

text \<open>
  The packet handler works on a connection in place. Writing it back keeps the invariants when its
  port, its client socket and its details are those it had; with a new timer entry, the wheel has
  that entry for it.
\<close>

lemma put_con_sel [simp]:
  "free_ports (put_con i ch cm) = free_ports cm"
  "sock2port (put_con i ch cm) = sock2port cm"
  "port_mask (put_con i ch cm) = port_mask cm"
  "tcp_port_base (put_con i ch cm) = tcp_port_base cm"
  "record_store (put_con i ch cm) = record_store cm"
  "rc_next (put_con i ch cm) = rc_next cm"
  "detailed_records (put_con i ch cm) = detailed_records cm"
  "port2con (put_con i (c, h) cm) = (port2con cm)[i := c]"
  "rc_heap (put_con i (c, h) cm) = h"
  "same_conf cm (put_con i ch cm)"
  "owns_tcp_port (put_con i ch cm) p = owns_tcp_port cm p"
  "pidx (put_con i ch cm) p = pidx cm p"
  by (simp_all add: put_con_def same_conf_def owns_tcp_port_def pidx_def split: prod.split)

lemma put_con_at:
  assumes "table_wf cm" and "owns_tcp_port cm p"
  shows "con_at (put_con (pidx cm p) (c, h) cm) q = (if q = p then c else con_at cm q)"
  by (rule con_at_upd [OF assms(2,1)]) simp_all

lemma put_con_inv:
  assumes inv: "cm_inv cm" and det: "det_inv cm" and p: "owns_tcp_port cm p"
    and c: "proxy_port c = proxy_port (con_at cm p)" "con_sock c = con_sock (con_at cm p)"
      "detailed_c c = detailed_c (con_at cm p)"
  shows "cm_inv (put_con (pidx cm p) (c, h) cm)" and "det_inv (put_con (pidx cm p) (c, h) cm)"
proof -
  show "cm_inv (put_con (pidx cm p) (c, h) cm)" by (rule cm_inv_write [OF inv p c(1,2)]) simp_all
  have "det_conn (detailed_records cm) (record_store cm) c"
    using det_at [OF det cm_inv_wf [OF inv] p] unfolding det_conn_def in_use_def c .
  then show "det_inv (put_con (pidx cm p) (c, h) cm)" by (rule det_inv_upd [OF det]) simp_all
qed

lemma put_con_wheel:
  assumes wf: "table_wf cm" and p: "owns_tcp_port cm p" and wi: "wheel_inv ent {} cm w"
    and c: "proxy_port c = proxy_port (con_at cm p)"
      "wheel_slot_and_index c = wheel_slot_and_index (con_at cm p)"
  shows "wheel_inv ent {} (put_con (pidx cm p) (c, h) cm) w"
  using wi p c by (auto simp: wheel_inv_def put_con_at [OF wf p] in_use_def)

lemma put_con_scheduled:
  assumes wf: "table_wf cm" and p: "owns_tcp_port cm p" and wi: "wheel_inv ent {p} cm w"
    and wh: "wheel_ok X ent" "wheel_load ent w < 2 ^ 16" "wheel_schedule X d p w = (k, w')"
    and c: "wheel_slot_and_index c = k"
  shows "wheel_inv ent {} (put_con (pidx cm p) (c, h) cm) w'"
  using wi p c wheel_schedule_entries [OF wh] by (auto simp: wheel_inv_def put_con_at [OF wf p])

lemma wheel_inv_insert:
  assumes "wheel_inv ent {} cm w" and "same_conf cm cm'" and "\<forall>q. q \<noteq> p \<longrightarrow> con_at cm' q = con_at cm q"
  shows "wheel_inv ent {p} cm' w"
  using assms by (auto simp: wheel_inv_def)

end
