(* ===== verification/Pipeline_Inv.thy ===== *)
theory Pipeline_Inv
  imports Pipeline Forward_Lemmas Manager_Release
begin

text \<open>
  The packet handlers of the pipeline do not panic and keep the invariants of the connection table,
  when detailed records are off and the environment behaves as \<open>env_ok\<close> says: the packet library is
  \<open>net_ok\<close>, packet buffers can be allocated, there is a server, the configured timeout does not
  overflow, and the two user callbacks keep to the fields they are meant to write.
\<close>

section \<open>Hypotheses and invariants\<close>

text \<open>
  The callback that selects the server may reject a payload; if it returns, it has at most rewritten
  the saved payload packet and set the server index, and it never makes a valid index invalid. The
  callback that processes payload bytes keeps the fields the proxy identifies the connection by.
\<close>

definition select_ok :: "'m pcfg \<Rightarrow> bool" where
  "select_ok cfg \<longleftrightarrow> (\<forall>c b c'. payload_packet c = Some b \<longrightarrow> f_select_server cfg c = Inr c' \<longrightarrow>
     (\<exists>b' i. c' = c\<lparr>payload_packet := Some b', server_index := i\<rparr> \<and> refcnt b' = refcnt b \<and>
       (unat (server_index c) < length (servers cfg) \<longrightarrow> unat i < length (servers cfg))))"

text \<open>The callback accepts packet \<open>p\<close> as the first payload packet of connection \<open>c\<close>.\<close>

definition selectable :: "'m pcfg \<Rightarrow> 'm conn \<Rightarrow> 'm pdu_scheme \<Rightarrow> bool" where
  "selectable cfg c p \<longleftrightarrow> no_panic (f_select_server cfg (c\<lparr>payload_packet := Some (p\<lparr>refcnt := refcnt p + 1\<rparr>)\<rparr>))"

text \<open>A packet that \<open>client_tcp\<close> takes for the first payload packet is one the callback accepts.\<close>

definition bind_ok :: "'m pcfg \<Rightarrow> tcp_hdr \<Rightarrow> tcp_state \<Rightarrow> tcp_state \<Rightarrow> 'm conn \<Rightarrow> 'm pdu_scheme \<Rightarrow> bool" where
  "bind_ok cfg tcp old_c old_s c p \<longleftrightarrow> (old_c = Established \<and> old_s = Listen \<and> \<not> syn_flag tcp \<and> \<not> fin_flag tcp \<and> \<not> rst_flag tcp \<longrightarrow>
     selectable cfg c p)"

definition process_ok :: "'m pcfg \<Rightarrow> bool" where
  "process_ok cfg \<longleftrightarrow> (\<forall>c bs n. let c' = fst (f_process_payload_c_s cfg c bs n) in
     proxy_port c' = proxy_port c \<and> client_ip c' = client_ip c \<and> client_port c' = client_port c \<and>
     detailed_c c' = detailed_c c \<and> payload_packet c' = payload_packet c \<and>
     wheel_slot_and_index c' = wheel_slot_and_index c \<and> server_index c' = server_index c \<and>
     client_state c' = client_state c \<and> server_state c' = server_state c \<and>
     c_seqn c' = c_seqn c \<and> c2s_inserted_bytes c' = c2s_inserted_bytes c)"

definition env_ok :: "('cr, 'st, 'w, 'm, 'z) net_lib_scheme \<Rightarrow> 'm pcfg \<Rightarrow> bool" where
  "env_ok X cfg \<longleftrightarrow> net_ok X \<and> codes_ok X \<and> select_ok cfg \<and> process_ok cfg \<and> servers cfg \<noteq> [] \<and>
     (\<forall>n. \<exists>b. new_pdu_array X n = Some b \<and> b \<noteq> []) \<and>
     (\<exists>t. timeouts_established cfg = Some t \<and> unat t * unat (cpu_clock cfg) < 2 ^ 64) \<and>
     wheel_tick_reduction_factor cfg \<noteq> 0"

text \<open>
  A connection of the table: its saved payload packet is the only handle to its buffer, its server
  index is valid, and the count of inserted bytes can be negated.
\<close>

definition con_ok :: "'m pcfg \<Rightarrow> 'm conn \<Rightarrow> bool" where
  "con_ok cfg c \<longleftrightarrow> (\<forall>b. payload_packet c = Some b \<longrightarrow> refcnt b = 1) \<and>
     unat (server_index c) < length (servers cfg) \<and> sint (c2s_inserted_bytes c) \<noteq> - (2 ^ 31)"

definition alloc_ok :: "'m allocator \<Rightarrow> bool" where
  "alloc_ok a \<longleftrightarrow> pdu_batch a \<noteq> None"

definition frame_ok ::
  "'m pcfg \<Rightarrow> u16 \<Rightarrow> sock \<Rightarrow> u16 \<times> u16 \<Rightarrow> 'w \<Rightarrow> ('st, 'w, 'm) frame \<Rightarrow> bool" where
  "frame_ok cfg port s k w f \<longleftrightarrow>
     detailed_c (f_con f) = None \<and> proxy_port (f_con f) = port \<and> con_sock (f_con f) = Some s \<and>
     wheel_slot_and_index (f_con f) = k \<and> f_wheel f = w \<and> con_ok cfg (f_con f) \<and>
     alloc_ok (f_alloc f) \<and> (f_release f = None \<or> f_release f = Some port) \<and> f_group f \<le> 2"

definition table_ok :: "'m pcfg \<Rightarrow> ('st, 'm) cmanager \<Rightarrow> bool" where
  "table_ok cfg cm \<longleftrightarrow> (\<forall>q. owns_tcp_port cm q \<longrightarrow> in_use (con_at cm q) \<longrightarrow> con_ok cfg (con_at cm q))"

definition pipe_inv ::
  "('cr, 'st, 'w, 'm, 'z) net_lib_scheme \<Rightarrow> 'm pcfg \<Rightarrow> ('w \<Rightarrow> u16 \<times> u16 \<Rightarrow> u16 option) \<Rightarrow>
   ('st, 'w, 'm) pipe \<Rightarrow> bool" where
  "pipe_inv X cfg ent W \<longleftrightarrow>
     cm_inv (p_cm W) \<and> det_inv (p_cm W) \<and> \<not> detailed_records (p_cm W) \<and> wheel_inv ent {} (p_cm W) (p_wheel W) \<and>
     table_ok cfg (p_cm W) \<and> alloc_ok (p_alloc W)"

section \<open>Steps on a frame\<close>

lemma on_con_plain [simp]:
  assumes "detailed_c (f_con f) = None"
  shows "on_con (c_push_state X t st) f = Inr (f\<lparr>f_con := (f_con f)\<lparr>client_state := state_as_u8 X st\<rparr>\<rparr>)"
    and "on_con (s_push_state X t st) f = Inr (f\<lparr>f_con := (f_con f)\<lparr>server_state := state_as_u8 X st\<rparr>\<rparr>)"
    and "on_con (set_release_cause X r) f = Inr f"
    and "on_con (s_set_release_cause X r) f = Inr f"
    and "on_con (s_init X) f = Inr f"
  using assms by (simp_all add: on_con_def s_init_def)

lemma count_sel [simp]:
  "f_con (count_c a f) = f_con f" "f_con (count_s a f) = f_con f"
  "f_pdu (count_c a f) = f_pdu f" "f_pdu (count_s a f) = f_pdu f"
  "f_wheel (count_c a f) = f_wheel f" "f_wheel (count_s a f) = f_wheel f"
  "f_alloc (count_c a f) = f_alloc f" "f_alloc (count_s a f) = f_alloc f"
  "f_release (count_c a f) = f_release f" "f_release (count_s a f) = f_release f"
  "f_producer (count_c a f) = f_producer f" "f_producer (count_s a f) = f_producer f"
  "f_heap (count_c a f) = f_heap f" "f_heap (count_s a f) = f_heap f"
  "f_group (count_c a f) = f_group f" "f_group (count_s a f) = f_group f"
  "f_unexpected (count_c a f) = f_unexpected f" "f_unexpected (count_s a f) = f_unexpected f"
  by (simp_all add: count_c_def count_s_def)

lemma frame_ok_cong:
  assumes "frame_ok cfg port s k w f"
    and "detailed_c (f_con f') = detailed_c (f_con f)" "proxy_port (f_con f') = proxy_port (f_con f)"
      "client_ip (f_con f') = client_ip (f_con f)" "client_port (f_con f') = client_port (f_con f)"
      "wheel_slot_and_index (f_con f') = wheel_slot_and_index (f_con f)" "f_wheel f' = f_wheel f"
      "con_ok cfg (f_con f')" "alloc_ok (f_alloc f')" "f_release f' = None \<or> f_release f' = Some port"
      "f_group f' \<le> 2"
  shows "frame_ok cfg port s k w f'"
  using assms by (auto simp: frame_ok_def con_sock_def)

lemma frame_okD:
  assumes "frame_ok cfg port s k w f"
  shows "detailed_c (f_con f) = None" "proxy_port (f_con f) = port" "con_sock (f_con f) = Some s"
    "con_ok cfg (f_con f)" "alloc_ok (f_alloc f)" "f_release f = None \<or> f_release f = Some port"
    "f_group f \<le> 2"
  using assms by (auto simp: frame_ok_def)

lemma frame_ok_con_upd [simp]:
  "frame_ok cfg port s k w (f\<lparr>f_con := (f_con f)\<lparr>client_state := x\<rparr>\<rparr>) = frame_ok cfg port s k w f"
  "frame_ok cfg port s k w (f\<lparr>f_con := (f_con f)\<lparr>server_state := x\<rparr>\<rparr>) = frame_ok cfg port s k w f"
  "frame_ok cfg port s k w (f\<lparr>f_con := (f_con f)\<lparr>seqn := y\<rparr>\<rparr>) = frame_ok cfg port s k w f"
  "frame_ok cfg port s k w (f\<lparr>f_con := (f_con f)\<lparr>client_state := x, server_state := x'\<rparr>\<rparr>) = frame_ok cfg port s k w f"
  "frame_ok cfg port s k w (f\<lparr>f_con := (f_con f)\<lparr>server_state := x, client_state := x'\<rparr>\<rparr>) = frame_ok cfg port s k w f"
  "frame_ok cfg port s k w (count_c a f) = frame_ok cfg port s k w f"
  "frame_ok cfg port s k w (count_s a f) = frame_ok cfg port s k w f"
  "frame_ok cfg port s k w f \<Longrightarrow> g \<le> 2 \<Longrightarrow> frame_ok cfg port s k w (f\<lparr>f_group := g\<rparr>)"
  "frame_ok cfg port s k w (f\<lparr>f_unexpected := b\<rparr>) = frame_ok cfg port s k w f"
  "frame_ok cfg port s k w (f\<lparr>f_pdu := p\<rparr>) = frame_ok cfg port s k w f"
  by (auto simp: frame_ok_def con_ok_def con_sock_def)

text \<open>A branch keeps the frame if it returns and leaves the identity of the connection alone.\<close>

definition keeps_frame ::
  "(('st, 'w, 'm) frame \<Rightarrow> ('st, 'w, 'm) frame res) \<Rightarrow> 'm pcfg \<Rightarrow> ('st, 'w, 'm) frame \<Rightarrow> bool" where
  "keeps_frame g cfg f \<longleftrightarrow> (\<forall>port s k w. frame_ok cfg port s k w f \<longrightarrow>
     (\<exists>f'. g f = Inr f' \<and> frame_ok cfg port s k w f'))"

lemmas branch_defs = keeps_frame_def frame_ok_def con_ok_def con_sock_def con_port_def Let_def

lemma client_branches_keep:
  "keeps_frame (client_handshake_ack X clk) cfg f"
  "keeps_frame (client_fin_passive X clk tcp old_s) cfg f"
  "keeps_frame (client_fin_active X clk old_s) cfg f"
  "keeps_frame (client_rst X clk) cfg f"
  "keeps_frame (client_ack4fin X clk old_c old_s) cfg f"
  "keeps_frame (client_final_ack X clk) cfg f"
  "keeps_frame (\<lambda>f. Inr (client_unexpected f)) cfg f"
proof -
  show "keeps_frame (client_handshake_ack X clk) cfg f"
    by (auto simp: branch_defs client_handshake_ack_def)
  show "keeps_frame (client_fin_passive X clk tcp old_s) cfg f"
    by (auto simp: branch_defs client_fin_passive_def)
  show "keeps_frame (client_fin_active X clk old_s) cfg f"
    by (auto simp: branch_defs client_fin_active_def client_fin_unbound_def)
  show "keeps_frame (client_rst X clk) cfg f"
    by (auto simp: branch_defs client_rst_def)
  show "keeps_frame (client_ack4fin X clk old_c old_s) cfg f"
    by (cases old_s; cases old_c) (auto simp: branch_defs client_ack4fin_def)
  show "keeps_frame (client_final_ack X clk) cfg f"
    by (auto simp: branch_defs client_final_ack_def)
  show "keeps_frame (\<lambda>f. Inr (client_unexpected f)) cfg f"
    by (auto simp: branch_defs client_unexpected_def)
qed

lemma server_branches_keep:
  "keeps_frame (server_fin X clk tcp old_c) cfg f"
  "keeps_frame (server_ack4fin X clk tcp old_c) cfg f"
proof -
  show "keeps_frame (server_fin X clk tcp old_c) cfg f"
    by (auto simp: branch_defs server_fin_def)
  show "keeps_frame (server_ack4fin X clk tcp old_c) cfg f"
    by (cases old_c) (auto simp: branch_defs server_ack4fin_def)
qed

section \<open>Delayed binding on a frame\<close>

lemma get_pdu_ok:
  assumes "\<forall>n. \<exists>b. new_pdu_array X n = Some b \<and> b \<noteq> []" and "alloc_ok a"
  shows "\<exists>p a'. get_pdu X a = (Some p, a') \<and> alloc_ok a'"
proof -
  obtain batch where b: "pdu_batch a = Some batch" using assms(2) by (auto simp: alloc_ok_def)
  obtain nb where "new_pdu_array X (alloc_calls a) = Some nb" "nb \<noteq> []" using assms(1) by blast
  with b show ?thesis by (simp add: get_pdu_def vec_pop_def alloc_ok_def)
qed

lemma small_difference:
  assumes "a < 2 ^ 16" and "b < 2 ^ 16"
  shows "sint (of_nat a - of_nat b :: i32) \<noteq> - (2 ^ 31)"
proof -
  have *: "sint (of_nat n :: i32) = int n" if "n < 2 ^ 16" for n
    using that by (simp add: signed_of_nat signed_take_bit_int_eq_self)
  have "sint (of_nat a - of_nat b :: i32) = int a - int b"
    using assms * by (subst sint_word_ariths) (simp add: signed_take_bit_int_eq_self)
  then show ?thesis using assms by simp
qed

lemma select_okD:
  assumes "select_ok cfg" and "payload_packet c = Some b" and "f_select_server cfg c = Inr c'"
  obtains b' i where "c' = c\<lparr>payload_packet := Some b', server_index := i\<rparr>"
    and "refcnt b' = refcnt b" and "unat (server_index c) < length (servers cfg) \<Longrightarrow> unat i < length (servers cfg)"
  using assms unfolding select_ok_def by blast

lemma selectableD:
  assumes "select_ok cfg" and "selectable cfg c p" and "unat (server_index c) < length (servers cfg)"
  obtains b i where "f_select_server cfg (c\<lparr>payload_packet := Some (p\<lparr>refcnt := refcnt p + 1\<rparr>)\<rparr>) =
      Inr (c\<lparr>payload_packet := Some b, server_index := i\<rparr>)"
    and "refcnt b = refcnt p + 1" and "unat i < length (servers cfg)"
proof -
  let ?c = "c\<lparr>payload_packet := Some (p\<lparr>refcnt := refcnt p + 1\<rparr>)\<rparr>"
  obtain c' where c': "f_select_server cfg ?c = Inr c'" using assms(2) by (auto simp: selectable_def no_panic_def)
  obtain b i where "c' = ?c\<lparr>payload_packet := Some b, server_index := i\<rparr>" "refcnt b = refcnt p + 1" "unat i < length (servers cfg)"
    using assms(1) [unfolded select_ok_def, rule_format, OF _ c', of "p\<lparr>refcnt := refcnt p + 1\<rparr>"] assms(3) by auto
  then show ?thesis using that [where b = b and i = i] c' by simp
qed

lemma first_payload_keeps:
  assumes env: "env_ok X cfg" and ref: "refcnt (f_pdu f) = 1" and acc: "selectable cfg (f_con f) (f_pdu f)"
  shows "keeps_frame (client_first_payload X cfg clk) cfg f"
  unfolding keeps_frame_def
proof (intro allI impI)
  fix port s k w assume fr: "frame_ok cfg port s k w f"
  have net: "net_ok X" using env by (simp add: env_ok_def)
  obtain syn a where a: "get_pdu X (f_alloc f) = (Some syn, a)" "alloc_ok a"
    using get_pdu_ok [of X "f_alloc f"] frame_okD(5) [OF fr] env by (auto simp: env_ok_def)
  let ?p = "f_pdu f" let ?q = "(f_pdu f)\<lparr>refcnt := refcnt (f_pdu f) + 1\<rparr>" and ?c = "f_con f"
  obtain b i where b: "f_select_server cfg (?c\<lparr>payload_packet := Some ?q\<rparr>) =
      Inr (?c\<lparr>payload_packet := Some b, server_index := i\<rparr>)" "refcnt b = 2" "unat i < length (servers cfg)"
    by (rule selectableD [OF _ acc]) (use env ref frame_okD(4) [OF fr] in \<open>simp_all add: env_ok_def con_ok_def\<close>)
  obtain p' b' where sel: "select_server X (me cfg) (servers cfg) (f_select_server cfg) syn ?p ?c =
      Inr (p', ?c\<lparr>server_index := i, payload_packet := Some b', seqn := seq_num (tcp_h b) - 1,
        c2s_inserted_bytes := of_nat (tcp_payload_size X b) - of_nat (tcp_payload_size X ?q)\<rparr>)"
    and "refcnt b' = 1"
    using select_server_ok [where f = "f_select_server cfg" and p = ?p and c = ?c and b = b and srvs = "servers cfg"
        and m = "me cfg" and syn = syn, OF net b(1)] b(2,3)
    by (auto simp: con_server_index_def)
  moreover have "sint (of_nat (tcp_payload_size X b) - of_nat (tcp_payload_size X ?q) :: i32) \<noteq> - (2 ^ 31)"
    by (rule small_difference [OF net_size [OF net] net_size [OF net]])
  ultimately show "\<exists>f'. client_first_payload X cfg clk f = Inr f' \<and> frame_ok cfg port s k w f'"
    using fr a b(3) by (auto simp: client_first_payload_def Let_def frame_ok_def con_ok_def con_sock_def)
qed

lemma synack_keeps:
  assumes env: "env_ok X cfg"
  shows "keeps_frame (server_synack X clk old_s) cfg f"
  unfolding keeps_frame_def
proof (intro allI impI)
  fix port s k w assume fr: "frame_ok cfg port s k w f"
  have net: "net_ok X" using env by (simp add: env_ok_def)
  define f1 where "f1 = (count_s RecvSynAck f)\<lparr>f_con := (f_con f)\<lparr>server_state := state_as_u8 X Established\<rparr>\<rparr>"
  have fr1: "frame_ok cfg port s k w f1"
    using fr by (auto simp: f1_def frame_ok_def con_ok_def con_sock_def)
  have "\<exists>p' c' q. server_synack_received X (f_pdu f1) (f_con f1) (f_producer f1) = Inr (p', c', q) \<and>
      frame_ok cfg port s k w (f1\<lparr>f_pdu := p', f_con := c', f_producer := q\<rparr>)"
  proof (cases "payload_packet (f_con f1)")
    case None
    obtain p' where r: "server_synack_received X (f_pdu f1) (f_con f1) (f_producer f1) = Inr (p',
        (f_con f1)\<lparr>c_seqn := c_seqn (f_con f1) - seq_num (tcp_h (f_pdu f1)), seqn := seqn (f_con f1) + 1\<rparr>,
        f_producer f1 @ [p'])"
      using synack_plain [OF net None, of "f_pdu f1" "f_producer f1"] by blast
    show ?thesis
      by (rule exI, rule exI, rule exI, rule conjI [OF r], rule frame_ok_cong [OF fr1])
        (use frame_okD(4-7) [OF fr1] in \<open>simp_all add: con_ok_def\<close>)
  next
    case (Some b)
    then have "refcnt b = 1" using frame_okD(4) [OF fr1] by (simp add: con_ok_def)
    then obtain p' b' where r: "server_synack_received X (f_pdu f1) (f_con f1) (f_producer f1) = Inr (p',
        (f_con f1)\<lparr>c_seqn := c_seqn (f_con f1) - seq_num (tcp_h (f_pdu f1)), seqn := seqn (f_con f1) + 1,
          payload_packet := None, ackn_p2s := seq_num (tcp_h (f_pdu f1)) + 1\<rparr>, f_producer f1 @ [p', b'])"
      using synack_payload [OF net Some, of "f_pdu f1" "f_producer f1"] by blast
    show ?thesis
      by (rule exI, rule exI, rule exI, rule conjI [OF r], rule frame_ok_cong [OF fr1])
        (use frame_okD(4-7) [OF fr1] in \<open>simp_all add: con_ok_def\<close>)
  qed
  then obtain p' c' q where r: "server_synack_received X (f_pdu f1) (f_con f1) (f_producer f1) = Inr (p', c', q)"
    and ok: "frame_ok cfg port s k w (f1\<lparr>f_pdu := p', f_con := c', f_producer := q\<rparr>)" by blast
  have "on_con (s_push_state X (clk 0) Established) (count_s RecvSynAck f) = Inr f1"
    using frame_okD(1) [OF fr] by (simp add: f1_def)
  then show "\<exists>f'. server_synack X clk old_s f = Inr f' \<and> frame_ok cfg port s k w f'"
    using r ok fr by (simp add: server_synack_def Let_def)
qed

lemma client_syn_keeps:
  assumes env: "env_ok X cfg" and fr: "frame_ok cfg port s k w f"
  shows "\<exists>f' k' w'. client_syn X cfg clk old_c f = Inr f' \<and> frame_ok cfg port s k' w' f' \<and>
    (if old_c = Closed then \<exists>d. wheel_schedule X d port w = (k', w') else k' = k \<and> w' = w)"
proof (cases "old_c = Closed")
  case True
  obtain t where t: "timeouts_established cfg = Some t" "unat t * unat (cpu_clock cfg) < 2 ^ 64"
    using env by (auto simp: env_ok_def)
  obtain k' w' where sch: "wheel_schedule X (t * cpu_clock cfg div 1000) port w = (k', w')" by fastforce
  have "mul_w (overflow_checks X) t (cpu_clock cfg) = Inr (t * cpu_clock cfg)"
    by (rule mul_w_ok) (use t(2) in simp)
  then show ?thesis
    using True t(1) sch fr
    by (auto simp: client_syn_def client_syn_received_def Let_def frame_ok_def con_ok_def con_sock_def con_port_def
        intro!: exI [of _ "t * cpu_clock cfg div 1000"])
next
  case False
  then have "client_syn X cfg clk old_c f = Inr f" by (simp add: client_syn_def)
  then show ?thesis using fr False by (intro exI [of _ f] exI [of _ k] exI [of _ w]) simp
qed

section \<open>Forwarding on a frame\<close>

lemma client_to_server_keeps:
  assumes env: "env_ok X cfg" and fr: "frame_ok cfg port s k w f"
  shows "\<exists>p' c'. client_to_server X (me cfg) (servers cfg) (f_process_payload_c_s cfg) (f_pdu f) (f_con f) = Inr (p', c') \<and>
    frame_ok cfg port s k w (f\<lparr>f_pdu := p', f_con := c'\<rparr>)"
proof -
  let ?c = "f_con f"
  have keep: "\<And>bs n. let c' = fst (f_process_payload_c_s cfg ?c bs n) in
     proxy_port c' = proxy_port ?c \<and> client_ip c' = client_ip ?c \<and> client_port c' = client_port ?c \<and>
     detailed_c c' = detailed_c ?c \<and> payload_packet c' = payload_packet ?c \<and>
     wheel_slot_and_index c' = wheel_slot_and_index ?c \<and> server_index c' = server_index ?c \<and>
     client_state c' = client_state ?c \<and> server_state c' = server_state ?c \<and>
     c_seqn c' = c_seqn ?c \<and> c2s_inserted_bytes c' = c2s_inserted_bytes ?c"
    using env by (simp add: env_ok_def process_ok_def)
  obtain c1 bs where pp: "f_process_payload_c_s cfg ?c (payload (f_pdu f)) (get_tailroom X (f_pdu f)) = (c1, bs)"
    by fastforce
  have c1: "frame_ok cfg port s k w (f\<lparr>f_con := c1\<rparr>)"
    by (rule frame_ok_cong [OF fr])
      (use keep [of "payload (f_pdu f)" "get_tailroom X (f_pdu f)"] frame_okD(4-7) [OF fr] in
        \<open>simp_all add: pp Let_def con_ok_def\<close>)
  define c2 p2 where "c2 = (if tcp_payload_size X (f_pdu f) > 0 then c1 else ?c)"
    and "p2 = (if tcp_payload_size X (f_pdu f) > 0 then (f_pdu f)\<lparr>payload := bs\<rparr> else f_pdu f)"
  have c2: "frame_ok cfg port s k w (f\<lparr>f_con := c2\<rparr>)" using c1 fr by (simp add: c2_def)
  have ok: "con_server_index c2 < length (servers cfg)" "sint (c2s_inserted_bytes c2) \<noteq> - (2 ^ 31)"
    using c2 by (simp_all add: frame_ok_def con_ok_def con_server_index_def)
  have "client_to_server X (me cfg) (servers cfg) (f_process_payload_c_s cfg) (f_pdu f) ?c =
      client_to_server X (me cfg) (servers cfg) (\<lambda>_ _ _. (c2, payload p2)) p2 c2"
    using pp by (simp add: client_to_server_def c2_def p2_def)
  also have "\<exists>p' c'. \<dots> = Inr (p', c') \<and> frame_ok cfg port s k w (f\<lparr>f_pdu := p', f_con := c'\<rparr>)"
    using c2 ok by (auto simp: client_to_server_def Let_def seq_forward_eq frame_ok_def con_ok_def con_sock_def)
  finally show ?thesis .
qed

lemma server_to_client_keeps:
  assumes env: "env_ok X cfg" and fr: "frame_ok cfg port s k w f"
  shows "\<exists>p' c'. server_to_client X (me cfg) (f_pdu f) (f_con f) = Inr (p', c') \<and>
    frame_ok cfg port s k w (f\<lparr>f_pdu := p', f_con := c'\<rparr>)"
proof -
  have net: "net_ok X" using env by (simp add: env_ok_def)
  have "add_w ch (of_nat (tcp_payload_size X p)) (1 :: u32) = Inr (of_nat (tcp_payload_size X p) + 1)" for ch p
    using net_size [OF net, of p] by (intro add_w_ok) (simp add: unat_of_nat)
  then show ?thesis
    using frame_okD(3,4) [OF fr] fr
    by (auto simp: server_to_client_def Let_def ack_backward_eq frame_ok_def con_ok_def con_sock_def split: if_splits)
qed

section \<open>Whole handlers\<close>

text \<open>A SYN that opens a connection schedules its timeout; no other packet of a connection touches the wheel.\<close>

definition wheel_step ::
  "('cr, 'st, 'w, 'z) mgr_lib_scheme \<Rightarrow> bool \<Rightarrow> u16 \<Rightarrow> (u16 \<times> u16) \<times> 'w \<Rightarrow> (u16 \<times> u16) \<times> 'w \<Rightarrow> bool" where
  "wheel_step X sched port kw kw' \<longleftrightarrow>
     (if sched then \<exists>d. wheel_schedule X d port (snd kw) = kw' else kw' = kw)"

lemma keeps_frameD:
  assumes "keeps_frame g cfg f" and "frame_ok cfg port s k w f"
  shows "\<exists>f' k' w'. g f = Inr f' \<and> frame_ok cfg port s k' w' f' \<and> wheel_step X False port (k, w) (k', w')"
proof -
  obtain f' where "g f = Inr f'" "frame_ok cfg port s k w f'" using assms unfolding keeps_frame_def by blast
  then show ?thesis by (intro exI [of _ f'] exI [of _ k] exI [of _ w]) (simp add: wheel_step_def)
qed

lemma keeps_frame_if:
  assumes "b f \<Longrightarrow> keeps_frame g cfg f" and "\<not> b f \<Longrightarrow> keeps_frame h cfg f"
  shows "keeps_frame (\<lambda>f. if b f then g f else h f) cfg f"
  using assms by (simp add: keeps_frame_def)

lemma keeps_frame_id: "keeps_frame Inr cfg f"
  by (simp add: keeps_frame_def)

lemma client_tcp_keeps:
  assumes env: "env_ok X cfg" and fr: "frame_ok cfg port s k w f" and ref: "refcnt (f_pdu f) = 1"
    and acc: "bind_ok cfg tcp old_c old_s (f_con f) (f_pdu f)"
  shows "\<exists>f' k' w'. client_tcp X cfg clk tcp old_c old_s f = Inr f' \<and> frame_ok cfg port s k' w' f' \<and>
    wheel_step X (old_c = Closed \<and> syn_flag tcp) port (k, w) (k', w')"
proof (cases "syn_flag tcp \<and> \<not> (old_c \<noteq> Closed \<and> seq_num tcp < ackn_p2c (f_con f))")
  case True
  obtain f' k' w' where r: "client_syn X cfg clk old_c f = Inr f'" "frame_ok cfg port s k' w' f'"
    "if old_c = Closed then \<exists>d. wheel_schedule X d port w = (k', w') else k' = k \<and> w' = w"
    using client_syn_keeps [OF env fr] by blast
  have "client_tcp X cfg clk tcp old_c old_s f = Inr f'" using True r(1) by (auto simp: client_tcp_def)
  moreover have "wheel_step X (old_c = Closed \<and> syn_flag tcp) port (k, w) (k', w')"
    using r(3) True by (auto simp: wheel_step_def split: if_splits)
  ultimately show ?thesis using r(2) by blast
next
  case False
  have "keeps_frame (client_tcp X cfg clk tcp old_c old_s) cfg f"
    unfolding client_tcp_def client_fin_def
    by (intro keeps_frame_if client_branches_keep first_payload_keeps [OF env ref] keeps_frame_id)
      (use False acc in \<open>auto simp: bind_ok_def\<close>)
  then show ?thesis using False keeps_frameD [OF _ fr, where X = X] by (auto simp: wheel_step_def)
qed

lemma server_tcp_keeps:
  assumes env: "env_ok X cfg"
  shows "keeps_frame (server_tcp X clk tcp old_c old_s) cfg f"
proof -
  have "keeps_frame (\<lambda>f. Inr (f\<lparr>f_unexpected := True\<rparr>)) cfg f" by (auto simp: keeps_frame_def)
  then show ?thesis
    unfolding server_tcp_def by (intro keeps_frame_if server_branches_keep synack_keeps [OF env])
qed

lemma release_if_closed_keeps:
  "frame_ok cfg port s k w f \<Longrightarrow> frame_ok cfg port s k w (release_if_closed X f)"
  by (auto simp: release_if_closed_def frame_ok_def con_port_def)

lemma client_step_keeps:
  assumes env: "env_ok X cfg" and fr: "frame_ok cfg port s k w f" and ref: "refcnt (f_pdu f) = 1"
    and acc: "bind_ok cfg tcp (con_client_state X (f_con f)) (con_server_state X (f_con f)) (f_con f) (f_pdu f)"
  shows "\<exists>f' k' w'. client_step X cfg clk tcp f = Inr f' \<and> frame_ok cfg port s k' w' f' \<and>
    wheel_step X (con_client_state X (f_con f) = Closed \<and> syn_flag tcp) port (k, w) (k', w')"
proof -
  let ?s = "con_server_state X (f_con f)" and ?c = "con_client_state X (f_con f)"
  obtain f1 k' w' where f1: "client_tcp X cfg clk tcp ?c ?s f = Inr f1" "frame_ok cfg port s k' w' f1"
    "wheel_step X (?c = Closed \<and> syn_flag tcp) port (k, w) (k', w')"
    using client_tcp_keeps [OF env fr ref acc] by blast
  let ?f = "release_if_closed X f1"
  have fr2: "frame_ok cfg port s k' w' ?f" by (rule release_if_closed_keeps [OF f1(2)])
  obtain p' c' where fw: "client_to_server X (me cfg) (servers cfg) (f_process_payload_c_s cfg) (f_pdu ?f) (f_con ?f) = Inr (p', c')"
    "frame_ok cfg port s k' w' (?f\<lparr>f_pdu := p', f_con := c'\<rparr>)"
    using client_to_server_keeps [OF env fr2] by blast
  then have "\<exists>f'. client_step X cfg clk tcp f = Inr f' \<and> frame_ok cfg port s k' w' f'"
    using f1(1) fr2 by (auto simp: client_step_def Let_def)
  then show ?thesis using f1(3) by blast
qed

lemma server_step_keeps:
  assumes env: "env_ok X cfg" and fr: "frame_ok cfg port s k w f"
  shows "\<exists>f'. server_step X cfg clk tcp f = Inr f' \<and> frame_ok cfg port s k w f'"
proof -
  let ?s = "con_server_state X (f_con f)" and ?c = "con_client_state X (f_con f)"
  obtain f1 where f1: "server_tcp X clk tcp ?c ?s f = Inr f1" "frame_ok cfg port s k w f1"
    using server_tcp_keeps [OF env] fr unfolding keeps_frame_def by blast
  let ?f = "release_if_closed X f1"
  have fr2: "frame_ok cfg port s k w ?f" by (rule release_if_closed_keeps [OF f1(2)])
  obtain p' c' where fw: "server_to_client X (me cfg) (f_pdu ?f) (f_con ?f) = Inr (p', c')"
    "frame_ok cfg port s k w (?f\<lparr>f_pdu := p', f_con := c'\<rparr>)"
    using server_to_client_keeps [OF env fr2] by blast
  show ?thesis
    using f1(1) fr2 fw by (auto simp: server_step_def Let_def)
qed

end
