(* ===== verification/Protocol.thy ===== *)
theory Protocol
  imports Pipeline_Inv
begin

text \<open>
  The TCP state machine of a connection, seen through its two states: the one towards the client and
  the one towards the server. \<open>client_trans\<close> and \<open>server_trans\<close> list the transitions; a packet from the
  client or the server makes exactly such a transition. An invariant over the pairs of states says
  how the server side is bound to the progress of the client side.
\<close>

section \<open>Transitions\<close>

definition closing_states :: "tcp_state set" where
  "closing_states = {FinWait1, FinWait2, Closing, Closed}"

fun after_fin :: "tcp_state \<Rightarrow> tcp_state" where
  "after_fin FinWait1 = Closing" | "after_fin FinWait2 = Closed" | "after_fin s = s"

fun peer_acked :: "tcp_state \<Rightarrow> tcp_state" where
  "peer_acked FinWait1 = FinWait2" | "peer_acked Closing = Closed" | "peer_acked s = s"

fun acking :: "tcp_state \<Rightarrow> tcp_state" where
  "acking Established = CloseWait" | "acking FinWait1 = Closing" | "acking FinWait2 = Closed" | "acking s = s"

type_synonym sides = "tcp_state \<times> tcp_state"

text \<open>
  What a packet of the client is to its connection: older than what has been acknowledged, a SYN, the
  ACK of the handshake, a FIN, a reset, or none of these.
\<close>

datatype segment = OldSegment | SynSegment | HandshakeAck | FinSegment | RstSegment | PlainSegment

definition segment_of :: "tcp_hdr \<Rightarrow> u32 \<Rightarrow> tcp_state \<Rightarrow> segment" where
  "segment_of tcp acked_no c =
     (if c \<noteq> Closed \<and> seq_num tcp < acked_no then OldSegment
      else if syn_flag tcp then SynSegment
      else if c = SynSent \<and> ack_flag tcp then HandshakeAck
      else if fin_flag tcp then FinSegment
      else if rst_flag tcp then RstSegment
      else PlainSegment)"

text \<open>The transitions of the client's packets, each for its kind of packet.\<close>

inductive client_trans :: "sides \<Rightarrow> segment \<Rightarrow> sides \<Rightarrow> bool" where
  c_old: "client_trans x OldSegment x"
| c_open: "client_trans (Closed, s) SynSegment (SynSent, s)"
| c_syn_again: "c \<noteq> Closed \<Longrightarrow> client_trans (c, s) SynSegment (c, s)"
| c_established: "client_trans (SynSent, s) HandshakeAck (Established, s)"
| c_fin_acking: "s \<in> closing_states \<Longrightarrow> client_trans (c, s) FinSegment (LastAck, s)"
| c_fin_crossing: "s \<in> closing_states \<Longrightarrow> client_trans (c, s) FinSegment (Closing, after_fin s)"
| c_fin_unbound: "s \<in> {Listen, SynSent, SynReceived} \<Longrightarrow> client_trans (c, s) FinSegment (FinWait1, LastAck)"
| c_fin: "s \<in> {Established, CloseWait, LastAck} \<Longrightarrow> client_trans (c, s) FinSegment (FinWait1, s)"
| c_reset: "client_trans (c, s) RstSegment (Closed, s)"
| c_stay: "client_trans x PlainSegment x"
| c_acks_fin: "s \<in> closing_states \<Longrightarrow> client_trans (c, s) PlainSegment (acking c, peer_acked s)"
| c_final_ack: "client_trans (c, LastAck) PlainSegment (Closed, Closed)"
| c_bind: "client_trans (Established, Listen) PlainSegment (Established, SynReceived)"

text \<open>A packet from the server.\<close>

inductive server_trans :: "sides \<Rightarrow> sides \<Rightarrow> bool" where
  s_stay: "server_trans x x"
| s_established: "server_trans (c, SynReceived) (c, Established)"
| s_fin_acking: "c \<in> closing_states \<Longrightarrow> server_trans (c, s) (c, LastAck)"
| s_fin_crossing: "c \<in> closing_states \<Longrightarrow> server_trans (c, s) (after_fin c, Closing)"
| s_fin: "c \<notin> closing_states \<Longrightarrow> server_trans (c, s) (c, FinWait1)"
| s_acks_fin: "c \<in> closing_states \<Longrightarrow> server_trans (c, s) (peer_acked c, s)"
| s_final_ack: "server_trans (LastAck, s) (Closed, Closed)"

definition sides_of :: "'z lib_scheme \<Rightarrow> 'm conn \<Rightarrow> sides" where
  "sides_of X c = (con_client_state X c, con_server_state X c)"

section \<open>The invariant\<close>

text \<open>
  Before the server is known the client is connecting or connected; the server is contacted only for
  a connected client; while the server connection is established the client is connected or has sent
  its FIN.
\<close>

fun proto_inv :: "sides \<Rightarrow> bool" where
  "proto_inv (c, s) \<longleftrightarrow>
     (s = Listen \<longrightarrow> c \<in> {Closed, SynSent, Established}) \<and>
     (s = SynReceived \<longrightarrow> c = Established) \<and>
     (s = Established \<longrightarrow> c \<in> {Established, FinWait1, FinWait2}) \<and>
     s \<noteq> SynSent \<and> s \<noteq> CloseWait"

lemma client_trans_inv:
  assumes "client_trans x g y" and "proto_inv x" and "g \<noteq> RstSegment"
  shows "proto_inv y"
  using assms
proof (cases rule: client_trans.cases)
  case (c_fin_crossing s c)
  then show ?thesis by (auto simp: closing_states_def)
next
  case (c_acks_fin s c)
  then show ?thesis by (auto simp: closing_states_def)
qed (auto simp: closing_states_def)

lemma server_trans_inv:
  assumes "server_trans x y" and "proto_inv x"
  shows "proto_inv y"
  using assms(1)
proof (cases rule: server_trans.cases)
  case (s_acks_fin c s)
  then show ?thesis using assms(2) by (auto simp: closing_states_def)
qed (use assms(2) in \<open>auto simp: closing_states_def\<close>)

section \<open>Packets make these transitions\<close>

lemma on_con_sides:
  assumes "codes_ok X"
  shows "on_con (c_push_state X t st) f = Inr f' \<Longrightarrow>
      sides_of X (f_con f') = (st, con_server_state X (f_con f)) \<and> f_release f' = f_release f \<and> f_pdu f' = f_pdu f"
    and "on_con (s_push_state X t st) f = Inr f' \<Longrightarrow>
      sides_of X (f_con f') = (con_client_state X (f_con f), st) \<and> f_release f' = f_release f \<and> f_pdu f' = f_pdu f"
    and "on_con (set_release_cause X r) f = Inr f' \<Longrightarrow> f_con f' = f_con f \<and> f_release f' = f_release f \<and> f_pdu f' = f_pdu f"
    and "on_con (s_set_release_cause X r) f = Inr f' \<Longrightarrow> f_con f' = f_con f \<and> f_release f' = f_release f \<and> f_pdu f' = f_pdu f"
    and "on_con (s_init X) f = Inr f' \<Longrightarrow> f_con f' = f_con f \<and> f_release f' = f_release f \<and> f_pdu f' = f_pdu f"
  using assms
  by (auto simp: on_con_def bindR_eq_Inr sides_of_def con_client_state_def con_server_state_def dest!: log_conn)

lemma sides_of_upd [simp]:
  "sides_of X (c\<lparr>c_seqn := x\<rparr>) = sides_of X c" "sides_of X (c\<lparr>seqn := x\<rparr>) = sides_of X c"
  "sides_of X (c\<lparr>wheel_slot_and_index := k\<rparr>) = sides_of X c" "sides_of X (c\<lparr>payload_packet := q\<rparr>) = sides_of X c"
  "sides_of X (c\<lparr>client_mac := m\<rparr>) = sides_of X c" "sides_of X (c\<lparr>ackn_p2c := x\<rparr>) = sides_of X c"
  "sides_of X (c\<lparr>ackn_p2s := x\<rparr>) = sides_of X c" "sides_of X (c\<lparr>seqn_fin_p2s := x\<rparr>) = sides_of X c"
  "sides_of X (c\<lparr>c2s_inserted_bytes := d\<rparr>) = sides_of X c" "sides_of X (c\<lparr>server_index := i\<rparr>) = sides_of X c"
  by (simp_all add: sides_of_def con_client_state_def con_server_state_def)

lemma sides_pair:
  "con_client_state X c = fst (sides_of X c)" "con_server_state X c = snd (sides_of X c)"
  by (simp_all add: sides_of_def)

text \<open>What each branch does to the pair of states.\<close>

lemma client_syn_sides:
  assumes "codes_ok X" and "client_syn X cfg clk old_c f = Inr f'"
  shows "sides_of X (f_con f') = (if old_c = Closed then (SynSent, snd (sides_of X (f_con f))) else sides_of X (f_con f)) \<and>
    f_release f' = f_release f"
  using assms(2)
  by (auto simp: client_syn_def client_syn_received_def Let_def bindR_eq_Inr sides_pair case_prod_unfold
      split: if_splits dest!: on_con_sides [OF assms(1)])

lemma client_fin_sides:
  assumes "codes_ok X" and "state_order_ok X"
    and "client_fin X clk tcp (snd (sides_of X (f_con f))) f = Inr f'" and "sides_of X (f_con f) = (c, s)"
  shows "client_trans (c, s) FinSegment (sides_of X (f_con f')) \<and> f_release f' = f_release f"
proof (cases "s \<in> closing_states")
  case True
  then have "state_ge X s FinWait1"
    using assms(2) by (auto simp: closing_states_def state_order_simps)
  then have run: "client_fin_passive X clk tcp s f = Inr f'" using assms(3,4) by (simp add: client_fin_def)
  have "(sides_of X (f_con f') = (LastAck, s) \<or> sides_of X (f_con f') = (Closing, after_fin s)) \<and> f_release f' = f_release f"
    using run assms(4) True
    by (cases s) (auto simp: client_fin_passive_def Let_def bindR_eq_Inr sides_pair closing_states_def
        split: if_splits dest!: on_con_sides [OF assms(1)])
  then show ?thesis using True by (auto intro: c_fin_acking c_fin_crossing)
next
  case False
  then have "\<not> state_ge X s FinWait1"
    using assms(2) by (cases s) (auto simp: closing_states_def state_order_simps)
  then have run: "client_fin_active X clk s f = Inr f'" using assms(3,4) by (simp add: client_fin_def)
  show ?thesis
  proof (cases "state_less X s Established")
    case True
    then have "sides_of X (f_con f') = (FinWait1, LastAck) \<and> f_release f' = f_release f"
      using run by (auto simp: client_fin_active_def client_fin_unbound_def Let_def bindR_eq_Inr sides_pair
          dest!: on_con_sides [OF assms(1)])
    moreover have "s \<in> {Listen, SynSent, SynReceived}" using True assms(2) by (simp add: state_order_simps)
    ultimately show ?thesis by (simp add: c_fin_unbound)
  next
    case nb: False
    then have "sides_of X (f_con f') = (FinWait1, s) \<and> f_release f' = f_release f"
      using run assms(4) by (auto simp: client_fin_active_def Let_def bindR_eq_Inr sides_pair
          dest!: on_con_sides [OF assms(1)])
    moreover have "s \<in> {Established, CloseWait, LastAck}"
      using nb False assms(2) by (cases s) (auto simp: state_order_simps closing_states_def)
    ultimately show ?thesis by (simp add: c_fin)
  qed
qed

lemma client_ack4fin_sides:
  assumes "codes_ok X" and "client_ack4fin X clk c s f = Inr f'" and "sides_of X (f_con f) = (c, s)"
  shows "sides_of X (f_con f') = (acking c, peer_acked s) \<and> f_release f' = f_release f"
  using assms(2,3)
  by (cases s; cases c)
    (auto simp: client_ack4fin_def Let_def bindR_eq_Inr sides_pair dest!: on_con_sides [OF assms(1)])

lemma client_rest_sides:
  assumes "codes_ok X" and "sides_of X (f_con f) = (c, s)"
  shows "client_handshake_ack X clk f = Inr f' \<Longrightarrow> sides_of X (f_con f') = (Established, s) \<and> f_release f' = f_release f"
    and "client_rst X clk f = Inr f' \<Longrightarrow> sides_of X (f_con f') = (Closed, s) \<and> f_release f' = Some (con_port (f_con f'))"
    and "client_final_ack X clk f = Inr f' \<Longrightarrow> sides_of X (f_con f') = (Closed, Closed) \<and> f_release f' = f_release f"
    and "sides_of X (f_con (client_unexpected f)) = (c, s) \<and> f_release (client_unexpected f) = f_release f"
  using assms(2)
  by (auto simp: client_handshake_ack_def client_rst_def client_final_ack_def client_unexpected_def Let_def bindR_eq_Inr
      sides_pair dest!: on_con_sides [OF assms(1)])

text \<open>The selection callback may change what it likes except the two states.\<close>

definition select_keeps_states :: "'m pcfg \<Rightarrow> bool" where
  "select_keeps_states cfg \<longleftrightarrow> (\<forall>c c'. payload_packet c \<noteq> None \<longrightarrow> f_select_server cfg c = Inr c' \<longrightarrow>
     client_state c' = client_state c \<and> server_state c' = server_state c)"

lemma sides_of_eq: "client_state c' = client_state c \<Longrightarrow> server_state c' = server_state c \<Longrightarrow> sides_of X c' = sides_of X c"
  by (simp add: sides_of_def con_client_state_def con_server_state_def)

lemma select_server_sides:
  assumes "select_keeps_states cfg" and "select_server X m srvs (f_select_server cfg) syn p c = Inr (p', c')"
  shows "sides_of X c' = sides_of X c"
proof -
  have "sides_of X d = sides_of X c" if "f_select_server cfg (c\<lparr>payload_packet := Some q\<rparr>) = Inr d" for d q
    using assms(1) [unfolded select_keeps_states_def, rule_format, OF _ that] by (intro sides_of_eq) simp_all
  then show ?thesis
    using assms(2)
    by (auto simp: select_server_def Let_def bindR_eq_Inr case_prod_unfold)
qed

lemma client_first_payload_sides:
  assumes "codes_ok X" and "select_keeps_states cfg" and "client_first_payload X cfg clk f = Inr f'"
    and "sides_of X (f_con f) = (c, s)"
  shows "sides_of X (f_con f') = (c, SynReceived) \<and> f_release f' = f_release f"
  using assms(3,4)
  by (auto simp: client_first_payload_def Let_def bindR_eq_Inr case_prod_unfold sides_pair
      dest!: on_con_sides [OF assms(1)] select_server_sides [OF assms(2)])

lemma client_plain_trans:
  assumes "codes_ok X" and "state_order_ok X" and "select_keeps_states cfg" and sd: "sides_of X (f_con f) = (c, s)"
    and run: "client_tcp X cfg clk tcp c s f = Inr f'" and seg: "segment_of tcp (ackn_p2c (f_con f)) c = PlainSegment"
  shows "client_trans (c, s) PlainSegment (sides_of X (f_con f')) \<and> f_release f' = f_release f"
proof -
  have ge: "s \<in> closing_states" if "state_ge X s FinWait1"
    using that assms(2) by (cases s) (auto simp: closing_states_def state_order_simps)
  have "state_ge X s FinWait1 \<and> client_ack4fin X clk c s f = Inr f' \<or> s = LastAck \<and> client_final_ack X clk f = Inr f' \<or>
      c = Established \<and> s = Listen \<and> client_first_payload X cfg clk f = Inr f' \<or> f' = client_unexpected f \<or> f' = f"
    using run seg by (simp add: client_tcp_def segment_of_def split: if_split_asm)
  then consider "state_ge X s FinWait1" "client_ack4fin X clk c s f = Inr f'"
    | "s = LastAck" "client_final_ack X clk f = Inr f'"
    | "c = Established" "s = Listen" "client_first_payload X cfg clk f = Inr f'" | "f' = client_unexpected f" | "f' = f"
    by metis
  then show ?thesis
  proof cases
    case 1
    then show ?thesis using client_ack4fin_sides [OF assms(1) 1(2) sd] ge by (auto intro: c_acks_fin)
  next
    case 2
    then show ?thesis using client_rest_sides(3) [OF assms(1) sd 2(2)] by (auto intro: c_final_ack)
  next
    case 3
    then show ?thesis using client_first_payload_sides [OF assms(1,3) 3(3) sd] by (auto intro: c_bind)
  next
    case 4
    then show ?thesis using client_rest_sides(4) [OF assms(1) sd] by (auto intro: c_stay)
  next
    case 5
    then show ?thesis using sd by (simp add: c_stay)
  qed
qed

lemma client_tcp_trans:
  assumes "codes_ok X" and "state_order_ok X" and "select_keeps_states cfg" and sd: "sides_of X (f_con f) = (c, s)"
    and run: "client_tcp X cfg clk tcp c s f = Inr f'" and g: "g = segment_of tcp (ackn_p2c (f_con f)) c"
  shows "client_trans (c, s) g (sides_of X (f_con f')) \<and>
    f_release f' = (if g = RstSegment then Some (con_port (f_con f')) else f_release f)"
proof (cases g)
  case OldSegment
  then have "f' = f" using run g by (simp add: client_tcp_def segment_of_def split: if_split_asm)
  then show ?thesis using OldSegment sd by (simp add: c_old)
next
  case SynSegment
  then have "client_syn X cfg clk c f = Inr f'" using run g by (simp add: client_tcp_def segment_of_def split: if_split_asm)
  from client_syn_sides [OF assms(1) this] show ?thesis using SynSegment sd by (auto intro: c_open c_syn_again)
next
  case HandshakeAck
  then have "c = SynSent" "client_handshake_ack X clk f = Inr f'"
    using run g by (simp_all add: client_tcp_def segment_of_def split: if_split_asm)
  then show ?thesis using client_rest_sides(1) [OF assms(1) sd] HandshakeAck by (auto intro: c_established)
next
  case FinSegment
  then have "client_fin X clk tcp s f = Inr f'" using run g by (auto simp: client_tcp_def segment_of_def split: if_split_asm)
  then show ?thesis using client_fin_sides [OF assms(1,2) _ sd] FinSegment sd by simp
next
  case RstSegment
  then have "client_rst X clk f = Inr f'" using run g by (auto simp: client_tcp_def segment_of_def split: if_split_asm)
  then show ?thesis using client_rest_sides(2) [OF assms(1) sd] RstSegment by (auto intro: c_reset)
next
  case PlainSegment
  then show ?thesis using client_plain_trans [OF assms(1-3) sd run] g by simp
qed

definition process_keeps_states :: "'m pcfg \<Rightarrow> bool" where
  "process_keeps_states cfg \<longleftrightarrow> (\<forall>c bs n. client_state (fst (f_process_payload_c_s cfg c bs n)) = client_state c \<and>
     server_state (fst (f_process_payload_c_s cfg c bs n)) = server_state c)"

lemma client_to_server_states:
  assumes "client_to_server X m srvs f p c = Inr (p', c')"
  shows "\<exists>d \<in> {c, fst (f c (payload p) (get_tailroom X p))}.
    client_state c' = client_state d \<and> server_state c' = server_state d"
proof (cases "tcp_payload_size X p > 0")
  case True
  obtain d bs where d: "f c (payload p) (get_tailroom X p) = (d, bs)" by fastforce
  have "client_state c' = client_state d \<and> server_state c' = server_state d"
    using assms True unfolding client_to_server_def Let_def by (auto simp: d bindR_eq_Inr)
  then show ?thesis by (simp add: d)
next
  case False
  have "client_state c' = client_state c \<and> server_state c' = server_state c"
    using assms False unfolding client_to_server_def Let_def by (auto simp: bindR_eq_Inr)
  then show ?thesis by simp
qed

lemma client_to_server_sides:
  assumes "process_keeps_states cfg"
    and "client_to_server X m srvs (f_process_payload_c_s cfg) p c = Inr (p', c')"
  shows "sides_of X c' = sides_of X c"
  using client_to_server_states [OF assms(2)] assms(1)
  by (intro sides_of_eq) (auto simp: process_keeps_states_def)

lemma server_to_client_sides:
  "server_to_client X m p c = Inr (p', c') \<Longrightarrow> sides_of X c' = sides_of X c"
  by (auto simp: server_to_client_def Let_def bindR_eq_Inr split: if_splits)

lemma release_if_closed_sel:
  "f_con (release_if_closed X f) = f_con f" "f_release (release_if_closed X f) = None \<longleftrightarrow>
     f_release f = None \<and> sides_of X (f_con f) \<noteq> (Closed, Closed)"
  by (auto simp: release_if_closed_def sides_of_def)

lemma client_step_trans:
  assumes "codes_ok X" and "state_order_ok X" and "select_keeps_states cfg" and "process_keeps_states cfg"
    and run: "client_step X cfg clk tcp f = Inr f'" and rel: "f_release f = None"
    and g: "g = segment_of tcp (ackn_p2c (f_con f)) (con_client_state X (f_con f))"
  shows "client_trans (sides_of X (f_con f)) g (sides_of X (f_con f')) \<and>
    (f_release f' = None \<longleftrightarrow> g \<noteq> RstSegment \<and> sides_of X (f_con f') \<noteq> (Closed, Closed))"
proof -
  obtain f1 where f1: "client_tcp X cfg clk tcp (con_client_state X (f_con f)) (con_server_state X (f_con f)) f = Inr f1"
    using run by (auto simp: client_step_def Let_def bindR_eq_Inr)
  let ?f = "release_if_closed X f1"
  have "f' = ?f \<or> (\<exists>p c. client_to_server X (me cfg) (servers cfg) (f_process_payload_c_s cfg) (f_pdu ?f) (f_con ?f) = Inr (p, c) \<and> f_con f' = c \<and> f_release f' = f_release ?f)"
    using run by (auto simp: client_step_def Let_def f1 bindR_eq_Inr split: if_splits)
  then have out: "sides_of X (f_con f') = sides_of X (f_con f1) \<and> f_release f' = f_release ?f"
    using client_to_server_sides [OF assms(4)] by (auto simp: release_if_closed_sel)
  have "client_trans (sides_of X (f_con f)) g (sides_of X (f_con f1)) \<and>
      f_release f1 = (if g = RstSegment then Some (con_port (f_con f1)) else f_release f)"
    using client_tcp_trans [OF assms(1-3) _ f1 g] by (simp add: sides_of_def)
  then show ?thesis using out rel by (auto simp: release_if_closed_sel)
qed

lemma server_tcp_trans:
  assumes "codes_ok X" and "state_order_ok X" and sd: "sides_of X (f_con f) = (c, s)"
    and run: "server_tcp X clk tcp c s f = Inr f'"
  shows "server_trans (c, s) (sides_of X (f_con f')) \<and> f_release f' = f_release f"
proof -
  have ge: "state_ge X c FinWait1 \<longleftrightarrow> c \<in> closing_states"
    using assms(2) by (cases c) (auto simp: closing_states_def state_order_simps)
  have "server_synack X clk s f = Inr f' \<or> server_fin X clk tcp c f = Inr f' \<or>
      state_ge X c LastAck \<and> server_ack4fin X clk tcp c f = Inr f' \<or> f' = f\<lparr>f_unexpected := True\<rparr>"
    using run by (simp add: server_tcp_def split: if_split_asm)
  then consider "server_synack X clk s f = Inr f'" | "server_fin X clk tcp c f = Inr f'"
    | "state_ge X c LastAck" "server_ack4fin X clk tcp c f = Inr f'" | "f' = f\<lparr>f_unexpected := True\<rparr>"
    by metis
  then show ?thesis
  proof cases
    case 1
    have "sides_of X (f_con f') = (if s = SynReceived then (c, Established) else (c, s)) \<and> f_release f' = f_release f"
      using 1 sd
      by (auto simp: server_synack_def Let_def bindR_eq_Inr case_prod_unfold sides_pair server_synack_received_def
          split: if_splits option.splits dest!: on_con_sides [OF assms(1)])
    then show ?thesis by (auto intro: s_established s_stay)
  next
    case 2
    show ?thesis
    proof (cases "c \<in> closing_states")
      case True
      have "(sides_of X (f_con f') = (c, LastAck) \<or> sides_of X (f_con f') = (after_fin c, Closing)) \<and> f_release f' = f_release f"
        using 2 sd True ge
        by (cases c) (auto simp: server_fin_def Let_def bindR_eq_Inr sides_pair closing_states_def
            split: if_splits dest!: on_con_sides [OF assms(1)])
      then show ?thesis using True by (auto intro: s_fin_acking s_fin_crossing)
    next
      case False
      have "sides_of X (f_con f') = (c, FinWait1) \<and> f_release f' = f_release f"
        using 2 sd False ge
        by (auto simp: server_fin_def Let_def bindR_eq_Inr sides_pair dest!: on_con_sides [OF assms(1)])
      then show ?thesis using False by (auto intro: s_fin)
    qed
  next
    case 3
    have cl: "c \<in> closing_states \<or> c = LastAck"
      using 3(1) assms(2) by (cases c) (auto simp: state_order_simps closing_states_def)
    have "(sides_of X (f_con f') = (c, s) \<or> sides_of X (f_con f') = (if c = LastAck then (Closed, Closed) else (peer_acked c, s)))
        \<and> f_release f' = f_release f"
      using 3(2) sd cl
      by (cases c) (auto simp: server_ack4fin_def Let_def bindR_eq_Inr sides_pair closing_states_def
          split: if_splits dest!: on_con_sides [OF assms(1)])
    then show ?thesis using cl by (auto intro: s_stay s_acks_fin s_final_ack split: if_splits)
  next
    case 4
    then show ?thesis using sd by (simp add: s_stay)
  qed
qed

lemma server_step_trans:
  assumes "codes_ok X" and "state_order_ok X" and run: "server_step X cfg clk tcp f = Inr f'" and rel: "f_release f = None"
  shows "server_trans (sides_of X (f_con f)) (sides_of X (f_con f')) \<and>
    (f_release f' = None \<longleftrightarrow> sides_of X (f_con f') \<noteq> (Closed, Closed))"
proof -
  obtain f1 where f1: "server_tcp X clk tcp (con_client_state X (f_con f)) (con_server_state X (f_con f)) f = Inr f1"
    using run by (auto simp: server_step_def Let_def bindR_eq_Inr)
  let ?f = "release_if_closed X f1"
  have "f_con f' = f_con ?f \<and> f_release f' = f_release ?f \<or> (\<exists>p c. server_to_client X (me cfg) (f_pdu ?f) (f_con ?f) = Inr (p, c) \<and> f_con f' = c \<and> f_release f' = f_release ?f)"
    using run by (auto simp: server_step_def Let_def f1 bindR_eq_Inr split: if_splits)
  then have out: "sides_of X (f_con f') = sides_of X (f_con f1) \<and> f_release f' = f_release ?f"
    using server_to_client_sides by (auto simp: release_if_closed_sel)
  have "server_trans (sides_of X (f_con f)) (sides_of X (f_con f1)) \<and> f_release f1 = f_release f"
    using server_tcp_trans [OF assms(1,2) _ f1] by (simp add: sides_of_def)
  then show ?thesis using out rel by (auto simp: release_if_closed_sel)
qed

section \<open>The whole table\<close>

definition proto_table :: "'z lib_scheme \<Rightarrow> ('st, 'm) cmanager \<Rightarrow> bool" where
  "proto_table X cm \<longleftrightarrow> (\<forall>q. owns_tcp_port cm q \<longrightarrow> in_use (con_at cm q) \<longrightarrow> proto_inv (sides_of X (con_at cm q)))"

lemma callbacks_keep_states:
  "select_ok cfg \<Longrightarrow> select_keeps_states cfg" "process_ok cfg \<Longrightarrow> process_keeps_states cfg"
proof -
  assume sel: "select_ok cfg"
  show "select_keeps_states cfg"
    unfolding select_keeps_states_def
  proof (intro allI impI)
    fix c c' assume "payload_packet c \<noteq> None" and r: "f_select_server cfg c = Inr c'"
    then obtain b where b: "payload_packet c = Some b" by blast
    show "client_state c' = client_state c \<and> server_state c' = server_state c"
      by (rule select_okD [OF sel b r]) simp
  qed
next
  assume "process_ok cfg"
  then show "process_keeps_states cfg" by (simp add: process_ok_def process_keeps_states_def Let_def)
qed

lemma client_step_proto:
  assumes "env_ok X cfg" and "state_order_ok X" and "client_step X cfg clk tcp f = Inr f'"
    and "f_release f = None" and "proto_inv (sides_of X (f_con f))" and "f_release f' = None"
  shows "proto_inv (sides_of X (f_con f'))"
  using client_step_trans [OF _ assms(2) _ _ assms(3,4) refl] assms(1,5,6) callbacks_keep_states
  by (auto simp: env_ok_def intro: client_trans_inv)

lemma server_step_proto:
  assumes "env_ok X cfg" and "state_order_ok X" and "server_step X cfg clk tcp f = Inr f'"
    and "f_release f = None" and "proto_inv (sides_of X (f_con f))"
  shows "proto_inv (sides_of X (f_con f'))"
  using server_step_trans [OF _ assms(2-4)] assms(1,5) by (auto simp: env_ok_def intro: server_trans_inv)

end
