(* ===== verification/Pipeline_Safe.thy ===== *)
theory Pipeline_Safe
  imports Protocol
begin

text \<open>
  From frames to the state of the pipeline: a packet from a client or a server, a timer tick and the
  release of a connection keep \<open>pipe_inv\<close> and do not panic. The runs of a pipeline are the step
  relation \<open>pipe_step\<close>; its reachable states satisfy the invariant.
\<close>

section \<open>Borrowing a connection and writing it back\<close>

lemma enter_frame:
  assumes inv: "cm_inv cm" "det_inv cm" "\<not> detailed_records cm"
    and q: "owns_tcp_port cm q" "in_use (con_at cm q)"
    and ok: "con_ok cfg (con_at cm q)" "alloc_ok (p_alloc W)"
  obtains s where "frame_ok cfg q s (wheel_slot_and_index (con_at cm q)) (p_wheel W) (enter (pidx cm q) cm p W)"
    and "con_sock (con_at cm q) = Some s"
proof -
  obtain s where s: "con_sock (con_at cm q) = Some s" "proxy_port (con_at cm q) = q"
    using cm_inv_used [OF inv(1) q] by metis
  have "detailed_c (con_at cm q) = None"
    using det_at [OF inv(2) cm_inv_wf [OF inv(1)] q(1)] inv(3) by (auto simp: det_conn_def split: option.splits)
  then have "frame_ok cfg q s (wheel_slot_and_index (con_at cm q)) (p_wheel W) (enter (pidx cm q) cm p W)"
    using s ok by (simp add: frame_ok_def enter_def con_at_def [symmetric])
  then show ?thesis using s(1) by (rule that)
qed

lemma leave_inv:
  assumes inv: "cm_inv cm" "det_inv cm" "\<not> detailed_records cm" "table_ok cfg cm"
    and q: "owns_tcp_port cm q" "in_use (con_at cm q)"
    and wh: "wheel_ok X ent" "wheel_inv ent (if sched then {q} else {}) cm (p_wheel W)"
      "sched \<longrightarrow> wheel_load ent (p_wheel W) < 2 ^ 16"
    and step: "wheel_step X sched q (wheel_slot_and_index (con_at cm q), p_wheel W) (k, w)"
    and fr: "frame_ok cfg q s k w f" and sk: "con_sock (con_at cm q) = Some s"
  shows "pipe_inv X cfg ent (leave (pidx cm q) cm W f)"
    and "in_use (con_at (p_cm (leave (pidx cm q) cm W f)) q)"
    and "r \<noteq> q \<Longrightarrow> con_at (p_cm (leave (pidx cm q) cm W f)) r = con_at cm r"
    and "con_at (p_cm (leave (pidx cm q) cm W f)) q = f_con f"
proof -
  note wf = cm_inv_wf [OF inv(1)]
  let ?cm = "put_con (pidx cm q) (f_con f, f_heap f) cm"
  have pp: "proxy_port (con_at cm q) = q" using cm_inv_used [OF inv(1) q] by metis
  have det: "detailed_c (con_at cm q) = None"
    using det_at [OF inv(2) wf q(1)] inv(3) by (auto simp: det_conn_def split: option.splits)
  have at: "con_at ?cm r = (if r = q then f_con f else con_at cm r)" for r by (rule put_con_at [OF wf q(1)])
  have same: "proxy_port (f_con f) = proxy_port (con_at cm q)" "con_sock (f_con f) = con_sock (con_at cm q)"
    "detailed_c (f_con f) = detailed_c (con_at cm q)"
    using fr pp sk det by (simp_all add: frame_ok_def)
  have "cm_inv ?cm" "det_inv ?cm" using put_con_inv [OF inv(1,2) q(1) same] by blast+
  moreover have "table_ok cfg ?cm" using inv(4) fr by (auto simp: table_ok_def at frame_ok_def)
  moreover have "wheel_inv ent {} ?cm w"
  proof (cases sched)
    case True
    then obtain d where sch: "wheel_schedule X d q (p_wheel W) = (k, w)" using step by (auto simp: wheel_step_def)
    have "wheel_slot_and_index (f_con f) = k" using fr by (simp add: frame_ok_def)
    then show ?thesis using put_con_scheduled [OF wf q(1) _ wh(1) _ sch] wh(2,3) True by simp
  next
    case False
    then show ?thesis using put_con_wheel [OF wf q(1) _ same(1)] wh(2) fr step by (auto simp: wheel_step_def frame_ok_def)
  qed
  ultimately show "pipe_inv X cfg ent (leave (pidx cm q) cm W f)"
    using inv(3) fr by (auto simp: pipe_inv_def leave_def frame_ok_def)
  show "in_use (con_at (p_cm (leave (pidx cm q) cm W f)) q)"
    using q(2) same(1) by (simp add: leave_def at in_use_def)
  show "r \<noteq> q \<Longrightarrow> con_at (p_cm (leave (pidx cm q) cm W f)) r = con_at cm r"
    and "con_at (p_cm (leave (pidx cm q) cm W f)) q = f_con f" by (simp_all add: leave_def at)
qed

section \<open>Looking the client up\<close>

text \<open>The port that a packet of client \<open>s\<close> may act on: its own, or for a SYN of a new client the first free one.\<close>

definition client_port :: "sock \<Rightarrow> bool \<Rightarrow> ('st, 'm) cmanager \<Rightarrow> u16 option" where
  "client_port s syn cm =
     (case sock2port cm s of
        Some q \<Rightarrow> Some q
      | None \<Rightarrow> if syn \<and> free_ports cm \<noteq> [] then Some (hd (free_ports cm)) else None)"

lemma client_lookup:
  assumes pinv: "pipe_inv X cfg ent W" and env: "env_ok X cfg" and ip: "syn_flag (tcp_h p) \<longrightarrow> fst s \<noteq> 0"
  defines "look \<equiv> if syn_flag (tcp_h p) then get_mut_or_insert X s (p_cm W)
                  else bindR (get_mut_by_sock X s (p_cm W)) (\<lambda>r. Inr (r, p_cm W))"
  shows "look = Inr (None, p_cm W) \<or>
    (\<exists>q cm. look = Inr (Some (pidx cm q), cm) \<and> cm_inv cm \<and> det_inv cm \<and> same_conf (p_cm W) cm \<and>
       table_ok cfg cm \<and> owns_tcp_port cm q \<and> in_use (con_at cm q) \<and> sock2port cm s = Some q \<and>
       client_port s (syn_flag (tcp_h p)) (p_cm W) = Some q \<and>
       (\<forall>r. r \<noteq> q \<longrightarrow> con_at cm r = con_at (p_cm W) r) \<and>
       (proto_table X (p_cm W) \<longrightarrow> proto_inv (sides_of X (con_at cm q))) \<and>
       wheel_inv ent (if con_client_state X (con_at cm q) = Closed \<and> syn_flag (tcp_h p) then {q} else {}) cm (p_wheel W))"
proof -
  let ?cm = "p_cm W"
  have inv: "cm_inv ?cm" "det_inv ?cm" "table_ok cfg ?cm" "wheel_inv ent {} ?cm (p_wheel W)"
    using pinv by (simp_all add: pipe_inv_def)
  have weak: "wheel_inv ent A ?cm (p_wheel W)" for A using inv(4) by (simp add: wheel_inv_def)
  show ?thesis
  proof (cases "sock2port ?cm s")
    case (Some q)
    have "look = Inr (Some (pidx ?cm q), ?cm)"
      unfolding look_def using insert_known [OF inv(1) Some, of X]
      by (simp add: get_mut_by_sock_eq [OF inv(1)] Some)
    moreover have "proto_table X ?cm \<longrightarrow> proto_inv (sides_of X (con_at ?cm q))"
      using cm_inv_sock2port(1,2) [OF inv(1) Some] unfolding proto_table_def by blast
    ultimately show ?thesis using inv weak Some cm_inv_sock2port(1,2) [OF inv(1) Some] by (auto simp: client_port_def)
  next
    case None
    consider "\<not> syn_flag (tcp_h p) \<or> free_ports ?cm = []" | q rest where "syn_flag (tcp_h p)" "free_ports ?cm = q # rest"
      by (metis list.exhaust)
    then show ?thesis
    proof cases
      case 1
      have "look = Inr (None, ?cm)"
        unfolding look_def using 1 insert_exhausted [OF None, of X]
        by (auto simp: get_mut_by_sock_eq [OF inv(1)] None)
      then show ?thesis by blast
    next
      case 2
      obtain cm where c: "get_mut_or_insert X s ?cm = Inr (Some (pidx ?cm q), cm)" "cm_inv cm" "det_inv cm"
        "same_conf ?cm cm" "owns_tcp_port ?cm q" "q \<noteq> 0" "sock2port cm = (sock2port ?cm)(s \<mapsto> q)"
        "(con_at cm q)\<lparr>detailed_c := None\<rparr> = (con_initialize X s q (con_at ?cm q))\<lparr>detailed_c := None\<rparr>"
        "\<forall>r. r \<noteq> q \<longrightarrow> con_at cm r = con_at ?cm r"
        using insert_fresh [OF inv(1,2) None 2(2)] ip 2(1) by blast
      have new: "proxy_port (con_at cm q) = q" "client_state (con_at cm q) = state_as_u8 X Closed"
        "server_state (con_at cm q) = state_as_u8 X Listen"
        "payload_packet (con_at cm q) = None" "server_index (con_at cm q) = 0" "c2s_inserted_bytes (con_at cm q) = 0"
        using arg_cong [OF c(8), of proxy_port] arg_cong [OF c(8), of client_state] arg_cong [OF c(8), of server_state]
          arg_cong [OF c(8), of payload_packet] arg_cong [OF c(8), of server_index]
          arg_cong [OF c(8), of c2s_inserted_bytes] by (simp_all add: con_initialize_def)
      have "con_ok cfg (con_at cm q)" using new env by (simp add: con_ok_def env_ok_def)
      then have "table_ok cfg cm" using inv(3) c(4,9) unfolding table_ok_def by (metis same_conf_owns)
      moreover have "con_client_state X (con_at cm q) = Closed"
        using new env by (simp add: con_client_state_def env_ok_def)
      moreover have "proto_inv (sides_of X (con_at cm q))"
        using new env by (simp add: sides_of_def con_client_state_def con_server_state_def env_ok_def)
      moreover have "wheel_inv ent {q} cm (p_wheel W)" by (rule wheel_inv_insert [OF inv(4) c(4,9)])
      moreover have "look = Inr (Some (pidx cm q), cm)" using 2 c(1,4) by (simp add: look_def same_conf_pidx)
      moreover have "in_use (con_at cm q)" using new c(6) by (simp add: in_use_def)
      moreover have "client_port s (syn_flag (tcp_h p)) ?cm = Some q" using None 2 by (simp add: client_port_def)
      ultimately show ?thesis using c 2 by auto
    qed
  qed
qed

section \<open>The handlers\<close>

text \<open>
  What a handler guarantees: it returns, keeps the invariant and the configuration, touches no
  connection but that of the given port, and asks to release a port only if it is this one and in use.
\<close>

definition handled ::
  "('cr, 'st, 'w, 'm, 'z) net_lib_scheme \<Rightarrow> 'm pcfg \<Rightarrow> ('w \<Rightarrow> u16 \<times> u16 \<Rightarrow> u16 option) \<Rightarrow> u16 option \<Rightarrow> ('st, 'w, 'm) pipe \<Rightarrow>
   (('st, 'w, 'm) pipe \<times> 'm pdu_scheme \<times> nat \<times> u16 option) res \<Rightarrow> bool" where
  "handled X cfg ent port W r \<longleftrightarrow> (\<exists>W' p' g rel. r = Inr (W', p', g, rel) \<and> pipe_inv X cfg ent W' \<and>
     same_conf (p_cm W) (p_cm W') \<and> p_ticks W' = p_ticks W \<and> g \<le> 2 \<and>
     (\<exists>q. (\<forall>x. x \<noteq> q \<longrightarrow> con_at (p_cm W') x = con_at (p_cm W) x) \<and>
       (port = Some q \<or> rel = None \<and> con_at (p_cm W') q = con_at (p_cm W) q) \<and>
       (rel = None \<or> rel = Some q \<and> owns_tcp_port (p_cm W') q \<and> in_use (con_at (p_cm W') q)) \<and>
       (state_order_ok X \<longrightarrow> proto_table X (p_cm W) \<longrightarrow> rel = None \<longrightarrow> owns_tcp_port (p_cm W') q \<longrightarrow>
          in_use (con_at (p_cm W') q) \<longrightarrow> proto_inv (sides_of X (con_at (p_cm W') q)))))"

lemma leave_conf [simp]: "same_conf cm (p_cm (leave i cm W f))" "p_ticks (leave i cm W f) = p_ticks W"
  by (simp_all add: leave_def)

text \<open>The packet is acceptable to the connection of its client, if it has one.\<close>

definition client_packet_ok ::
  "('cr, 'st, 'w, 'm, 'z) net_lib_scheme \<Rightarrow> 'm pcfg \<Rightarrow> 'm pdu_scheme \<Rightarrow> ('st, 'w, 'm) pipe \<Rightarrow> bool" where
  "client_packet_ok X cfg p W \<longleftrightarrow> (\<forall>q. sock2port (p_cm W) (ip_src (ip_h p), src_port (tcp_h p)) = Some q \<longrightarrow>
     bind_ok cfg (tcp_h p) (con_client_state X (con_at (p_cm W) q)) (con_server_state X (con_at (p_cm W) q)) (con_at (p_cm W) q) p)"

lemma handle_client_ok:
  assumes pinv: "pipe_inv X cfg ent W" and env: "env_ok X cfg" and wh: "wheel_ok X ent"
    and ref: "refcnt p = 1"
    and ip: "syn_flag (tcp_h p) \<longrightarrow> ip_src (ip_h p) \<noteq> 0 \<and> wheel_load ent (p_wheel W) < 2 ^ 16"
    and acc: "\<not> syn_flag (tcp_h p) \<longrightarrow> client_packet_ok X cfg p W"
  shows "handled X cfg ent (client_port (ip_src (ip_h p), src_port (tcp_h p)) (syn_flag (tcp_h p)) (p_cm W)) W
    (handle_client X cfg clk p W)"
proof -
  let ?s = "(ip_src (ip_h p), src_port (tcp_h p))"
  let ?look = "if syn_flag (tcp_h p) then get_mut_or_insert X ?s (p_cm W)
    else bindR (get_mut_by_sock X ?s (p_cm W)) (\<lambda>r. Inr (r, p_cm W))"
  have conf: "\<not> detailed_records (p_cm W)" "alloc_ok (p_alloc W)" using pinv by (simp_all add: pipe_inv_def)
  consider "?look = Inr (None, p_cm W)" | q cm where "?look = Inr (Some (pidx cm q), cm)" "cm_inv cm" "det_inv cm"
      "same_conf (p_cm W) cm" "table_ok cfg cm" "owns_tcp_port cm q" "in_use (con_at cm q)"
      "\<forall>r. r \<noteq> q \<longrightarrow> con_at cm r = con_at (p_cm W) r"
      "proto_table X (p_cm W) \<longrightarrow> proto_inv (sides_of X (con_at cm q))"
      "wheel_inv ent (if con_client_state X (con_at cm q) = Closed \<and> syn_flag (tcp_h p) then {q} else {}) cm (p_wheel W)"
      "sock2port cm ?s = Some q" "client_port ?s (syn_flag (tcp_h p)) (p_cm W) = Some q"
    using client_lookup [OF pinv env, of p ?s] ip by auto
  then show ?thesis
  proof cases
    case 1
    then have "handle_client X cfg clk p W = Inr (W\<lparr>p_cm := p_cm W\<rparr>, p, 0, None)"
      by (simp add: handle_client_def Let_def)
    then show ?thesis using pinv by (simp add: handled_def proto_table_def)
  next
    case 2
    let ?f = "enter (pidx cm q) cm p W"
    have nd: "\<not> detailed_records cm" using conf 2(4) by (simp add: same_conf_def)
    have co: "con_ok cfg (con_at cm q)" using 2(5-7) by (simp add: table_ok_def)
    obtain s where s: "frame_ok cfg q s (wheel_slot_and_index (con_at cm q)) (p_wheel W) ?f"
      "con_sock (con_at cm q) = Some s"
      by (rule enter_frame [OF 2(2,3) nd 2(6,7) co conf(2)])
    have fc: "f_con ?f = con_at cm q" "refcnt (f_pdu ?f) = 1" using ref by (simp_all add: enter_def con_at_def)
    have "\<not> syn_flag (tcp_h p) \<Longrightarrow> cm = p_cm W" using 2(1) by (auto simp: bindR_eq_Inr)
    then have bo: "bind_ok cfg (tcp_h p) (con_client_state X (f_con ?f)) (con_server_state X (f_con ?f)) (f_con ?f) (f_pdu ?f)"
      using acc 2(11) by (cases "syn_flag (tcp_h p)") (auto simp: client_packet_ok_def bind_ok_def fc(1) enter_def con_at_def)
    obtain f' k' w' where f': "client_step X cfg clk (tcp_h p) ?f = Inr f'" "frame_ok cfg q s k' w' f'"
      "wheel_step X (con_client_state X (con_at cm q) = Closed \<and> syn_flag (tcp_h p)) q
        (wheel_slot_and_index (con_at cm q), p_wheel W) (k', w')"
      using client_step_keeps [OF env s(1) fc(2) bo] unfolding fc(1) by blast
    let ?W = "leave (pidx cm q) cm W f'"
    have room: "con_client_state X (con_at cm q) = Closed \<and> syn_flag (tcp_h p) \<longrightarrow> wheel_load ent (p_wheel W) < 2 ^ 16"
      using ip by simp
    note lv = leave_inv [OF 2(2,3) nd 2(5,6,7) wh 2(10) room f'(3,2) s(2)]
    have "handle_client X cfg clk p W = Inr (?W, f_pdu f', f_group f', f_release f')"
      using 2(1) f'(1) by (simp add: handle_client_def Let_def)
    moreover have "same_conf (p_cm W) (p_cm ?W)" using 2(4) by (rule same_conf_trans) simp
    moreover have "\<forall>x. x \<noteq> q \<longrightarrow> con_at (p_cm ?W) x = con_at (p_cm W) x" using lv(3) 2(8) by simp
    moreover have "owns_tcp_port (p_cm ?W) q" using 2(6) by (simp add: leave_def)
    moreover have "proto_inv (sides_of X (f_con f'))"
      if "state_order_ok X" "proto_table X (p_cm W)" "f_release f' = None"
      using client_step_proto [OF env that(1) f'(1) _ _ that(3)] 2(9) that(2) fc(1) by (simp add: enter_def)
    ultimately show ?thesis
      unfolding handled_def using lv(1,2,4) frame_okD(6,7) [OF f'(2)] 2(12)
      by (intro exI [of _ ?W] exI [of _ "f_pdu f'"] exI [of _ "f_group f'"] exI [of _ "f_release f'"] exI [of _ q] conjI)
        simp_all
  qed
qed

lemma handle_server_ok:
  assumes pinv: "pipe_inv X cfg ent W" and env: "env_ok X cfg" and wh: "wheel_ok X ent"
  shows "handled X cfg ent (Some (dst_port (tcp_h p))) W (handle_server X cfg clk p W)"
proof -
  let ?cm = "p_cm W" and ?q = "dst_port (tcp_h p)"
  have inv: "cm_inv ?cm" "det_inv ?cm" "\<not> detailed_records ?cm" "table_ok cfg ?cm" "wheel_inv ent {} ?cm (p_wheel W)"
    "alloc_ok (p_alloc W)" using pinv by (simp_all add: pipe_inv_def)
  show ?thesis
  proof (cases "owns_tcp_port ?cm ?q \<and> in_use (con_at ?cm ?q)")
    case False
    then have "handle_server X cfg clk p W = Inr (W, p, 2, None)"
      by (auto simp: handle_server_def Let_def get_mut_by_port_eq [OF cm_inv_wf [OF inv(1)]])
    then show ?thesis using pinv by (simp add: handled_def proto_table_def)
  next
    case True
    then have q: "owns_tcp_port ?cm ?q" "in_use (con_at ?cm ?q)" by simp_all
    let ?f = "enter (pidx ?cm ?q) ?cm p W"
    have co: "con_ok cfg (con_at ?cm ?q)" using inv(4) q by (simp add: table_ok_def)
    obtain s where s: "frame_ok cfg ?q s (wheel_slot_and_index (con_at ?cm ?q)) (p_wheel W) ?f"
      "con_sock (con_at ?cm ?q) = Some s"
      by (rule enter_frame [OF inv(1-3) q co inv(6)])
    obtain f' where f': "server_step X cfg clk (tcp_h p) ?f = Inr f'"
      "frame_ok cfg ?q s (wheel_slot_and_index (con_at ?cm ?q)) (p_wheel W) f'"
      using server_step_keeps [OF env s(1)] by blast
    let ?W = "leave (pidx ?cm ?q) ?cm W f'"
    have "wheel_step X False ?q (wheel_slot_and_index (con_at ?cm ?q), p_wheel W)
      (wheel_slot_and_index (con_at ?cm ?q), p_wheel W)" by (simp add: wheel_step_def)
    note lv = leave_inv [OF inv(1-4) q wh _ _ this f'(2) s(2), simplified, OF inv(5)]
    have "handle_server X cfg clk p W = Inr (?W, f_pdu f', f_group f', f_release f')"
      using q f'(1) by (simp add: handle_server_def Let_def get_mut_by_port_eq [OF cm_inv_wf [OF inv(1)]])
    moreover have "owns_tcp_port (p_cm ?W) ?q" using q by (simp add: leave_def)
    moreover have "f_con ?f = con_at ?cm ?q" by (simp add: enter_def con_at_def)
    then have "proto_inv (sides_of X (f_con f'))" if "state_order_ok X" "proto_table X ?cm"
      using server_step_proto [OF env that(1) f'(1)] that(2) q by (simp add: enter_def proto_table_def)
    ultimately show ?thesis
      unfolding handled_def using lv frame_okD(6,7) [OF f'(2)]
      by (intro exI [of _ ?W] exI [of _ "f_pdu f'"] exI [of _ "f_group f'"] exI [of _ "f_release f'"] exI [of _ ?q] conjI)
        simp_all
  qed
qed

section \<open>Release, timer ticks and the whole closure\<close>

lemma release_connection_ok:
  assumes pinv: "pipe_inv X cfg ent W" and wh: "wheel_ok X ent"
    and rel: "rel = None \<or> rel = Some q \<and> owns_tcp_port (p_cm W) q \<and> in_use (con_at (p_cm W) q)"
  shows "\<exists>W'. release_connection X rel W = Inr W' \<and> pipe_inv X cfg ent W' \<and> same_conf (p_cm W) (p_cm W') \<and>
    (\<forall>x. x \<noteq> q \<longrightarrow> con_at (p_cm W') x = con_at (p_cm W) x) \<and> (rel = Some q \<longrightarrow> \<not> in_use (con_at (p_cm W') q)) \<and>
    (rel = None \<longrightarrow> W' = W)"
proof (cases "rel = None")
  case True
  then show ?thesis using pinv by (simp add: release_connection_def)
next
  case False
  then have q: "rel = Some q" "owns_tcp_port (p_cm W) q" "in_use (con_at (p_cm W) q)" using rel by auto
  have inv: "cm_inv (p_cm W)" "det_inv (p_cm W)" "wheel_inv ent {} (p_cm W) (p_wheel W)" "table_ok cfg (p_cm W)"
    "\<not> detailed_records (p_cm W)" "alloc_ok (p_alloc W)"
    using pinv by (simp_all add: pipe_inv_def)
  obtain s where s: "sock2port (p_cm W) s = Some q" using cm_inv_used [OF inv(1) q(2,3)] by metis
  obtain cm' w' where r: "release_port X q (p_cm W, p_wheel W) = Inr (cm', w')" "cm_inv cm'" "det_inv cm'"
    "wheel_inv ent {} cm' w'" "same_conf (p_cm W) cm'" "con_at cm' q = con_release (con_at (p_cm W) q)"
    "\<forall>x. x \<noteq> q \<longrightarrow> con_at cm' x = con_at (p_cm W) x"
    using release_port_ok [OF inv(1,2) wh inv(3) q(2,3) s] by blast
  have "con_ok cfg (con_at cm' x)" if "owns_tcp_port cm' x" "in_use (con_at cm' x)" for x
    using that inv(4) r(5,6,7) by (cases "x = q") (simp_all add: table_ok_def)
  then have tab: "table_ok cfg cm'" by (simp add: table_ok_def)
  have nd: "\<not> detailed_records cm'" using inv(5) r(5) by (simp add: same_conf_def)
  define W' where "W' = W\<lparr>p_cm := cm', p_wheel := w'\<rparr>"
  have sel: "p_cm W' = cm'" "p_wheel W' = w'" "p_alloc W' = p_alloc W" by (simp_all add: W'_def)
  have "release_connection X rel W = Inr W'" using q(1) r(1) by (simp add: release_connection_def W'_def)
  moreover have "pipe_inv X cfg ent W'" using r(2-4) tab nd inv(6) by (simp add: pipe_inv_def sel)
  ultimately show ?thesis using r(5-7) q(1) by (simp add: sel)
qed

lemma fetch_plain:
  assumes "cm_inv cm" and "det_inv cm" and "\<not> detailed_records cm"
  shows "\<exists>cm'. fetch_c_records X cm = (Some (rc_heap cm (record_store cm)), cm') \<and> cm_inv cm' \<and> det_inv cm' \<and>
    same_conf cm cm' \<and> con_at cm' = con_at cm \<and> free_ports cm' = free_ports cm \<and> sock2port cm' = sock2port cm"
proof -
  have none: "detailed_c c = None" if "c \<in> set (port2con cm)" for c
    using assms(2,3) that by (auto simp: det_inv_def det_conn_def split: option.splits)
  then have "filter (holds_store (record_store cm)) (port2con cm) = []"
    by (simp add: filter_empty_conv holds_store_def)
  then have cnt: "strong_count (record_store cm) (port2con cm) = 1" by (simp add: strong_count_def)
  define cm' where "cm' = cm\<lparr>rc_heap := (rc_heap cm)(rc_next cm := st_with_capacity X MAX_RECORDS),
    rc_next := rc_next cm + 1, record_store := rc_next cm\<rparr>"
  have ne: "record_store cm \<noteq> rc_next cm" using assms(2) by (simp add: det_inv_def)
  have run: "fetch_c_records X cm = (Some (rc_heap cm (record_store cm)), cm')"
    using cnt ne by (simp add: fetch_c_records_def Let_def cm'_def)
  have at: "con_at cm' = con_at cm" "owns_tcp_port cm' = owns_tcp_port cm"
    by (simp_all add: fun_eq_iff con_at_def pidx_def owns_tcp_port_def cm'_def)
  have sel: "free_ports cm' = free_ports cm" "sock2port cm' = sock2port cm" "port_mask cm' = port_mask cm"
    "tcp_port_base cm' = tcp_port_base cm" "table_wf cm' = table_wf cm"
    by (simp_all add: cm'_def table_wf_def)
  have "cm_inv cm'" using assms(1) unfolding cm_inv_def at sel .
  moreover have "det_inv cm'" using none assms(3) by (simp add: det_inv_def cm'_def det_conn_def)
  moreover have "same_conf cm cm'" by (simp add: same_conf_def cm'_def)
  ultimately show ?thesis using run at(1) sel(1,2) by blast
qed

lemma handle_message_ok:
  assumes "pipe_inv X cfg ent W" and open_tx: "p_tx_open W"
  shows "\<exists>W'. handle_message X msg W = Inr W' \<and> pipe_inv X cfg ent W' \<and> same_conf (p_cm W) (p_cm W') \<and>
    p_wheel W' = p_wheel W \<and> con_at (p_cm W') = con_at (p_cm W) \<and> p_ticks W' = p_ticks W \<and> p_tx_open W'"
proof -
  have inv: "cm_inv (p_cm W)" "det_inv (p_cm W)" "wheel_inv ent {} (p_cm W) (p_wheel W)" "table_ok cfg (p_cm W)"
    "\<not> detailed_records (p_cm W)" "alloc_ok (p_alloc W)"
    using assms by (simp_all add: pipe_inv_def)
  obtain cm' where c: "fetch_c_records X (p_cm W) = (Some (rc_heap (p_cm W) (record_store (p_cm W))), cm')"
    "cm_inv cm'" "det_inv cm'" "same_conf (p_cm W) cm'" "con_at cm' = con_at (p_cm W)"
    using fetch_plain [OF inv(1,2,5)] by blast
  have "table_ok cfg cm'" "wheel_inv ent {} cm' (p_wheel W)" "\<not> detailed_records cm'"
    using inv(3-5) c(4,5) by (simp_all add: table_ok_def wheel_inv_def same_conf_def owns_tcp_port_def)
  note facts = this inv c open_tx
  consider "msg = Some FetchCounter" | "msg = Some FetchCRecords" | "handle_message X msg W = Inr W"
    by (cases msg; cases "the msg") (auto simp: handle_message_def)
  then show ?thesis
    using facts assms by cases (simp_all add: handle_message_def send_reply_def pipe_inv_def)
qed

lemma table_ok_shrink:
  assumes "table_ok cfg cm" and "same_conf cm cm'"
    and "\<forall>q. in_use (con_at cm' q) \<longrightarrow> owns_tcp_port cm q \<longrightarrow> con_at cm' q = con_at cm q"
  shows "table_ok cfg cm'"
  using assms(1,3) unfolding table_ok_def same_conf_owns [OF assms(2)] by metis

lemma handle_timer_ok:
  assumes pinv: "pipe_inv X cfg ent W" and env: "env_ok X cfg" and wh: "wheel_ok X ent" "wheel_catches_up X lag"
    and tk: "overflow_checks X \<longrightarrow> p_ticks W \<noteq> - 1" and open_tx: "p_tx_open W"
  shows "\<exists>W'. handle_timer X cfg clk msg W = Some (Inr W') \<and> pipe_inv X cfg ent W' \<and> same_conf (p_cm W) (p_cm W') \<and>
    (\<forall>q. in_use (con_at (p_cm W') q) \<longrightarrow> owns_tcp_port (p_cm W) q \<longrightarrow> con_at (p_cm W') q = con_at (p_cm W) q) \<and>
    p_ticks W' = p_ticks W + 1 \<and>
    (\<exists>V. handle_message X msg (W\<lparr>p_ticks := p_ticks W + 1\<rparr>) = Inr V \<and> p_tx W' = p_tx V) \<and>
    (if (p_ticks W + 1) mod wheel_tick_reduction_factor cfg = 0
     then \<exists>ps. wheel_hands_out X (clk 0) (p_wheel W) ps (p_wheel W') \<and>
       (\<forall>q. owns_tcp_port (p_cm W) q \<longrightarrow> in_use (con_at (p_cm W') q) = (in_use (con_at (p_cm W) q) \<and> q \<notin> set ps))
     else p_wheel W' = p_wheel W \<and> con_at (p_cm W') = con_at (p_cm W))"
proof -
  have add: "add_w (overflow_checks X) (p_ticks W) 1 = Inr (p_ticks W + 1)"
    by (rule add_w_one) (use tk in simp)
  have "pipe_inv X cfg ent (W\<lparr>p_ticks := p_ticks W + 1\<rparr>)" using pinv by (simp add: pipe_inv_def)
  then obtain V where m: "handle_message X msg (W\<lparr>p_ticks := p_ticks W + 1\<rparr>) = Inr V" "pipe_inv X cfg ent V"
    "same_conf (p_cm W) (p_cm V)" "con_at (p_cm V) = con_at (p_cm W)" "p_ticks V = p_ticks W + 1"
    "p_wheel V = p_wheel W"
    using handle_message_ok [of X cfg ent "W\<lparr>p_ticks := p_ticks W + 1\<rparr>" msg] open_tx by auto
  have f: "wheel_tick_reduction_factor cfg \<noteq> 0" using env by (simp add: env_ok_def)
  show ?thesis
  proof (cases "(p_ticks W + 1) mod wheel_tick_reduction_factor cfg = 0")
    case False
    then have "handle_timer X cfg clk msg W = Some (Inr V)"
      using f add m(1,5) by (simp add: handle_timer_def)
    then show ?thesis using m False by simp
  next
    case True
    have inv: "cm_inv (p_cm V)" "det_inv (p_cm V)" "wheel_inv ent {} (p_cm V) (p_wheel V)" "table_ok cfg (p_cm V)"
      "\<not> detailed_records (p_cm V)" "alloc_ok (p_alloc V)"
      using m(2) by (simp_all add: pipe_inv_def)
    obtain cm' w' ps where r: "release_timeouts X (clk 0) (\<lambda>n. clk (Suc n)) (p_cm V) (p_wheel V) = Some (Inr (cm', w'))"
      "cm_inv cm'" "det_inv cm'" "wheel_inv ent {} cm' w'" "same_conf (p_cm V) cm'"
      "\<forall>q. in_use (con_at cm' q) \<longrightarrow> owns_tcp_port (p_cm V) q \<longrightarrow> con_at cm' q = con_at (p_cm V) q"
      "wheel_hands_out X (clk 0) (p_wheel V) ps w'"
      "\<forall>q. owns_tcp_port (p_cm V) q \<longrightarrow> in_use (con_at cm' q) = (in_use (con_at (p_cm V) q) \<and> q \<notin> set ps)"
      using release_timeouts_ok [OF wh inv(1-3), of "clk 0" "\<lambda>n. clk (Suc n)"] by (elim exE conjE)
    have "handle_timer X cfg clk msg W = Some (Inr (V\<lparr>p_cm := cm', p_wheel := w'\<rparr>))"
      using f add True r(1) m(1,5) by (simp add: handle_timer_def)
    moreover have "table_ok cfg cm'" by (rule table_ok_shrink [OF inv(4) r(5,6)])
    moreover have "\<not> detailed_records cm'" using r(5) inv(5) by (simp add: same_conf_def)
    moreover have "same_conf (p_cm W) cm'" using m(3) r(5) by (rule same_conf_trans)
    ultimately show ?thesis
      using r(2-4,6-8) inv(6) m True by (auto simp: pipe_inv_def)
  qed
qed

text \<open>
  The packets a pipeline may be given: a packet is the only handle to its buffer, a SYN has a sender
  address and comes when the timer wheel has room, a first payload packet is one that the selection
  callback accepts, the tick counter has not reached its end in a build that checks for overflow, and
  the run-time still listens to the pipeline.
\<close>

definition offloaded :: "('cr, 'st, 'w, 'm, 'z) net_lib_scheme \<Rightarrow> 'm pcfg \<Rightarrow> 'm pdu_scheme \<Rightarrow> 'm pdu_scheme" where
  "offloaded X cfg p = (if csum_offload cfg then set_tcp_ipv4_checksum_tx_offload X p else p)"

lemma offloaded_sel [simp]:
  assumes "net_ok X"
  shows "tcp_h (offloaded X cfg p) = tcp_h p" "ip_h (offloaded X cfg p) = ip_h p" "mac_h (offloaded X cfg p) = mac_h p"
    "refcnt (offloaded X cfg p) = refcnt p" "payload (offloaded X cfg p) = payload p"
  using assms by (simp_all add: offloaded_def)

definition input_ok ::
  "('cr, 'st, 'w, 'm, 'z) net_lib_scheme \<Rightarrow> 'm pcfg \<Rightarrow> ('w \<Rightarrow> u16 \<times> u16 \<Rightarrow> u16 option) \<Rightarrow> 'm pdu_scheme \<Rightarrow>
   ('st, 'w, 'm) pipe \<Rightarrow> bool" where
  "input_ok X cfg ent p W \<longleftrightarrow> refcnt p = 1 \<and>
     (syn_flag (tcp_h p) \<longrightarrow> ip_src (ip_h p) \<noteq> 0 \<and> wheel_load ent (p_wheel W) < 2 ^ 16) \<and>
     (\<not> syn_flag (tcp_h p) \<and> dst_port (tcp_h p) = l_port (me_l234 (me cfg)) \<longrightarrow> client_packet_ok X cfg (offloaded X cfg p) W) \<and>
     (overflow_checks X \<longrightarrow> p_ticks W \<noteq> - 1) \<and> p_tx_open W"

lemma closure_ok:
  assumes pinv: "pipe_inv X cfg ent W" and env: "env_ok X cfg" and wh: "wheel_ok X ent" "wheel_catches_up X lag"
    and inp: "input_ok X cfg ent p W"
  shows "\<exists>W' p' g. delayed_binding_closure X cfg clk msg p W = Some (Inr (W', p', g)) \<and>
    pipe_inv X cfg ent W' \<and> same_conf (p_cm W) (p_cm W') \<and> g \<le> 2 \<and>
    (state_order_ok X \<longrightarrow> proto_table X (p_cm W) \<longrightarrow> proto_table X (p_cm W'))"
proof -
  have net: "net_ok X" using env by (simp add: env_ok_def)
  let ?p = "offloaded X cfg p"
  have p: "tcp_h ?p = tcp_h p" "ip_h ?p = ip_h p" "mac_h ?p = mac_h p" "refcnt ?p = refcnt p" using net by simp_all
  have tcp: "\<exists>W' p' g. bindR r (\<lambda>(W, p, g, rel). bindR (release_connection X rel W) (\<lambda>W. Inr (W, p, g))) = Inr (W', p', g) \<and>
      pipe_inv X cfg ent W' \<and> same_conf (p_cm W) (p_cm W') \<and> g \<le> 2 \<and>
      (state_order_ok X \<longrightarrow> proto_table X (p_cm W) \<longrightarrow> proto_table X (p_cm W'))"
    if h: "handled X cfg ent port W r" for r port
  proof -
    obtain W1 p1 g rel q where r: "r = Inr (W1, p1, g, rel)" "pipe_inv X cfg ent W1" "same_conf (p_cm W) (p_cm W1)" "g \<le> 2"
      "\<forall>x. x \<noteq> q \<longrightarrow> con_at (p_cm W1) x = con_at (p_cm W) x"
      "rel = None \<or> rel = Some q \<and> owns_tcp_port (p_cm W1) q \<and> in_use (con_at (p_cm W1) q)"
      "state_order_ok X \<longrightarrow> proto_table X (p_cm W) \<longrightarrow> rel = None \<longrightarrow> owns_tcp_port (p_cm W1) q \<longrightarrow>
          in_use (con_at (p_cm W1) q) \<longrightarrow> proto_inv (sides_of X (con_at (p_cm W1) q))"
      using h unfolding handled_def by blast
    obtain W2 where w2: "release_connection X rel W1 = Inr W2" "pipe_inv X cfg ent W2" "same_conf (p_cm W1) (p_cm W2)"
      "\<forall>x. x \<noteq> q \<longrightarrow> con_at (p_cm W2) x = con_at (p_cm W1) x" "rel = Some q \<longrightarrow> \<not> in_use (con_at (p_cm W2) q)"
      "rel = None \<longrightarrow> W2 = W1"
      using release_connection_ok [OF r(2) wh(1) r(6)] by blast
    have conf: "same_conf (p_cm W) (p_cm W2)" by (rule same_conf_trans [OF r(3) w2(3)])
    have "proto_table X (p_cm W2)" if so: "state_order_ok X" and pt: "proto_table X (p_cm W)"
      unfolding proto_table_def
    proof (intro allI impI)
      fix x assume x: "owns_tcp_port (p_cm W2) x" "in_use (con_at (p_cm W2) x)"
      show "proto_inv (sides_of X (con_at (p_cm W2) x))"
      proof (cases "x = q")
        case True
        then have "rel = None" using w2(5) r(6) x(2) by blast
        then show ?thesis using True x r(7) w2(6) so pt by simp
      next
        case False
        then have "con_at (p_cm W2) x = con_at (p_cm W) x" using w2(4) r(5) by simp
        then show ?thesis using pt x conf by (simp add: proto_table_def)
      qed
    qed
    then show ?thesis using r(1,4) w2(1,2) conf by simp
  qed
  have "handled X cfg ent (client_port (ip_src (ip_h ?p), src_port (tcp_h ?p)) (syn_flag (tcp_h ?p)) (p_cm W)) W
      (handle_client X cfg clk ?p W)" if "dst_port (tcp_h p) = l_port (me_l234 (me cfg))"
    by (rule handle_client_ok [OF pinv env wh(1)]) (use inp p that in \<open>auto simp: input_ok_def\<close>)
  note c = tcp [OF this]
  note s = tcp [OF handle_server_ok [OF pinv env wh(1), where p = ?p and clk = clk]]
  obtain W3 where t: "handle_timer X cfg clk msg W = Some (Inr W3)" "pipe_inv X cfg ent W3" "same_conf (p_cm W) (p_cm W3)"
    "\<forall>q. in_use (con_at (p_cm W3) q) \<longrightarrow> owns_tcp_port (p_cm W) q \<longrightarrow> con_at (p_cm W3) q = con_at (p_cm W) q"
    using handle_timer_ok [OF pinv env wh, of clk msg] inp by (auto simp: input_ok_def)
  have t5: "proto_table X (p_cm W) \<longrightarrow> proto_table X (p_cm W3)"
    using t(3,4) unfolding proto_table_def by (metis same_conf_owns)
  show ?thesis
  proof (cases "l2_l3_filter X cfg p")
    case None
    then show ?thesis
      using c s t(1-3) t5 pinv unfolding delayed_binding_closure_def Let_def offloaded_def [symmetric] p by simp
  next
    case (Some g)
    moreover have "g \<le> 2" using Some by (auto simp: l2_l3_filter_def Let_def split: if_splits)
    ultimately show ?thesis using pinv by (simp add: delayed_binding_closure_def Let_def)
  qed
qed

section \<open>Runs of a pipeline\<close>

inductive pipe_step ::
  "('cr, 'st, 'w, 'm, 'z) net_lib_scheme \<Rightarrow> 'm pcfg \<Rightarrow> ('w \<Rightarrow> u16 \<times> u16 \<Rightarrow> u16 option) \<Rightarrow>
   ('st, 'w, 'm) pipe \<Rightarrow> ('st, 'w, 'm) pipe \<Rightarrow> bool"
  for X cfg ent where
  packet: "input_ok X cfg ent p W \<Longrightarrow> delayed_binding_closure X cfg clk msg p W = Some (Inr (W', p', g)) \<Longrightarrow>
    pipe_step X cfg ent W W'"

inductive reachable ::
  "('cr, 'st, 'w, 'm, 'z) net_lib_scheme \<Rightarrow> 'm pcfg \<Rightarrow> ('w \<Rightarrow> u16 \<times> u16 \<Rightarrow> u16 option) \<Rightarrow>
   ('st, 'w, 'm) pipe \<Rightarrow> ('st, 'w, 'm) pipe \<Rightarrow> bool"
  for X cfg ent W0 where
  start: "reachable X cfg ent W0 W0"
| further: "reachable X cfg ent W0 W \<Longrightarrow> pipe_step X cfg ent W W' \<Longrightarrow> reachable X cfg ent W0 W'"

inductive_cases pipe_stepE: "pipe_step X cfg ent W W'"

lemma pipe_step_inv:
  assumes "pipe_step X cfg ent W W'" and "pipe_inv X cfg ent W" and "env_ok X cfg" and "wheel_ok X ent" "wheel_catches_up X lag"
  shows "pipe_inv X cfg ent W'" and "same_conf (p_cm W) (p_cm W')"
    and "state_order_ok X \<Longrightarrow> proto_table X (p_cm W) \<Longrightarrow> proto_table X (p_cm W')"
proof -
  obtain p clk msg p' g where "input_ok X cfg ent p W" and r: "delayed_binding_closure X cfg clk msg p W = Some (Inr (W', p', g))"
    using assms(1) by (rule pipe_stepE)
  with closure_ok [OF assms(2-5), of p clk msg] show "pipe_inv X cfg ent W'" and "same_conf (p_cm W) (p_cm W')"
    and "state_order_ok X \<Longrightarrow> proto_table X (p_cm W) \<Longrightarrow> proto_table X (p_cm W')" by auto
qed

lemma reachable_inv:
  assumes "reachable X cfg ent W0 W" and "pipe_inv X cfg ent W0" and "env_ok X cfg" and "wheel_ok X ent" "wheel_catches_up X lag"
  shows "pipe_inv X cfg ent W \<and> same_conf (p_cm W0) (p_cm W)"
  using assms(1)
proof induction
  case start
  then show ?case using assms(2) by simp
next
  case (further W W')
  then show ?case using pipe_step_inv [OF further.hyps(2) _ assms(3-5)] same_conf_trans by blast
qed

lemma reachable_proto:
  assumes "reachable X cfg ent W0 W" and "pipe_inv X cfg ent W0" and "env_ok X cfg" and "wheel_ok X ent" "wheel_catches_up X lag"
    and "state_order_ok X" and "proto_table X (p_cm W0)"
  shows "proto_table X (p_cm W)"
  using assms(1)
proof induction
  case start
  then show ?case using assms(7) by simp
next
  case (further W W')
  then show ?case using pipe_step_inv(3) [OF further.hyps(2) _ assms(3-6)] reachable_inv [OF further.hyps(1) assms(2-5)] by blast
qed

end
