(* ===== verification/Setup.thy ===== *)
theory Setup
  imports Pipeline_Safe
begin

text \<open>
  Set-up of a pipeline: the part of \<open>setup_delayed_proxy\<close> in \<^verbatim>\<open>nftcp.rs\<close> around the packet closure,
  and \<open>setup_pipes_delayed_proxy\<close> of \<^verbatim>\<open>lib.rs\<close>, which calls it for the ports of a core.

  The timer wheel's constructor and observers, the tick generator's tick length and the default
  timeouts are netfcts code and fields of the parameter record \<open>setup_api\<close>; the configuration of the
  network card is an argument. Building the graph of e2d2 tasks is not modelled beyond the messages
  that announce the tasks, in the order they are sent.
\<close>

section \<open>One pipeline\<close>

definition TIMER_WHEEL_RESOLUTION_MS :: u64 where
  "TIMER_WHEEL_RESOLUTION_MS = 10"

definition TIMER_WHEEL_SLOTS :: nat where
  "TIMER_WHEEL_SLOTS = 1002"

definition TIMER_WHEEL_SLOT_CAPACITY :: nat where
  "TIMER_WHEEL_SLOT_CAPACITY = 2500"

record 'w setup_api =
  wheel_new :: "nat \<Rightarrow> u64 \<Rightarrow> nat \<Rightarrow> 'w"
  wheel_resolution :: "'w \<Rightarrow> u64"
  wheel_max_timeout_cycles :: "'w \<Rightarrow> u64"
  tick_length :: "u64 \<Rightarrow> u64"
  default_or_some :: "u64 option option \<Rightarrow> u64 option"

datatype proxy_mode = DelayedV0 | Delayed

record engine_config =
  eng_timeouts :: "u64 option option"
  eng_port :: u16
  eng_detailed_records :: "bool option"
  eng_mode :: "proxy_mode option"

text \<open>
  What the network card and the run-time give a pipeline: the layer 2 to 4 data of the kernel
  interface (\<open>None\<close> where it has no specification), the flow of the receive queue, the port mask of
  the card, checksum offloading, the clock rate, and whether the message channel is still open.
\<close>

record pipe_env =
  env_l234 :: "l234data option"
  env_flow :: "(u32 \<times> u16) option"
  env_port_mask :: u16
  env_csum_offload :: bool
  env_cpu_clock :: u64
  env_tx_open :: bool

datatype setup_msg = ChannelMsg | TickGeneratorTask | Pipe2KniTask | Pipe2PciTask | BypassPipeTask

definition clamp_timeout :: "u64 \<Rightarrow> u64 option \<Rightarrow> u64 option" where
  "clamp_timeout max_cycles established =
     (case established of
        None \<Rightarrow> None
      | Some timeout \<Rightarrow> if timeout > max_cycles then Some max_cycles else Some timeout)"

definition div_w :: "u64 \<Rightarrow> u64 \<Rightarrow> u64 res" where
  "div_w a b = (if b = 0 then Inl DivByZero else Inr (a div b))"

definition send_msg :: "pipe_env \<Rightarrow> setup_msg \<Rightarrow> setup_msg list \<Rightarrow> setup_msg list res" where
  "send_msg e m sent = (if env_tx_open e then Inr (sent @ [m]) else Inl UnwrapNone)"

definition setup_delayed_proxy ::
  "('cr, 'st, 'w, 'm, 'z) net_lib_scheme \<Rightarrow> 'w setup_api \<Rightarrow> engine_config \<Rightarrow> pipe_env \<Rightarrow> l234data list \<Rightarrow>
   ('m conn \<Rightarrow> 'm conn res) \<Rightarrow> ('m conn \<Rightarrow> u8 list \<Rightarrow> nat \<Rightarrow> 'm conn \<times> u8 list) \<Rightarrow>
   ('m pcfg \<times> ('st, 'w, 'm) pipe \<times> setup_msg list) res" where
  "setup_delayed_proxy X A eng e srvs f_select f_process =
     bindR (unwrapR (env_flow e)) (\<lambda>flow.
     bindR (unwrapR (env_l234 e)) (\<lambda>l234.
     let me = \<lparr>me_l234 = l234\<lparr>l_port := eng_port eng\<rparr>, me_ip_s = fst flow\<rparr>;
         detailed_records = (case eng_detailed_records eng of None \<Rightarrow> False | Some b \<Rightarrow> b)
     in bindR (cm_new X (env_port_mask e) (fst flow) (snd flow) detailed_records) (\<lambda>cm.
     let timeouts = default_or_some A (eng_timeouts eng)
     in bindR (mul_w (overflow_checks X) (env_cpu_clock e) TIMER_WHEEL_RESOLUTION_MS) (\<lambda>cycles.
     let wheel = wheel_new A TIMER_WHEEL_SLOTS (cycles div 1000) TIMER_WHEEL_SLOT_CAPACITY;
         timeouts = clamp_timeout (wheel_max_timeout_cycles A wheel) timeouts
     in bindR (send_msg e ChannelMsg []) (\<lambda>sent.
     let tick = tick_length A (env_cpu_clock e div 100)
     in bindR (assertR (wheel_resolution A wheel \<ge> tick)) (\<lambda>_.
     bindR (div_w (wheel_resolution A wheel) tick) (\<lambda>factor.
     bindR (send_msg e TickGeneratorTask sent) (\<lambda>sent.
     bindR (send_msg e Pipe2KniTask sent) (\<lambda>sent.
     bindR (send_msg e Pipe2PciTask sent) (\<lambda>sent.
     bindR (send_msg e BypassPipeTask sent) (\<lambda>sent.
     Inr (\<lparr>me = me, pipeline_ip = cm_ip cm, tcp_min_port = tcp_port_base cm, servers = srvs,
           csum_offload = env_csum_offload e, timeouts_established = timeouts, cpu_clock = env_cpu_clock e,
           wheel_tick_reduction_factor = factor, f_select_server = f_select, f_process_payload_c_s = f_process\<rparr>,
          \<lparr>p_cm = cm, p_wheel = wheel, p_counter_c = (\<lambda>_. 0), p_counter_s = (\<lambda>_. 0), p_ticks = 0,
           p_alloc = allocator_new X, p_producer = [], p_tx = [], p_tx_open = env_tx_open e\<rparr>, sent))))))))))))"

text \<open>The documented behaviour of the constructors: they keep the resolution and tick length they are given.\<close>

definition setup_api_ok :: "'w setup_api \<Rightarrow> bool" where
  "setup_api_ok A \<longleftrightarrow> (\<forall>n r k. wheel_resolution A (wheel_new A n r k) = r) \<and> (\<forall>t. tick_length A t = t)"

lemma resolution_is_tick: "c * 10 div 1000 = c div 100" if "unat c * 10 < 2 ^ 64" for c :: u64
proof -
  have "unat (c * 10) = unat c * 10" using that by (simp add: unat_word_ariths)
  then show ?thesis by (simp add: word_unat_eq_iff unat_div)
qed

text \<open>What a pipeline starts with, however set-up came about.\<close>

lemma setup_result:
  assumes "setup_delayed_proxy X A eng e srvs f1 f2 = Inr (cfg, W, msgs)"
  shows "\<exists>flow. env_flow e = Some flow \<and>
      cm_new X (env_port_mask e) (fst flow) (snd flow) (eng_detailed_records eng = Some True) = Inr (p_cm W)"
    and "p_alloc W = allocator_new X" and "p_ticks W = 0"
proof -
  have d: "(case eng_detailed_records eng of None \<Rightarrow> False | Some b \<Rightarrow> b) = (eng_detailed_records eng = Some True)"
    by (auto split: option.splits)
  show "\<exists>flow. env_flow e = Some flow \<and>
      cm_new X (env_port_mask e) (fst flow) (snd flow) (eng_detailed_records eng = Some True) = Inr (p_cm W)"
    using assms unfolding setup_delayed_proxy_def d Let_def by (auto simp: bindR_eq_Inr)
  show "p_alloc W = allocator_new X" and "p_ticks W = 0"
    using assms unfolding setup_delayed_proxy_def Let_def by (auto simp: bindR_eq_Inr)
qed

lemma setup_constants:
  assumes "setup_delayed_proxy X A eng e srvs f1 f2 = Inr (cfg, W, msgs)"
  shows "servers cfg = srvs" and "f_select_server cfg = f1" and "f_process_payload_c_s cfg = f2"
    and "cpu_clock cfg = env_cpu_clock e" and "wheel_tick_reduction_factor cfg \<noteq> 0"
proof -
  show "servers cfg = srvs" "f_select_server cfg = f1" "f_process_payload_c_s cfg = f2" "cpu_clock cfg = env_cpu_clock e"
    using assms unfolding setup_delayed_proxy_def Let_def by (auto simp: bindR_eq_Inr)
  obtain tick res where f: "wheel_tick_reduction_factor cfg = res div tick" "tick \<le> res" "tick \<noteq> 0"
    using assms unfolding setup_delayed_proxy_def Let_def
    by (auto simp: bindR_eq_Inr div_w_def assertR_def split: if_splits)
  have "0 < unat tick" "unat tick \<le> unat res" using f(2,3) by (simp_all add: word_le_nat_alt unat_gt_0)
  then have "0 < unat (res div tick)" by (simp add: unat_div div_greater_zero_iff)
  then show "wheel_tick_reduction_factor cfg \<noteq> 0" using f(1) by auto
qed

lemma setup_inv:
  fixes X :: "('cr, 'st, 'w, 'm, 'z) net_lib_scheme" and W :: "('st, 'w, 'm) pipe"
  assumes run: "setup_delayed_proxy X A eng e srvs f1 f2 = Inr (cfg, W, msgs)" and sh: "shuffle_ok X"
    and flow: "env_flow e = Some (ip, base)" and conf: "mask_conf (env_port_mask e) base" "base + NOT (env_port_mask e) \<noteq> 0"
    and det: "eng_detailed_records eng \<noteq> Some True" and env: "env_ok X cfg"
  shows "pipe_inv X cfg ent W" and "proto_table X (p_cm W)" and "sock2port (p_cm W) = Map.empty"
    and "set (free_ports (p_cm W)) = {p. p AND env_port_mask e = base \<and> p \<noteq> 0}"
proof -
  have new: "cm_new X (env_port_mask e) ip base False = Inr (p_cm W)"
    using setup_result(1) [OF run] flow det by simp
  obtain cm :: "('st, 'm) cmanager" where cm: "cm_new X (env_port_mask e) ip base False = Inr cm" "cm_inv cm" "det_inv cm"
    "set (free_ports cm) = {p. p AND env_port_mask e = base \<and> p \<noteq> 0}" "sock2port cm = Map.empty" "\<not> detailed_records cm"
    using cm_new_ok [OF sh conf] by blast
  have eq: "p_cm W = cm" using new cm(1) by simp
  have idle: "\<not> (owns_tcp_port cm p \<and> in_use (con_at cm p))" for p
    using cm_inv_used [OF cm(2), of p] cm(5) by auto
  have "\<exists>b. new_pdu_array X 0 = Some b \<and> b \<noteq> []" using env unfolding env_ok_def by blast
  then have "alloc_ok (p_alloc W)"
    by (auto simp: alloc_ok_def setup_result(2) [OF run] allocator_new_def)
  then show "pipe_inv X cfg ent W"
    using cm(2,3,6) idle by (auto simp: pipe_inv_def eq table_ok_def wheel_inv_def)
  show "proto_table X (p_cm W)" using idle by (auto simp: proto_table_def eq)
  show "sock2port (p_cm W) = Map.empty" "set (free_ports (p_cm W)) = {p. p AND env_port_mask e = base \<and> p \<noteq> 0}"
    using cm(4,5) by (simp_all add: eq)
qed

section \<open>The ports of a core\<close>

text \<open>
  The loop of \<open>setup_pipes_delayed_proxy\<close>, as the list of its effects on the scheduler. Ports, queues and
  their attributes are e2d2 objects and stay abstract.
\<close>

record ('port, 'pci, 'kni) ports_api =
  physical_ports_for_core :: "int \<Rightarrow> (string \<rightharpoonup> 'port) \<Rightarrow> 'port list"
  kni_name :: "'port \<Rightarrow> string option"
  new_port_queues_for_core :: "int \<Rightarrow> 'port \<Rightarrow> 'port option \<Rightarrow> 'pci option \<times> 'kni option"
  is_native_kni :: "'kni \<Rightarrow> bool"
  rxq :: "'pci \<Rightarrow> nat"

datatype ('pci, 'kni) sched_action = AddKniHandleRequest 'kni | SetupProxy 'pci 'kni

definition port_actions ::
  "('port, 'pci, 'kni) ports_api \<Rightarrow> int \<Rightarrow> (string \<rightharpoonup> 'port) \<Rightarrow> 'port \<Rightarrow> ('pci, 'kni) sched_action list" where
  "port_actions P core pmd_ports pmd_port =
     (let kni_port = (case kni_name P pmd_port of None \<Rightarrow> None | Some n \<Rightarrow> pmd_ports n);
          (pci, kni) = new_port_queues_for_core P core pmd_port kni_port
      in case (pci, kni) of
           (Some p, Some k) \<Rightarrow>
             (if is_native_kni P k \<and> rxq P p = 0 then [AddKniHandleRequest k] else []) @ [SetupProxy p k]
         | _ \<Rightarrow> [])"

definition setup_pipes_delayed_proxy ::
  "('port, 'pci, 'kni) ports_api \<Rightarrow> int \<Rightarrow> (string \<rightharpoonup> 'port) \<Rightarrow> ('pci, 'kni) sched_action list" where
  "setup_pipes_delayed_proxy P core pmd_ports =
     concat (map (port_actions P core pmd_ports) (physical_ports_for_core P core pmd_ports))"


text \<open>
  A pipeline is set up for exactly the ports of the core that have both a network queue and a kernel
  interface; the handler of kernel requests is added for the first queue of a native interface only.
\<close>

fun proxies :: "('pci, 'kni) sched_action list \<Rightarrow> ('pci \<times> 'kni) list" where
  "proxies [] = []"
| "proxies (SetupProxy p k # as) = (p, k) # proxies as"
| "proxies (AddKniHandleRequest k # as) = proxies as"

lemma proxies_append [simp]: "proxies (as @ bs) = proxies as @ proxies bs"
  by (induction as rule: proxies.induct) simp_all

lemma proxies_concat: "proxies (concat (map f ports)) = concat (map (\<lambda>x. proxies (f x)) ports)"
  by (induction ports) simp_all

lemma proxies_iff: "(p, k) \<in> set (proxies as) \<longleftrightarrow> SetupProxy p k \<in> set as"
  by (induction as rule: proxies.induct) auto

lemma port_proxies:
  "proxies (port_actions P core pmd_ports port) =
     (case new_port_queues_for_core P core port (Option.bind (kni_name P port) pmd_ports) of
       (Some p, Some k) \<Rightarrow> [(p, k)] | _ \<Rightarrow> [])"
  by (cases "kni_name P port") (auto simp: port_actions_def Let_def split: prod.splits option.splits)

lemma setup_pipes_proxies:
  "proxies (setup_pipes_delayed_proxy P core pmd_ports) =
     concat (map (\<lambda>port. case new_port_queues_for_core P core port (Option.bind (kni_name P port) pmd_ports) of
       (Some p, Some k) \<Rightarrow> [(p, k)] | _ \<Rightarrow> []) (physical_ports_for_core P core pmd_ports))"
  by (simp only: setup_pipes_delayed_proxy_def proxies_concat port_proxies)

lemma kni_handler_first_queue:
  assumes "AddKniHandleRequest k \<in> set (setup_pipes_delayed_proxy P core pmd_ports)"
  shows "is_native_kni P k \<and> (\<exists>p. rxq P p = 0 \<and> SetupProxy p k \<in> set (setup_pipes_delayed_proxy P core pmd_ports))"
proof -
  obtain port where port: "port \<in> set (physical_ports_for_core P core pmd_ports)"
    "AddKniHandleRequest k \<in> set (port_actions P core pmd_ports port)"
    using assms by (auto simp: setup_pipes_delayed_proxy_def)
  then have "is_native_kni P k \<and> (\<exists>p. rxq P p = 0 \<and> SetupProxy p k \<in> set (port_actions P core pmd_ports port))"
    by (auto simp: port_actions_def Let_def split: prod.splits option.splits if_splits)
  then show ?thesis using port(1) by (auto simp: setup_pipes_delayed_proxy_def)
qed

end
