(* ===== verification/Session_Table.thy ===== *)
theory Session_Table
  imports Manager_Release
begin

text \<open>
  What the connection manager promises to the packet handler, as an abstract session table: a map
  from client sockets to proxy ports and a queue of free ports. \<open>session_impl\<close> is the contract of
  an implementation of it, \<open>session_directory\<close> adds the look-ups; what a client can rely on is
  proved from the contracts alone. The manager, together with the timer wheel, is interpreted as
  such an implementation.
\<close>

section \<open>The abstract table\<close>

record session_table =
  active :: "sock \<rightharpoonup> u16"
  pool :: "u16 list"

definition st_open :: "sock \<Rightarrow> session_table \<Rightarrow> u16 option \<times> session_table" where
  "st_open s t =
     (case active t s of
        Some p \<Rightarrow> (Some p, t)
      | None \<Rightarrow> (case pool t of
                  [] \<Rightarrow> (None, t)
                | p # ps \<Rightarrow> (Some p, \<lparr>active = (active t)(s \<mapsto> p), pool = ps\<rparr>)))"

definition st_close :: "u16 \<Rightarrow> session_table \<Rightarrow> session_table" where
  "st_close p t =
     (if p \<in> ran (active t)
      then \<lparr>active = (\<lambda>s. if active t s = Some p then None else active t s), pool = pool t @ [p]\<rparr>
      else t)"

text \<open>No port serves two clients, no port in use is free, and no port is queued twice.\<close>

definition st_inv :: "session_table \<Rightarrow> bool" where
  "st_inv t \<longleftrightarrow> inj_on (active t) (dom (active t)) \<and> distinct (pool t) \<and> ran (active t) \<inter> set (pool t) = {}"

definition st_ports :: "session_table \<Rightarrow> u16 set" where
  "st_ports t = ran (active t) \<union> set (pool t)"

lemma inj_on_map_upd:
  "inj_on f (dom f) \<Longrightarrow> p \<notin> ran f \<Longrightarrow> f s = None \<Longrightarrow> inj_on (f(s \<mapsto> p)) (dom (f(s \<mapsto> p)))"
  by (auto simp: inj_on_def dom_def ran_def)

lemma inj_map_remove:
  assumes "inj_on f (dom f)" and "f s = Some p"
  shows "f(s := None) = (\<lambda>t. if f t = Some p then None else f t)"
  using assms by (auto simp: inj_on_def dom_def fun_eq_iff)

lemma ran_remove: "ran (\<lambda>s. if f s = Some p then None else f s) = ran f - {p}"
  by (auto simp: ran_def) (metis option.inject)

lemma inj_on_remove:
  "inj_on f (dom f) \<Longrightarrow>
   inj_on (\<lambda>s. if f s = Some p then None else f s) (dom (\<lambda>s. if f s = Some p then None else f s))"
  by (auto simp: inj_on_def dom_def)

lemma st_open_inv:
  assumes "st_inv t"
  shows "st_inv (snd (st_open s t))" and "st_ports (snd (st_open s t)) = st_ports t"
proof -
  show "st_inv (snd (st_open s t))"
    using assms unfolding st_inv_def st_open_def
    by (auto simp: ran_map_upd inj_on_map_upd simp del: dom_fun_upd split: option.splits list.splits)
  show "st_ports (snd (st_open s t)) = st_ports t"
    by (auto simp: st_ports_def st_open_def ran_map_upd split: option.splits list.splits)
qed

lemma st_close_inv:
  assumes "st_inv t"
  shows "st_inv (st_close p t)" and "st_ports (st_close p t) = st_ports t"
  using assms by (auto simp: st_inv_def st_close_def st_ports_def ran_remove inj_on_remove)

section \<open>Contracts\<close>

datatype session_op = Open sock | Close u16

fun st_run :: "session_op list \<Rightarrow> session_table \<Rightarrow> session_table" where
  "st_run [] t = t"
| "st_run (Open s # ops) t = st_run ops (snd (st_open s t))"
| "st_run (Close p # ops) t = st_run ops (st_close p t)"

lemma st_run_inv:
  "st_inv t \<Longrightarrow> st_inv (st_run ops t) \<and> st_ports (st_run ops t) = st_ports t"
  by (induction ops t rule: st_run.induct) (simp_all add: st_open_inv st_close_inv)

fun ops_ok :: "(sock \<Rightarrow> bool) \<Rightarrow> (u16 \<Rightarrow> bool) \<Rightarrow> session_op list \<Rightarrow> bool" where
  "ops_ok okS okP [] = True"
| "ops_ok okS okP (Open s # ops) = (okS s \<and> ops_ok okS okP ops)"
| "ops_ok okS okP (Close p # ops) = (okP p \<and> ops_ok okS okP ops)"

fun run_ops ::
  "(sock \<Rightarrow> 't \<Rightarrow> (u16 option \<times> 't) res) \<Rightarrow> (u16 \<Rightarrow> 't \<Rightarrow> 't res) \<Rightarrow> session_op list \<Rightarrow> 't \<Rightarrow> 't res" where
  "run_ops opn cls [] t = Inr t"
| "run_ops opn cls (Open s # ops) t = bindR (opn s t) (\<lambda>(_, t'). run_ops opn cls ops t')"
| "run_ops opn cls (Close p # ops) t = bindR (cls p t) (run_ops opn cls ops)"

locale session_impl =
  fixes absf :: "'t \<Rightarrow> session_table"
    and inv :: "'t \<Rightarrow> bool"
    and okS :: "sock \<Rightarrow> bool"
    and okP :: "'t \<Rightarrow> u16 \<Rightarrow> bool"
    and load :: "'t \<Rightarrow> nat"
    and cap :: nat
    and opn :: "sock \<Rightarrow> 't \<Rightarrow> (u16 option \<times> 't) res"
    and cls :: "u16 \<Rightarrow> 't \<Rightarrow> 't res"
  assumes abs_inv: "inv t \<Longrightarrow> st_inv (absf t)"
    and open_refines: "inv t \<Longrightarrow> okS s \<Longrightarrow> load t < cap \<Longrightarrow>
      \<exists>t'. opn s t = Inr (fst (st_open s (absf t)), t') \<and> inv t' \<and> absf t' = snd (st_open s (absf t)) \<and>
           okP t' = okP t \<and> load t' \<le> Suc (load t)"
    and close_refines: "inv t \<Longrightarrow> okP t p \<Longrightarrow>
      \<exists>t'. cls p t = Inr t' \<and> inv t' \<and> absf t' = st_close p (absf t) \<and> okP t' = okP t \<and> load t' \<le> load t"
begin

lemma run_refines:
  assumes "inv t" and "ops_ok okS (okP t) ops" and "load t + length ops \<le> cap"
  shows "\<exists>t'. run_ops opn cls ops t = Inr t' \<and> inv t' \<and> absf t' = st_run ops (absf t)"
  using assms
proof (induction ops arbitrary: t)
  case Nil
  then show ?case by simp
next
  case (Cons x ops)
  show ?case
  proof (cases x)
    case (Open s)
    then obtain t1 where "opn s t = Inr (fst (st_open s (absf t)), t1)" "inv t1"
      "absf t1 = snd (st_open s (absf t))" "okP t1 = okP t" "load t1 \<le> Suc (load t)"
      using open_refines [of t s] Cons.prems by auto
    then show ?thesis using Cons.IH [of t1] Cons.prems Open by simp
  next
    case (Close p)
    then obtain t1 where "cls p t = Inr t1" "inv t1" "absf t1 = st_close p (absf t)" "okP t1 = okP t" "load t1 \<le> load t"
      using close_refines [of t p] Cons.prems by auto
    then show ?thesis using Cons.IH [of t1] Cons.prems Close by simp
  qed
qed

text \<open>So no sequence of requests makes the implementation panic, lose a port or share one.\<close>

lemma run_conserves:
  assumes "inv t" and "ops_ok okS (okP t) ops" and "load t + length ops \<le> cap"
  shows "\<exists>t'. run_ops opn cls ops t = Inr t' \<and> st_inv (absf t') \<and> st_ports (absf t') = st_ports (absf t)"
  using run_refines [OF assms] st_run_inv [OF abs_inv [OF assms(1)]] by fastforce

end

locale session_directory = session_impl +
  fixes by_sock :: "sock \<Rightarrow> 't \<Rightarrow> u16 option res"
    and by_port :: "u16 \<Rightarrow> 't \<Rightarrow> bool res"
  assumes by_sock_spec: "inv t \<Longrightarrow> by_sock s t = Inr (active (absf t) s)"
    and by_port_spec: "inv t \<Longrightarrow> by_port p t = Inr (p \<in> ran (active (absf t)))"
begin

lemma open_then_lookup:
  assumes "inv t" and "okS s" and "load t < cap" and "opn s t = Inr (Some p, t')"
  shows "by_sock s t' = Inr (Some p)" and "by_port p t' = Inr True"
proof -
  obtain t1 where t1: "opn s t = Inr (fst (st_open s (absf t)), t1)" "inv t1" "absf t1 = snd (st_open s (absf t))"
    using open_refines [OF assms(1-3)] by blast
  have eq: "t1 = t'" "fst (st_open s (absf t)) = Some p" using t1(1) assms(4) by simp_all
  have "active (absf t') s = Some p"
    using eq t1(3) by (auto simp: st_open_def split: option.splits list.splits)
  moreover from this have "p \<in> ran (active (absf t'))" by (rule ranI)
  ultimately show "by_sock s t' = Inr (Some p)" and "by_port p t' = Inr True"
    using by_sock_spec by_port_spec t1(2) eq by simp_all
qed

lemma close_then_lookup:
  assumes "inv t" and "okP t p" and "cls p t = Inr t'"
  shows "by_port p t' = Inr False"
proof -
  obtain t1 where t1: "cls p t = Inr t1" "inv t1" "absf t1 = st_close p (absf t)"
    using close_refines [OF assms(1,2)] by blast
  have "p \<notin> ran (active (st_close p (absf t)))" by (auto simp: st_close_def ran_remove)
  then show ?thesis using by_port_spec t1 assms(3) by simp
qed

end

section \<open>The manager as a session table\<close>

text \<open>
  A state is the manager with the wheel. Opening is the part of the handler of a client SYN that
  concerns them: look the socket up or insert it, and schedule the timeout of a new connection. The
  handler schedules when it finds the client side closed, as it is in a new connection, and then moves
  it to \<open>SynSent\<close>; a connection that comes back after its client side was closed is not an opening, but
  the subject of \<open>Correct_Limits\<close>. Closing is \<open>release_port\<close>.
\<close>

definition cm_abs :: "('st, 'm) cmanager \<times> 'w \<Rightarrow> session_table" where
  "cm_abs = (\<lambda>(cm, w). \<lparr>active = sock2port cm, pool = free_ports cm\<rparr>)"

definition cmw_inv ::
  "('cr, 'st, 'w, 'z) mgr_lib_scheme \<Rightarrow> ('w \<Rightarrow> u16 \<times> u16 \<Rightarrow> u16 option) \<Rightarrow> ('st, 'm) cmanager \<times> 'w \<Rightarrow> bool" where
  "cmw_inv X ent = (\<lambda>(cm, w). wheel_ok X ent \<and> cm_inv cm \<and> det_inv cm \<and> wheel_inv ent {} cm w)"

definition open_session ::
  "('cr, 'st, 'w, 'z) mgr_lib_scheme \<Rightarrow> u64 \<Rightarrow> sock \<Rightarrow> ('st, 'm) cmanager \<times> 'w \<Rightarrow>
   (u16 option \<times> ('st, 'm) cmanager \<times> 'w) res" where
  "open_session X d s = (\<lambda>(cm, w).
     bindR (get_mut_or_insert X s cm) (\<lambda>(r, cm').
     case r of
       None \<Rightarrow> Inr (None, cm', w)
     | Some i \<Rightarrow>
         (let c = port2con cm' ! i in
          if sock2port cm s = None
          then let (k, w') = wheel_schedule X d (con_port c) w
               in Inr (Some (con_port c), put_con i (c\<lparr>wheel_slot_and_index := k\<rparr>, rc_heap cm') cm', w')
          else Inr (Some (con_port c), cm', w))))"

definition sock_to_port ::
  "('cr, 'st, 'w, 'z) mgr_lib_scheme \<Rightarrow> sock \<Rightarrow> ('st, 'm) cmanager \<times> 'w \<Rightarrow> u16 option res" where
  "sock_to_port X s = (\<lambda>(cm, w).
     bindR (get_mut_by_sock X s cm) (\<lambda>r. Inr (map_option (\<lambda>i. con_port (port2con cm ! i)) r)))"

definition port_busy ::
  "('cr, 'st, 'w, 'z) mgr_lib_scheme \<Rightarrow> u16 \<Rightarrow> ('st, 'm) cmanager \<times> 'w \<Rightarrow> bool res" where
  "port_busy X p = (\<lambda>(cm, w). bindR (get_mut_by_port X p cm) (\<lambda>r. Inr (r \<noteq> None)))"

lemma cm_inv_abs: "cm_inv cm \<Longrightarrow> st_inv (cm_abs (cm, w))"
proof -
  assume inv: "cm_inv cm"
  have "inj_on (sock2port cm) (dom (sock2port cm))"
  proof (rule inj_onI)
    fix a b assume "a \<in> dom (sock2port cm)" and "sock2port cm a = sock2port cm b"
    then obtain q where "sock2port cm a = Some q" and "sock2port cm b = Some q" by (metis domD)
    then have "Some a = Some b" using cm_inv_sock2port(3) [OF inv] by metis
    then show "a = b" by simp
  qed
  moreover have "p \<notin> set (free_ports cm)" if "sock2port cm t = Some p" for t p
    using cm_inv_free(3) [OF inv] cm_inv_sock2port(2) [OF inv that] by blast
  moreover have "distinct (free_ports cm)" using inv by (simp add: cm_inv_def)
  ultimately show ?thesis by (auto simp: st_inv_def cm_abs_def ran_def)
qed

lemma cm_ran_iff:
  assumes "cm_inv cm"
  shows "p \<in> ran (sock2port cm) \<longleftrightarrow> owns_tcp_port cm p \<and> in_use (con_at cm p)"
  using cm_inv_used [OF assms] cm_inv_sock2port(1,2) [OF assms] by (auto simp: ran_def) metis

lemma open_session_refines:
  assumes inv: "cmw_inv X ent (cm, w)" and ip: "fst s \<noteq> 0" and room: "wheel_load ent w < 2 ^ 16"
  shows "\<exists>cm' w'. open_session X d s (cm, w) = Inr (fst (st_open s (cm_abs (cm, w))), cm', w') \<and>
    cmw_inv X ent (cm', w') \<and> cm_abs (cm', w') = snd (st_open s (cm_abs (cm, w))) \<and> same_conf cm cm' \<and>
    wheel_load ent w' \<le> Suc (wheel_load ent w)"
proof -
  have wh: "wheel_ok X ent" and ci: "cm_inv cm" and di: "det_inv cm" and wi: "wheel_inv ent {} cm w"
    using inv by (simp_all add: cmw_inv_def)
  consider p where "sock2port cm s = Some p" | "sock2port cm s = None" "free_ports cm = []"
    | p rest where "sock2port cm s = None" "free_ports cm = p # rest"
    by (metis list.exhaust option.exhaust)
  then show ?thesis
  proof cases
    case 1
    have "con_port (con_at cm p) = p"
      using cm_inv_used [OF ci cm_inv_sock2port(1,2) [OF ci 1]] by (metis con_port_def)
    then show ?thesis
      using inv 1 by (simp add: open_session_def insert_known [OF ci 1] cm_abs_def st_open_def con_at_def)
  next
    case 2
    then show ?thesis
      using inv by (simp add: open_session_def insert_exhausted cm_abs_def st_open_def)
  next
    case 3
    obtain cm1 where c1: "get_mut_or_insert X s cm = Inr (Some (pidx cm p), cm1)" "cm_inv cm1" "det_inv cm1"
      "same_conf cm cm1" "owns_tcp_port cm p" "free_ports cm1 = rest" "sock2port cm1 = (sock2port cm)(s \<mapsto> p)"
      "\<forall>q. q \<noteq> p \<longrightarrow> con_at cm1 q = con_at cm q"
      using insert_fresh [OF ci di 3 ip] by blast
    have own: "owns_tcp_port cm1 p" using c1(4,5) by simp
    have at: "con_at cm1 p = port2con cm1 ! pidx cm p" using c1(4) by (simp add: con_at_def same_conf_pidx)
    have "sock2port cm1 s = Some p" by (simp add: c1(7))
    then have cp: "con_port (con_at cm1 p) = p"
      using cm_inv_used [OF c1(2) cm_inv_sock2port(1,2) [OF c1(2)]] by (metis con_port_def)
    obtain k w1 where k: "wheel_schedule X d p w = (k, w1)" by fastforce
    let ?c = "con_at cm1 p\<lparr>wheel_slot_and_index := k\<rparr>"
    let ?cm = "put_con (pidx cm1 p) (?c, rc_heap cm1) cm1"
    have run: "open_session X d s (cm, w) = Inr (Some p, ?cm, w1)"
      using 3 k cp c1(4) by (simp add: open_session_def c1(1) at [symmetric] same_conf_pidx)
    have "con_sock ?c = con_sock (con_at cm1 p)" by (simp add: con_sock_def)
    then have "cm_inv ?cm" "det_inv ?cm" using put_con_inv [OF c1(2,3) own] by simp_all
    moreover have "wheel_inv ent {} ?cm w1"
      by (rule put_con_scheduled [OF cm_inv_wf [OF c1(2)] own _ wh room k])
        (simp_all add: wheel_inv_insert [OF wi c1(4,8)])
    moreover have "same_conf cm ?cm" using c1(4) by (rule same_conf_trans) simp
    ultimately show ?thesis
      using run wh 3 c1(6,7) wheel_schedule_entries(3) [OF wh room k] by (simp add: cmw_inv_def cm_abs_def st_open_def)
  qed
qed

lemma release_port_load:
  assumes "wheel_ok X ent" and "release_port X p (cm, w) = Inr (cm', w')"
  shows "wheel_load ent w' = wheel_load ent w"
  using assms(2)
  by (auto simp: release_port_def Let_def bindR_eq_Inr split: if_splits prod.splits option.splits
      dest: wheel_replace_load [OF assms(1)])

lemma close_session_refines:
  assumes inv: "cmw_inv X ent (cm, w)" and own: "owns_tcp_port cm p"
  shows "\<exists>cm' w'. release_port X p (cm, w) = Inr (cm', w') \<and> cmw_inv X ent (cm', w') \<and>
    cm_abs (cm', w') = st_close p (cm_abs (cm, w)) \<and> same_conf cm cm' \<and> wheel_load ent w' = wheel_load ent w"
proof -
  have wh: "wheel_ok X ent" and ci: "cm_inv cm" and di: "det_inv cm" and wi: "wheel_inv ent {} cm w"
    using inv by (simp_all add: cmw_inv_def)
  show ?thesis
  proof (cases "in_use (con_at cm p)")
    case True
    then obtain s where s: "sock2port cm s = Some p" using cm_inv_used [OF ci own] by metis
    have "(sock2port cm)(s := None) = (\<lambda>t. if sock2port cm t = Some p then None else sock2port cm t)"
      using cm_inv_abs [OF ci] s by (intro inj_map_remove) (simp_all add: st_inv_def cm_abs_def)
    moreover have "p \<in> ran (sock2port cm)" using s by (rule ranI)
    ultimately show ?thesis
      using release_port_ok [OF ci di wh wi own True s] wh release_port_load [OF wh]
      by (auto simp: cmw_inv_def cm_abs_def st_close_def cong: if_cong)
  next
    case False
    then have "p \<notin> ran (sock2port cm)" by (simp add: cm_ran_iff [OF ci])
    moreover have "release_port X p (cm, w) = Inr (cm, w)"
      by (rule release_port_idle [OF cm_inv_wf [OF ci] own False])
    ultimately show ?thesis using inv by (auto simp: cm_abs_def st_close_def)
  qed
qed

lemma same_conf_owns_fun: "same_conf cm cm' \<Longrightarrow> owns_tcp_port cm' = owns_tcp_port cm"
  by (simp add: fun_eq_iff)

interpretation cm_sessions: session_directory
  cm_abs "cmw_inv X ent" "\<lambda>s. fst s \<noteq> 0" "\<lambda>(cm, w). owns_tcp_port cm"
  "\<lambda>(cm, w). wheel_load ent w" "2 ^ 16"
  "open_session X d" "release_port X" "sock_to_port X" "port_busy X"
  for X :: "('cr, 'st, 'w, 'z) mgr_lib_scheme" and ent :: "'w \<Rightarrow> u16 \<times> u16 \<Rightarrow> u16 option" and d :: u64
proof (unfold_locales, goal_cases)
  case (1 t)
  then show ?case by (cases t) (simp add: cmw_inv_def cm_inv_abs)
next
  case (2 t s)
  obtain cm w where t: "t = (cm, w)" by (cases t)
  then show ?case
    using open_session_refines [of X ent cm w s d] 2 by (auto simp: same_conf_owns_fun)
next
  case (3 t p)
  obtain cm w where t: "t = (cm, w)" by (cases t)
  then show ?case
    using close_session_refines [of X ent cm w p] 3 by (auto simp: same_conf_owns_fun)
next
  case (4 t s)
  then show ?case
    by (cases t; cases "sock2port (fst t) s")
      (auto simp: sock_to_port_def cmw_inv_def get_mut_by_sock_eq cm_abs_def con_port_def
        con_at_def [symmetric] cm_inv_port)
next
  case (5 t p)
  then show ?case
    by (cases t) (auto simp: port_busy_def cmw_inv_def get_mut_by_port_eq cm_inv_wf cm_abs_def cm_ran_iff)
qed

end
