(* ===== verification/Lifecycle.thy ===== *)
theory Lifecycle
  imports Pipeline_Safe
begin

text \<open>
  The life of a connection, packet by packet, for a pipeline without detailed records: what each
  packet of a regular exchange does to the connection, from the SYN that opens it to the ACK that
  closes it.
\<close>

section \<open>Opening\<close>

lemma client_syn_packet:
  assumes run: "client_syn X cfg clk Closed f = Inr f'" and det: "detailed_c (f_con f) = None"
    and k: "wheel_slot_and_index (f_con f) = k"
  shows "f_group f' = 1 \<and> f_producer f' = f_producer f \<and> f_pdu f' = fst (client_syn_received X (clk 0) (f_pdu f) (f_con f)) \<and>
    f_con f'\<lparr>client_state := client_state (f_con f), wheel_slot_and_index := k\<rparr> =
      snd (client_syn_received X (clk 0) (f_pdu f) (f_con f))"
proof -
  obtain p c where pc: "client_syn_received X (clk 0) (f_pdu f) (f_con f) = (p, c)" by fastforce
  have c: "detailed_c c = None" "client_state c = client_state (f_con f)" "wheel_slot_and_index c = k"
    using pc det k by (auto simp: client_syn_received_def Let_def)
  obtain t cy where t: "timeouts_established cfg = Some t" "mul_w (overflow_checks X) t (cpu_clock cfg) = Inr cy"
    using run by (cases "timeouts_established cfg") (auto simp: client_syn_def pc c Let_def bindR_eq_Inr unwrapR_def)
  let ?c = "c\<lparr>client_state := state_as_u8 X SynSent\<rparr>"
  obtain k' w' where sch: "wheel_schedule X (cy div 1000) (con_port ?c) (f_wheel f) = (k', w')" by fastforce
  have f': "f_con f' = ?c\<lparr>wheel_slot_and_index := k'\<rparr>" "f_pdu f' = p" "f_group f' = 1" "f_producer f' = f_producer f"
    using run by (auto simp: client_syn_def pc c t sch Let_def)
  have "c\<lparr>client_state := client_state (f_con f), wheel_slot_and_index := k\<rparr> = c" using c(2,3) by simp
  then show ?thesis using f' by (simp add: pc)
qed

lemma client_step_syn:
  assumes env: "env_ok X cfg" and ord: "state_order_ok X" and fr: "frame_ok cfg q s k w f" and rel: "f_release f = None"
    and st: "sides_of X (f_con f) = (Closed, Listen)" and syn: "syn_flag tcp"
  shows "\<exists>f' k' w' d. client_step X cfg clk tcp f = Inr f' \<and> frame_ok cfg q s k' w' f' \<and> wheel_schedule X d q w = (k', w') \<and>
    sides_of X (f_con f') = (SynSent, Listen) \<and> f_group f' = 1 \<and> f_release f' = None \<and> f_producer f' = f_producer f \<and>
    f_pdu f' = fst (client_syn_received X (clk 0) (f_pdu f) (f_con f)) \<and>
    f_con f'\<lparr>client_state := client_state (f_con f), wheel_slot_and_index := k\<rparr> =
      snd (client_syn_received X (clk 0) (f_pdu f) (f_con f))"
proof -
  obtain f' k' w' d where f': "client_syn X cfg clk Closed f = Inr f'" "frame_ok cfg q s k' w' f'" "wheel_schedule X d q w = (k', w')"
    using client_syn_keeps [OF env fr, of clk Closed] by auto
  have codes: "codes_ok X" using env by (simp add: env_ok_def)
  have sd: "sides_of X (f_con f') = (SynSent, Listen)" "f_release f' = None"
    using client_syn_sides [OF codes f'(1)] st rel by simp_all
  have old: "con_client_state X (f_con f) = Closed" "con_server_state X (f_con f) = Listen"
    using st by (simp_all add: sides_of_def)
  have new: "con_client_state X (f_con f') = SynSent" "con_server_state X (f_con f') = Listen"
    using sd by (simp_all add: sides_of_def)
  have rc: "release_if_closed X f' = f'" using new by (simp add: release_if_closed_def)
  have "client_step X cfg clk tcp f = Inr f'"
    by (simp add: client_step_def old client_tcp_def syn f'(1) rc state_order_simps ord Let_def)
  moreover have "f_group f' = 1 \<and> f_producer f' = f_producer f \<and> f_pdu f' = fst (client_syn_received X (clk 0) (f_pdu f) (f_con f)) \<and>
    f_con f'\<lparr>client_state := client_state (f_con f), wheel_slot_and_index := k\<rparr> =
      snd (client_syn_received X (clk 0) (f_pdu f) (f_con f))"
    by (rule client_syn_packet [OF f'(1) frame_okD(1) [OF fr]]) (use fr in \<open>simp add: frame_ok_def\<close>)
  ultimately show ?thesis using f' sd by blast
qed


text \<open>The SYN of a new client takes the next free port; the connection is in use from then on.\<close>

lemma fresh_syn:
  assumes pinv: "pipe_inv X cfg ent W" and env: "env_ok X cfg" and ord: "state_order_ok X" and wh: "wheel_ok X ent"
    and syn: "syn_flag (tcp_h p)" "ip_src (ip_h p) \<noteq> 0" and room: "wheel_load ent (p_wheel W) < 2 ^ 16"
    and new: "sock2port (p_cm W) (ip_src (ip_h p), src_port (tcp_h p)) = None" and free: "free_ports (p_cm W) = q # rest"
  shows "\<exists>W' p'. handle_client X cfg clk p W = Inr (W', p', 1, None) \<and> pipe_inv X cfg ent W' \<and>
    same_conf (p_cm W) (p_cm W') \<and> owns_tcp_port (p_cm W') q \<and> in_use (con_at (p_cm W') q) \<and>
    free_ports (p_cm W') = rest \<and>
    sock2port (p_cm W') = (sock2port (p_cm W))((ip_src (ip_h p), src_port (tcp_h p)) \<mapsto> q) \<and>
    sides_of X (con_at (p_cm W') q) = (SynSent, Listen) \<and>
    (\<forall>r. r \<noteq> q \<longrightarrow> con_at (p_cm W') r = con_at (p_cm W) r) \<and>
    (\<exists>c. p' = fst (client_syn_received X (clk 0) p c)) \<and>
    ackn_p2c (con_at (p_cm W') q) = seq_num (tcp_h p) + 1 \<and> server_index (con_at (p_cm W') q) = 0 \<and> p_producer W' = p_producer W"
proof -
  let ?s = "(ip_src (ip_h p), src_port (tcp_h p))" and ?cm = "p_cm W"
  have inv: "cm_inv ?cm" "det_inv ?cm" "table_ok cfg ?cm" "wheel_inv ent {} ?cm (p_wheel W)" "\<not> detailed_records ?cm"
    "alloc_ok (p_alloc W)" using pinv by (simp_all add: pipe_inv_def)
  have codes: "codes_ok X" using env by (simp add: env_ok_def)
  obtain cm where c: "get_mut_or_insert X ?s ?cm = Inr (Some (pidx ?cm q), cm)" "cm_inv cm" "det_inv cm"
    "same_conf ?cm cm" "owns_tcp_port ?cm q" "q \<noteq> 0" "free_ports cm = rest" "sock2port cm = (sock2port ?cm)(?s \<mapsto> q)"
    "(con_at cm q)\<lparr>detailed_c := None\<rparr> = (con_initialize X ?s q (con_at ?cm q))\<lparr>detailed_c := None\<rparr>"
    "\<forall>r. r \<noteq> q \<longrightarrow> con_at cm r = con_at ?cm r"
    using insert_fresh [OF inv(1,2) new free] syn(2) by auto
  have ini: "proxy_port (con_at cm q) = q" "client_state (con_at cm q) = state_as_u8 X Closed"
    "server_state (con_at cm q) = state_as_u8 X Listen" "payload_packet (con_at cm q) = None"
    "server_index (con_at cm q) = 0" "c2s_inserted_bytes (con_at cm q) = 0"
    using arg_cong [OF c(9), of proxy_port] arg_cong [OF c(9), of client_state] arg_cong [OF c(9), of server_state]
      arg_cong [OF c(9), of payload_packet] arg_cong [OF c(9), of server_index]
      arg_cong [OF c(9), of c2s_inserted_bytes] by (simp_all add: con_initialize_def)
  have co: "con_ok cfg (con_at cm q)" using ini env by (simp add: con_ok_def env_ok_def)
  then have tab: "table_ok cfg cm" using inv(3) c(4,10) unfolding table_ok_def by (metis same_conf_owns)
  have st: "sides_of X (con_at cm q) = (Closed, Listen)"
    using ini codes by (simp add: sides_of_def con_client_state_def con_server_state_def)
  have use: "owns_tcp_port cm q" "in_use (con_at cm q)" "\<not> detailed_records cm"
    using same_conf_owns [OF c(4)] c(5,6) ini(1) inv(5) c(4) [unfolded same_conf_def] by (simp_all add: in_use_def)
  have idx: "pidx ?cm q = pidx cm q" using same_conf_pidx [OF c(4)] by simp
  let ?f = "enter (pidx cm q) cm p W"
  obtain s where s: "frame_ok cfg q s (wheel_slot_and_index (con_at cm q)) (p_wheel W) ?f" "con_sock (con_at cm q) = Some s"
    by (rule enter_frame [OF c(2,3) use(3,1,2) co inv(6)])
  have fc: "f_con ?f = con_at cm q" "f_pdu ?f = p" "f_release ?f = None" "f_producer ?f = p_producer W" by (simp_all add: enter_def con_at_def)
  have st': "sides_of X (f_con ?f) = (Closed, Listen)" using st fc(1) by simp
  obtain f' k' w' d where f': "client_step X cfg clk (tcp_h p) ?f = Inr f'" "frame_ok cfg q s k' w' f'"
    "wheel_schedule X d q (p_wheel W) = (k', w')" "sides_of X (f_con f') = (SynSent, Listen)" "f_group f' = 1"
    "f_release f' = None" "f_pdu f' = fst (client_syn_received X (clk 0) p (con_at cm q))" "f_producer f' = p_producer W"
    "f_con f'\<lparr>client_state := client_state (con_at cm q), wheel_slot_and_index := wheel_slot_and_index (con_at cm q)\<rparr> =
      snd (client_syn_received X (clk 0) p (con_at cm q))"
    using client_step_syn [OF env ord s(1) fc(3) st' syn(1), of clk] unfolding fc by (elim exE conjE)
  have wi: "wheel_inv ent (if True then {q} else {}) cm (p_wheel W)" using wheel_inv_insert [OF inv(4) c(4,10)] by simp
  have step: "wheel_step X True q (wheel_slot_and_index (con_at cm q), p_wheel W) (k', w')"
    using f'(3) by (auto simp: wheel_step_def)
  note lv = leave_inv [OF c(2,3) use(3) tab use(1,2) wh wi _ step f'(2) s(2)]
  let ?W = "leave (pidx cm q) cm W f'"
  have "handle_client X cfg clk p W = Inr (?W, f_pdu f', 1, None)"
    using f' by (simp add: handle_client_def Let_def syn(1) c(1) idx)
  moreover have "same_conf ?cm (p_cm ?W)" using c(4) by (rule same_conf_trans) simp
  moreover have "\<forall>r. r \<noteq> q \<longrightarrow> con_at (p_cm ?W) r = con_at ?cm r" using lv(3) c(10) room by simp
  moreover have "owns_tcp_port (p_cm ?W) q" "free_ports (p_cm ?W) = rest" "sock2port (p_cm ?W) = (sock2port ?cm)(?s \<mapsto> q)"
    using use(1) c(7,8) by (simp_all add: leave_def)
  moreover have "ackn_p2c (f_con f') = seq_num (tcp_h p) + 1"
    using arg_cong [OF f'(9), of ackn_p2c] env by (simp add: client_syn_received_def Let_def env_ok_def)
  moreover have "server_index (f_con f') = 0"
    using arg_cong [OF f'(9), of server_index] ini(5) by (simp add: client_syn_received_def Let_def)
  moreover have "p_producer ?W = p_producer W" using f'(8) by (simp add: leave_def)
  ultimately show ?thesis using lv(1,2,4) room f'(4,7) by (intro exI [of _ ?W] exI [of _ "f_pdu f'"]) auto
qed


section \<open>Packets of clients and servers\<close>

text \<open>A packet that passes the filters and is addressed to the port of the service, or to a port of the pipeline.\<close>

definition tcp_packet :: "('cr, 'st, 'w, 'm, 'z) net_lib_scheme \<Rightarrow> 'm pcfg \<Rightarrow> 'm pdu_scheme \<Rightarrow> bool" where
  "tcp_packet X cfg p \<longleftrightarrow> l2_l3_filter X cfg p = None \<and> \<not> private_etype X (etype (mac_h p)) \<and>
     etype (mac_h p) \<noteq> PRIVATE_ETYPE_PACKET X \<and> etype (mac_h p) \<noteq> PRIVATE_ETYPE_TIMER X \<and>
     (dst_port (tcp_h p) = l_port (me_l234 (me cfg)) \<or> tcp_min_port cfg \<le> dst_port (tcp_h p))"

lemma closure_tcp_packet:
  assumes "tcp_packet X cfg p" and "net_ok X"
  shows "delayed_binding_closure X cfg clk msg p W =
    Some (bindR (if dst_port (tcp_h p) = l_port (me_l234 (me cfg)) then handle_client X cfg clk (offloaded X cfg p) W
                 else handle_server X cfg clk (offloaded X cfg p) W)
      (\<lambda>(W, p, g, rel). bindR (release_connection X rel W) (\<lambda>W. Inr (W, p, g))))"
  using assms offloaded_sel [OF assms(2), of cfg p]
  by (auto simp: delayed_binding_closure_def tcp_packet_def Let_def offloaded_def [symmetric] not_less)

lemma closure_tcp_keeps:
  assumes "tcp_packet X cfg p" and "net_ok X" and "delayed_binding_closure X cfg clk msg p W = Some (Inr (W', p', g))"
  shows "p_ticks W' = p_ticks W" and "p_tx_open W' = p_tx_open W"
proof -
  have c: "p_ticks V = p_ticks W \<and> p_tx_open V = p_tx_open W" if "handle_client X cfg clk q W = Inr (V, x)" for q V x
    using that by (auto simp: handle_client_def Let_def bindR_eq_Inr leave_def case_prod_unfold split: option.splits)
  have s: "p_ticks V = p_ticks W \<and> p_tx_open V = p_tx_open W" if "handle_server X cfg clk q W = Inr (V, x)" for q V x
    using that by (auto simp: handle_server_def Let_def bindR_eq_Inr leave_def split: option.splits)
  have r: "p_ticks V' = p_ticks V \<and> p_tx_open V' = p_tx_open V" if "release_connection X rel V = Inr V'" for rel V V'
    using that by (auto simp: release_connection_def bindR_eq_Inr split: option.splits)
  have "p_ticks W' = p_ticks W \<and> p_tx_open W' = p_tx_open W"
    using assms(3) unfolding closure_tcp_packet [OF assms(1,2)]
    by (auto simp: bindR_eq_Inr split: if_splits dest!: r dest: c s)
  then show "p_ticks W' = p_ticks W" and "p_tx_open W' = p_tx_open W" by simp_all
qed

section \<open>One connection over several packets\<close>

text \<open>The frame of the next packet of a connection that has been written back and looked up again.\<close>

definition next_packet :: "'m pdu_scheme \<Rightarrow> ('st, 'w, 'm) frame \<Rightarrow> ('st, 'w, 'm) frame" where
  "next_packet p f = f\<lparr>f_pdu := p, f_group := 0, f_release := None, f_unexpected := False\<rparr>"

lemma next_packet_sel [simp]:
  "f_con (next_packet p f) = f_con f" "f_pdu (next_packet p f) = p" "f_group (next_packet p f) = 0"
  "f_release (next_packet p f) = None" "f_unexpected (next_packet p f) = False" "f_producer (next_packet p f) = f_producer f"
  by (simp_all add: next_packet_def)

lemma next_packet_ok [simp]: "frame_ok cfg q s k w f \<Longrightarrow> frame_ok cfg q s k w (next_packet p f)"
  by (simp add: frame_ok_def next_packet_def)

lemma states_of_sides: "sides_of X c = (a, b) \<Longrightarrow> con_client_state X c = a \<and> con_server_state X c = b"
  by (simp add: sides_of_def)

lemma sides_of_states [simp]:
  assumes "codes_ok X"
  shows "sides_of X (c\<lparr>client_state := state_as_u8 X a\<rparr>) = (a, con_server_state X c)"
    and "sides_of X (c\<lparr>server_state := state_as_u8 X b\<rparr>) = (con_client_state X c, b)"
    and "sides_of X (c\<lparr>client_state := state_as_u8 X a, server_state := state_as_u8 X b\<rparr>) = (a, b)"
    and "sides_of X (c\<lparr>server_state := state_as_u8 X b, client_state := state_as_u8 X a\<rparr>) = (a, b)"
    and "con_client_state X (c\<lparr>client_state := state_as_u8 X a\<rparr>) = a"
    and "con_server_state X (c\<lparr>server_state := state_as_u8 X b\<rparr>) = b"
  using assms by (simp_all add: sides_of_def con_client_state_def con_server_state_def)

text \<open>The ACK that ends the handshake with the client.\<close>

lemma step_handshake_ack:
  assumes env: "env_ok X cfg" and ord: "state_order_ok X" and fr: "frame_ok cfg q s k w f"
    and st: "sides_of X (f_con f) = (SynSent, Listen)" and tcp: "ack_flag tcp" "\<not> syn_flag tcp" "ackn_p2c (f_con f) \<le> seq_num tcp"
  shows "client_step X cfg clk tcp f = Inr (count_c RecvSynAck2 (f\<lparr>f_con := (f_con f)\<lparr>client_state := state_as_u8 X Established\<rparr>\<rparr>))"
proof -
  have codes: "codes_ok X" using env by (simp add: env_ok_def)
  have old: "con_client_state X (f_con f) = SynSent" "con_server_state X (f_con f) = Listen"
    using states_of_sides [OF st] by simp_all
  have "client_tcp X cfg clk tcp SynSent Listen f =
      Inr (count_c RecvSynAck2 (f\<lparr>f_con := (f_con f)\<lparr>client_state := state_as_u8 X Established\<rparr>\<rparr>))"
    using tcp frame_okD(1) [OF fr] by (simp add: client_tcp_def client_handshake_ack_def not_less)
  then show ?thesis
    using old codes by (simp add: client_step_def old release_if_closed_def con_client_state_def state_order_simps ord Let_def)
qed

text \<open>Whatever the payload callback does, a packet to the server is addressed to the selected one.\<close>

lemma client_to_server_addressed:
  assumes env: "env_ok X cfg" and run: "client_to_server X m (servers cfg) (f_process_payload_c_s cfg) p c = Inr (p', c')"
  shows "ip_dst (ip_h p') = l_ip (servers cfg ! con_server_index c) \<and> dst_port (tcp_h p') = l_port (servers cfg ! con_server_index c)"
proof -
  have ok: "net_ok X" "process_ok cfg" using env by (simp_all add: env_ok_def)
  have "tcp_payload_size X p = 0 \<or> (let d = fst (f_process_payload_c_s cfg c (payload p) (get_tailroom X p)) in
       c_seqn d = c_seqn c \<and> c2s_inserted_bytes d = c2s_inserted_bytes c \<and> server_index d = server_index c \<and> proxy_port d = proxy_port c)"
    using ok(2) by (simp add: process_ok_def Let_def)
  from client_to_server_packet(2,4) [OF ok(1) run this] show ?thesis by simp
qed

text \<open>The FIN of a client whose server has not been contacted yet.\<close>

lemma step_fin_unbound:
  assumes env: "env_ok X cfg" and ord: "state_order_ok X" and fr: "frame_ok cfg q s k w f" and rel: "f_release f = None"
    and st: "sides_of X (f_con f) = (Established, Listen)" and tcp: "fin_flag tcp" "\<not> syn_flag tcp" "ackn_p2c (f_con f) \<le> seq_num tcp"
  shows "\<exists>f'. client_step X cfg clk tcp f = Inr f' \<and> frame_ok cfg q s k w f' \<and> sides_of X (f_con f') = (FinWait1, LastAck) \<and>
    f_group f' = 1 \<and> f_release f' = None \<and> ackn_p2c (f_con f') = ackn_p2c (f_con f) \<and>
    seqn (f_con f') = seq_num (tcp_h (f_pdu f')) + 1 \<and> fin_flag (tcp_h (f_pdu f')) = fin_flag (tcp_h (f_pdu f)) \<and>
    ack_flag (tcp_h (f_pdu f')) \<and> seq_num (tcp_h (f_pdu f')) = c_seqn (f_con f) + 1 \<and>
    ack_num (tcp_h (f_pdu f')) = seq_num (tcp_h (f_pdu f)) + 1 \<and>
    server_index (f_con f') = server_index (f_con f) \<and> f_producer f' = f_producer f \<and>
    ip_dst (ip_h (f_pdu f')) = ip_src (ip_h (f_pdu f)) \<and> dst_port (tcp_h (f_pdu f')) = src_port (tcp_h (f_pdu f))"
proof -
  have codes: "codes_ok X" and net: "net_ok X" using env by (simp_all add: env_ok_def)
  have old: "con_client_state X (f_con f) = Established" "con_server_state X (f_con f) = Listen"
    using states_of_sides [OF st] by simp_all
  let ?p = "make_reply_packet X 1 (f_pdu f)"
  define c where "c = (f_con f)\<lparr>client_state := state_as_u8 X FinWait1, c_seqn := c_seqn (f_con f) + 1,
    server_state := state_as_u8 X LastAck, seqn := c_seqn (f_con f) + 1 + 1\<rparr>"
  define f1 where "f1 = (count_c SentAck4Fin (count_c SentFinPssv (count_c RecvFin f)))
    \<lparr>f_pdu := prepare_checksum_and_ttl X (?p\<lparr>tcp_h := (tcp_h ?p)\<lparr>ack_flag := True, seq_num := c_seqn (f_con f) + 1\<rparr>\<rparr>),
     f_con := c, f_group := 1\<rparr>"
  have f1: "client_fin X clk tcp Listen f = Inr f1"
    using frame_okD(1) [OF fr]
    by (simp add: client_fin_def client_fin_active_def client_fin_unbound_def Let_def state_order_simps ord count_c_def f1_def c_def)
  have sd: "sides_of X (f_con f1) = (FinWait1, LastAck)"
    using codes by (simp add: f1_def c_def sides_of_def con_client_state_def con_server_state_def)
  have fr1: "frame_ok cfg q s k w f1"
    by (rule frame_ok_cong [OF fr]) (use frame_okD(4-6) [OF fr] in \<open>simp_all add: f1_def c_def con_ok_def\<close>)
  have r: "f_group f1 = 1" "f_release f1 = None" "ackn_p2c (f_con f1) = ackn_p2c (f_con f)"
      "seqn (f_con f1) = seq_num (tcp_h (f_pdu f1)) + 1"
      "fin_flag (tcp_h (f_pdu f1)) = fin_flag (tcp_h (f_pdu f))" "ack_flag (tcp_h (f_pdu f1))"
      "seq_num (tcp_h (f_pdu f1)) = c_seqn (f_con f) + 1" "ack_num (tcp_h (f_pdu f1)) = seq_num (tcp_h (f_pdu f)) + 1"
      "server_index (f_con f1) = server_index (f_con f)" "f_producer f1 = f_producer f"
      "ip_dst (ip_h (f_pdu f1)) = ip_src (ip_h (f_pdu f))" "dst_port (tcp_h (f_pdu f1)) = src_port (tcp_h (f_pdu f))"
    using rel net by (simp_all add: f1_def c_def)
  have "client_tcp X cfg clk tcp Established Listen f = Inr f1" using tcp f1 by (simp add: client_tcp_def not_less)
  then have "client_step X cfg clk tcp f = Inr f1"
    using states_of_sides [OF sd]
    by (simp add: client_step_def old release_if_closed_def state_order_simps ord Let_def)
  then show ?thesis using r sd fr1 by blast
qed

text \<open>The ACK that ends a close, before any server was contacted or after it.\<close>

lemma tcp_final_ack:
  assumes env: "env_ok X cfg" and ord: "state_order_ok X" and fr: "frame_ok cfg q s k w f"
    and tcp: "ack_flag tcp" "\<not> syn_flag tcp" "\<not> fin_flag tcp" "\<not> rst_flag tcp" "ackn_p2c (f_con f) \<le> seq_num tcp"
      "ack_num tcp = seqn (f_con f)"
  shows "client_tcp X cfg clk tcp FinWait1 LastAck f = Inr (count_s SentAck4Fin (count_c RecvAck4Fin
      (f\<lparr>f_con := (f_con f)\<lparr>server_state := state_as_u8 X Closed, client_state := state_as_u8 X Closed\<rparr>\<rparr>)))"
  using tcp frame_okD(1) [OF fr]
  by (simp add: client_tcp_def client_final_ack_def not_less state_order_simps ord)

lemma step_final_ack:
  assumes env: "env_ok X cfg" and ord: "state_order_ok X" and fr: "frame_ok cfg q s k w f"
    and st: "sides_of X (f_con f) = (FinWait1, LastAck)"
    and tcp: "ack_flag tcp" "\<not> syn_flag tcp" "\<not> fin_flag tcp" "\<not> rst_flag tcp" "ackn_p2c (f_con f) \<le> seq_num tcp"
      "ack_num tcp = seqn (f_con f)"
  shows "\<exists>f'. client_step X cfg clk tcp f = Inr f' \<and> sides_of X (f_con f') = (Closed, Closed) \<and> f_group f' = 1 \<and>
    f_release f' = Some q \<and> frame_ok cfg q s k w f' \<and> f_producer f' = f_producer f \<and>
    ip_dst (ip_h (f_pdu f')) = l_ip (servers cfg ! con_server_index (f_con f)) \<and>
    dst_port (tcp_h (f_pdu f')) = l_port (servers cfg ! con_server_index (f_con f))"
proof -
  have codes: "codes_ok X" and pk: "process_keeps_states cfg"
    using env callbacks_keep_states(2) by (auto simp: env_ok_def)
  have old: "con_client_state X (f_con f) = FinWait1" "con_server_state X (f_con f) = LastAck"
    using states_of_sides [OF st] by simp_all
  define f1 where "f1 = count_s SentAck4Fin (count_c RecvAck4Fin
      (f\<lparr>f_con := (f_con f)\<lparr>server_state := state_as_u8 X Closed, client_state := state_as_u8 X Closed\<rparr>\<rparr>))"
  have sd: "sides_of X (f_con f1) = (Closed, Closed)" using codes by (simp add: f1_def)
  have fr1: "frame_ok cfg q s k w f1" using fr by (simp add: f1_def)
  have run: "client_tcp X cfg clk tcp FinWait1 LastAck f = Inr f1"
    unfolding f1_def by (rule tcp_final_ack [OF env ord fr tcp])
  have rl: "release_if_closed X f1 = f1\<lparr>f_release := Some q\<rparr>"
    using states_of_sides [OF sd] frame_okD(2) [OF fr1] by (simp add: release_if_closed_def con_port_def)
  obtain p' c' where fw: "client_to_server X (me cfg) (servers cfg) (f_process_payload_c_s cfg) (f_pdu f1) (f_con f1) = Inr (p', c')"
    "frame_ok cfg q s k w (f1\<lparr>f_pdu := p', f_con := c'\<rparr>)"
    using client_to_server_keeps [OF env fr1] by blast
  have "frame_ok cfg q s k w (f1\<lparr>f_release := Some q, f_pdu := p', f_con := c', f_group := 1\<rparr>)"
    using fw(2) by (simp add: frame_ok_def)
  moreover have "f_producer f1 = f_producer f" "con_server_index (f_con f1) = con_server_index (f_con f)"
    by (simp_all add: f1_def con_server_index_def)
  moreover have "ip_dst (ip_h p') = l_ip (servers cfg ! con_server_index (f_con f1)) \<and>
      dst_port (tcp_h p') = l_port (servers cfg ! con_server_index (f_con f1))"
    using client_to_server_addressed [OF env fw(1)] .
  moreover have "sides_of X c' = (Closed, Closed)" using client_to_server_sides [OF pk fw(1)] sd by simp
  moreover have "client_step X cfg clk tcp f = Inr (f1\<lparr>f_release := Some q, f_pdu := p', f_con := c', f_group := 1\<rparr>)"
    using run rl fw(1) by (simp add: client_step_def old state_order_simps ord Let_def)
  ultimately show ?thesis by simp
qed

section \<open>Binding to a server\<close>

text \<open>The first payload packet becomes a SYN to the server.\<close>

lemma step_first_payload:
  assumes env: "env_ok X cfg" and ord: "state_order_ok X" and fr: "frame_ok cfg q s k w f" and rel: "f_release f = None"
    and st: "sides_of X (f_con f) = (Established, Listen)" and ref: "refcnt (f_pdu f) = 1"
    and tcp: "\<not> syn_flag tcp" "\<not> fin_flag tcp" "\<not> rst_flag tcp" "ackn_p2c (f_con f) \<le> seq_num tcp"
    and acc: "selectable cfg (f_con f) (f_pdu f)"
  shows "\<exists>f' i b. client_step X cfg clk tcp f = Inr f' \<and> frame_ok cfg q s k w f' \<and> f_release f' = None \<and>
    sides_of X (f_con f') = (Established, SynReceived) \<and> f_group f' = 1 \<and>
    i < length (servers cfg) \<and> con_server_index (f_con f') = i \<and> payload_packet (f_con f') = Some b \<and>
    ip_dst (ip_h (f_pdu f')) = l_ip (servers cfg ! i) \<and> dst_port (tcp_h (f_pdu f')) = l_port (servers cfg ! i) \<and>
    src_port (tcp_h (f_pdu f')) = q \<and> syn_flag (tcp_h (f_pdu f')) \<and> \<not> ack_flag (tcp_h (f_pdu f')) \<and>
    seq_num (tcp_h (f_pdu f')) = seqn (f_con f') \<and> f_producer f' = f_producer f \<and> c_seqn (f_con f') = c_seqn (f_con f) \<and>
    ackn_p2c (f_con f') = ackn_p2c (f_con f)"
proof -
  have codes: "codes_ok X" and net: "net_ok X" using env by (simp_all add: env_ok_def)
  have old: "con_client_state X (f_con f) = Established" "con_server_state X (f_con f) = Listen"
    using states_of_sides [OF st] by simp_all
  let ?p = "f_pdu f" let ?q = "(f_pdu f)\<lparr>refcnt := refcnt (f_pdu f) + 1\<rparr>" and ?c = "f_con f"
  obtain syn a where a: "get_pdu X (f_alloc f) = (Some syn, a)" "alloc_ok a"
    using get_pdu_ok [of X "f_alloc f"] frame_okD(5) [OF fr] env by (auto simp: env_ok_def)
  obtain b i where b: "f_select_server cfg (?c\<lparr>payload_packet := Some ?q\<rparr>) =
      Inr (?c\<lparr>payload_packet := Some b, server_index := i\<rparr>)" "unat i < length (servers cfg)"
    by (rule selectableD [OF _ acc]) (use env frame_okD(4) [OF fr] in \<open>simp_all add: env_ok_def con_ok_def\<close>)
  obtain p' b' d where sel: "select_server X (me cfg) (servers cfg) (f_select_server cfg) syn ?p ?c =
      Inr (p', ?c\<lparr>server_index := i, payload_packet := Some b', seqn := seq_num (tcp_h b) - 1, c2s_inserted_bytes := d\<rparr>)"
    and p': "ip_dst (ip_h p') = l_ip (servers cfg ! unat i)"
      "tcp_h p' = (tcp_h b)\<lparr>src_port := proxy_port ?c, dst_port := l_port (servers cfg ! unat i), seq_num := seq_num (tcp_h b) - 1,
        syn_flag := True, ack_num := 0, ack_flag := False, psh_flag := False\<rparr>"
    using select_server_ok [where f = "f_select_server cfg" and p = ?p and c = ?c and b = b and srvs = "servers cfg"
        and m = "me cfg" and syn = syn, OF net b(1)] b(2)
    by (auto simp: con_server_index_def)
  define f1 where "f1 = (count_s SentSyn (count_c RecvPayload (f\<lparr>f_alloc := a, f_pdu := p',
    f_con := ?c\<lparr>server_index := i, payload_packet := Some b', seqn := seq_num (tcp_h b) - 1, c2s_inserted_bytes := d,
      server_state := state_as_u8 X SynReceived\<rparr>\<rparr>)))\<lparr>f_group := 1\<rparr>"
  have fp: "client_first_payload X cfg clk f = Inr f1"
    using frame_okD(1) [OF fr] by (simp add: client_first_payload_def a sel f1_def Let_def)
  have fr1: "frame_ok cfg q s k w f1"
    using first_payload_keeps [OF env ref acc, of clk] fr fp unfolding keeps_frame_def by fastforce
  have sd: "sides_of X (f_con f1) = (Established, SynReceived)"
    using old codes by (simp add: f1_def sides_of_def con_client_state_def con_server_state_def)
  have "client_tcp X cfg clk tcp Established Listen f = Inr f1"
    using tcp fp by (simp add: client_tcp_def not_less state_order_simps ord)
  then have run: "client_step X cfg clk tcp f = Inr f1"
    using states_of_sides [OF sd] by (simp add: client_step_def old release_if_closed_def state_order_simps ord Let_def)
  have sel1: "f_release f1 = None" "f_group f1 = 1" "con_server_index (f_con f1) = unat i" "payload_packet (f_con f1) = Some b'"
    "ip_dst (ip_h (f_pdu f1)) = l_ip (servers cfg ! unat i)" "dst_port (tcp_h (f_pdu f1)) = l_port (servers cfg ! unat i)"
    "src_port (tcp_h (f_pdu f1)) = q" "syn_flag (tcp_h (f_pdu f1))" "\<not> ack_flag (tcp_h (f_pdu f1))"
    "seq_num (tcp_h (f_pdu f1)) = seqn (f_con f1)" "f_producer f1 = f_producer f" "c_seqn (f_con f1) = c_seqn (f_con f)" "ackn_p2c (f_con f1) = ackn_p2c (f_con f)"
    using rel p' frame_okD(2) [OF fr] by (simp_all add: f1_def con_server_index_def)
  show ?thesis
    by (intro exI [of _ f1] exI [of _ "unat i"] exI [of _ b'] conjI run fr1 sd b(2) sel1)
qed

text \<open>The SYN-ACK of the server completes the binding.\<close>

lemma step_server_synack:
  assumes env: "env_ok X cfg" and ord: "state_order_ok X" and fr: "frame_ok cfg q s k w f" and rel: "f_release f = None"
    and st: "sides_of X (f_con f) = (Established, SynReceived)" and pp: "payload_packet (f_con f) = Some b"
    and tcp: "syn_flag tcp" "ack_flag tcp" and grp: "\<not> f_unexpected f"
  shows "\<exists>f' ack dat. server_step X cfg clk tcp f = Inr f' \<and> frame_ok cfg q s k w f' \<and> f_release f' = None \<and>
    sides_of X (f_con f') = (Established, Established) \<and> f_group f' = 0 \<and> f_producer f' = f_producer f @ [ack, dat] \<and>
    seq_num (tcp_h ack) = seqn (f_con f) + 1 \<and> ack_num (tcp_h ack) = seq_num (tcp_h (f_pdu f)) + 1 \<and>
    ack_flag (tcp_h ack) \<and> \<not> syn_flag (tcp_h ack) \<and> tcp_h dat = (tcp_h ack)\<lparr>psh_flag := True\<rparr> \<and> payload dat = payload b \<and>
    ackn_p2c (f_con f') = ackn_p2c (f_con f) \<and> server_index (f_con f') = server_index (f_con f)"
proof -
  have codes: "codes_ok X" and net: "net_ok X" using env by (simp_all add: env_ok_def)
  have old: "con_client_state X (f_con f) = Established" "con_server_state X (f_con f) = SynReceived"
    using states_of_sides [OF st] by simp_all
  let ?c = "(f_con f)\<lparr>server_state := state_as_u8 X Established\<rparr>"
  have b: "payload_packet ?c = Some b" "refcnt b = 1" using pp frame_okD(4) [OF fr] by (simp_all add: con_ok_def)
  obtain ack dat c' where r: "server_synack_received X (f_pdu f) ?c (f_producer f) = Inr (ack, c', f_producer f @ [ack, dat])"
    and c': "c' = ?c\<lparr>c_seqn := c_seqn ?c - seq_num (tcp_h (f_pdu f)), seqn := seqn ?c + 1, payload_packet := None,
        ackn_p2s := seq_num (tcp_h (f_pdu f)) + 1\<rparr>"
    and ad: "seq_num (tcp_h ack) = seqn (f_con f) + 1" "ack_num (tcp_h ack) = seq_num (tcp_h (f_pdu f)) + 1"
      "ack_flag (tcp_h ack)" "\<not> syn_flag (tcp_h ack)" "tcp_h dat = (tcp_h ack)\<lparr>psh_flag := True\<rparr>" "payload dat = payload b"
    using synack_payload [OF net b, of "f_pdu f" "f_producer f"] by auto
  define f1 where "f1 = (count_s SentPayload (count_s SentSynAck2 ((count_s RecvSynAck f)
    \<lparr>f_pdu := ack, f_con := c', f_producer := f_producer f @ [ack, dat]\<rparr>)))\<lparr>f_group := 0\<rparr>"
  have run: "server_synack X clk SynReceived f = Inr f1"
    using frame_okD(1) [OF fr] by (simp add: server_synack_def Let_def r f1_def)
  have fr1: "frame_ok cfg q s k w f1"
    using synack_keeps [OF env, of clk SynReceived f] fr run unfolding keeps_frame_def by fastforce
  have sd: "sides_of X (f_con f1) = (Established, Established)"
    using old codes by (simp add: f1_def c' sides_of_def con_client_state_def con_server_state_def)
  have "server_step X cfg clk tcp f = Inr f1"
    using states_of_sides [OF sd] tcp run grp
    by (simp add: server_step_def server_tcp_def old release_if_closed_def state_order_simps ord Let_def f1_def)
  then show ?thesis
    using fr1 sd rel ad by (intro exI [of _ f1] exI [of _ ack] exI [of _ dat]) (simp add: f1_def c')
qed

section \<open>Closing\<close>

text \<open>The FIN of a client is forwarded to its server.\<close>

lemma step_client_fin:
  assumes env: "env_ok X cfg" and ord: "state_order_ok X" and fr: "frame_ok cfg q s k w f" and rel: "f_release f = None"
    and st: "sides_of X (f_con f) = (Established, Established)" and pl: "tcp_payload_size X (f_pdu f) = 0" and eq: "tcp = tcp_h (f_pdu f)"
    and tcp: "fin_flag tcp" "\<not> syn_flag tcp" "ackn_p2c (f_con f) \<le> seq_num tcp"
  shows "\<exists>f'. client_step X cfg clk tcp f = Inr f' \<and> frame_ok cfg q s k w f' \<and> f_release f' = None \<and>
    sides_of X (f_con f') = (FinWait1, Established) \<and> f_group f' = 1 \<and>
    fin_flag (tcp_h (f_pdu f')) \<and> seqn_fin_p2s (f_con f') = seq_num (tcp_h (f_pdu f')) \<and> f_producer f' = f_producer f \<and>
    server_index (f_con f') = server_index (f_con f) \<and>
    ip_dst (ip_h (f_pdu f')) = l_ip (servers cfg ! con_server_index (f_con f)) \<and>
    dst_port (tcp_h (f_pdu f')) = l_port (servers cfg ! con_server_index (f_con f))"
proof -
  have codes: "codes_ok X" and net: "net_ok X" using env by (simp_all add: env_ok_def)
  have old: "con_client_state X (f_con f) = Established" "con_server_state X (f_con f) = Established"
    using states_of_sides [OF st] by simp_all
  define f1 where "f1 = (count_s SentFin ((count_c RecvFin f)\<lparr>f_con := (f_con f)\<lparr>client_state := state_as_u8 X FinWait1\<rparr>\<rparr>))\<lparr>f_group := 1\<rparr>"
  have fr1: "frame_ok cfg q s k w f1" using fr by (auto simp: f1_def frame_ok_def con_ok_def con_sock_def)
  have sd: "sides_of X (f_con f1) = (FinWait1, Established)" using old codes by (simp add: f1_def)
  have ct: "client_tcp X cfg clk tcp Established Established f = Inr f1"
    using tcp frame_okD(1) [OF fr]
    by (simp add: client_tcp_def client_fin_def client_fin_active_def not_less state_order_simps ord f1_def Let_def)
  have ok: "con_server_index (f_con f1) < length (servers cfg)" "sint (c2s_inserted_bytes (f_con f1)) \<noteq> - (2 ^ 31)"
    "tcp_payload_size X (f_pdu f1) = 0" "f_pdu f1 = f_pdu f" "f_release f1 = None" "f_producer f1 = f_producer f"
    using frame_okD(4) [OF fr1] pl rel by (simp_all add: con_ok_def con_server_index_def f1_def)
  obtain p' c' where fw: "client_to_server X (me cfg) (servers cfg) (f_process_payload_c_s cfg) (f_pdu f1) (f_con f1) = Inr (p', c')"
    and c': "c' = (f_con f1)\<lparr>ackn_p2s := ack_num (tcp_h (f_pdu f1)) - c_seqn (f_con f1),
        seqn_fin_p2s := if fin_flag (tcp_h (f_pdu f1)) then seq_num (tcp_h (f_pdu f1)) + c2s_inserted_bytes (f_con f1) else seqn_fin_p2s (f_con f1)\<rparr>"
    and p': "tcp_h p' = (tcp_h (f_pdu f1))\<lparr>src_port := proxy_port (f_con f1), dst_port := l_port (servers cfg ! con_server_index (f_con f1)),
        seq_num := seq_num (tcp_h (f_pdu f1)) + c2s_inserted_bytes (f_con f1), ack_num := ack_num (tcp_h (f_pdu f1)) - c_seqn (f_con f1)\<rparr>"
    using client_to_server_no_payload [OF net ok(3,1), of "me cfg" "f_process_payload_c_s cfg"] ok(2) by blast
  have run: "client_step X cfg clk tcp f = Inr (f1\<lparr>f_pdu := p', f_con := c', f_group := 1\<rparr>)"
    using ct fw states_of_sides [OF sd] by (simp add: client_step_def old release_if_closed_def state_order_simps ord Let_def)
  have "frame_ok cfg q s k w (f1\<lparr>f_pdu := p', f_con := c', f_group := 1\<rparr>)"
    using client_to_server_keeps [OF env fr1] fw by (auto simp: frame_ok_def)
  moreover have "sides_of X c' = (FinWait1, Established)" using sd by (simp add: c')
  moreover have "con_server_index (f_con f1) = con_server_index (f_con f)" "server_index (f_con f1) = server_index (f_con f)"
    by (simp_all add: f1_def con_server_index_def)
  ultimately show ?thesis using run ok(4-6) eq tcp(1) p' c' client_to_server_addressed [OF env fw] by simp
qed

text \<open>The server answers with a FIN of its own.\<close>

lemma step_server_fin_ack:
  assumes env: "env_ok X cfg" and size: "payload_size_ok X" and ord: "state_order_ok X" and fr: "frame_ok cfg q s k w f"
    and rel: "f_release f = None" and un: "\<not> f_unexpected f"
    and st: "sides_of X (f_con f) = (FinWait1, Established)" and eq: "tcp = tcp_h (f_pdu f)"
    and tcp: "fin_flag tcp" "ack_flag tcp" "\<not> syn_flag tcp" "ack_num tcp = seqn_fin_p2s (f_con f) + 1"
  shows "\<exists>f'. server_step X cfg clk tcp f = Inr f' \<and> frame_ok cfg q s k w f' \<and> f_release f' = None \<and>
    sides_of X (f_con f') = (FinWait1, LastAck) \<and> f_group f' = 1 \<and> ackn_p2c (f_con f') = ack_num (tcp_h (f_pdu f')) \<and>
    seqn (f_con f') = seq_num (tcp_h (f_pdu f')) + of_nat (tcp_payload_size X (f_pdu f)) + 1 \<and> fin_flag (tcp_h (f_pdu f')) \<and>
    f_producer f' = f_producer f \<and> server_index (f_con f') = server_index (f_con f) \<and>
    ip_dst (ip_h (f_pdu f')) = fst s \<and> dst_port (tcp_h (f_pdu f')) = snd s"
proof -
  have codes: "codes_ok X" and net: "net_ok X" using env by (simp_all add: env_ok_def)
  have old: "con_client_state X (f_con f) = FinWait1" "con_server_state X (f_con f) = Established"
    using states_of_sides [OF st] by simp_all
  define f1 where "f1 = (count_c SentAck4Fin (count_s RecvAck4Fin (count_c SentFinPssv (count_s RecvFinPssv f))))
    \<lparr>f_con := (f_con f)\<lparr>server_state := state_as_u8 X LastAck\<rparr>\<rparr>"
  have fr1: "frame_ok cfg q s k w f1" using fr by (auto simp: f1_def frame_ok_def con_ok_def con_sock_def)
  have sd: "sides_of X (f_con f1) = (FinWait1, LastAck)" using old codes by (simp add: f1_def)
  have ct: "server_tcp X clk tcp FinWait1 Established f = Inr f1"
    using tcp frame_okD(1) [OF fr] by (simp add: server_tcp_def server_fin_def state_order_simps ord f1_def Let_def)
  have neg: "overflow_checks X \<longrightarrow> sint (c2s_inserted_bytes (f_con f1)) \<noteq> - (2 ^ 31)"
    and sel: "f_pdu f1 = f_pdu f" "f_release f1 = None" "\<not> f_unexpected f1" "f_producer f1 = f_producer f"
    using frame_okD(4) [OF fr1] rel un by (simp_all add: con_ok_def f1_def)
  obtain p' c' where fw: "server_to_client X (me cfg) (f_pdu f1) (f_con f1) = Inr (p', c')"
    and c': "c' = (f_con f1)\<lparr>ackn_p2c := ack_num (tcp_h (f_pdu f1)) - c2s_inserted_bytes (f_con f1),
        seqn := if fin_flag (tcp_h (f_pdu f1)) then seq_num (tcp_h (f_pdu f1)) + c_seqn (f_con f1) + of_nat (tcp_payload_size X (f_pdu f1)) + 1
          else seqn (f_con f1)\<rparr>"
    and p': "tcp_h p' = (tcp_h (f_pdu f1))\<lparr>src_port := l_port (me_l234 (me cfg)), dst_port := snd s,
        seq_num := seq_num (tcp_h (f_pdu f1)) + c_seqn (f_con f1), ack_num := ack_num (tcp_h (f_pdu f1)) - c2s_inserted_bytes (f_con f1)\<rparr>"
      "ip_dst (ip_h p') = fst s"
    using server_to_client_run [OF net size frame_okD(3) [OF fr1] neg, of "me cfg" "f_pdu f1"] by blast
  have run: "server_step X cfg clk tcp f = Inr (f1\<lparr>f_pdu := p', f_con := c', f_group := 1, f_unexpected := False\<rparr>)"
    using ct fw states_of_sides [OF sd] by (simp add: server_step_def old release_if_closed_def state_order_simps ord Let_def)
  have "frame_ok cfg q s k w (f1\<lparr>f_pdu := p', f_con := c', f_group := 1, f_unexpected := False\<rparr>)"
    using server_to_client_keeps [OF env fr1] fw by (auto simp: frame_ok_def)
  moreover have "sides_of X c' = (FinWait1, LastAck)" using sd by (simp add: c')
  moreover have "server_index (f_con f1) = server_index (f_con f)" by (simp add: f1_def)
  ultimately show ?thesis using run sel eq tcp(1) p' c' by simp
qed

end
