(* ===== verification/Server_Log.thy ===== *)
theory Server_Log
  imports Lifecycle
begin

text \<open>
  The server's log of a connection with details, over several packets: every FIN of a server whose
  client has not closed adds an entry, until the array of the log is full.
\<close>


fun server_packets ::
  "('cr, 'st, 'w, 'm, 'z) net_lib_scheme \<Rightarrow> 'm pcfg \<Rightarrow> (nat \<Rightarrow> u64) \<Rightarrow> 'm pdu_scheme \<Rightarrow> nat \<Rightarrow>
   ('st, 'w, 'm) frame \<Rightarrow> ('st, 'w, 'm) frame res" where
  "server_packets X cfg clk p 0 f = Inr f"
| "server_packets X cfg clk p (Suc n) f =
     bindR (server_step X cfg clk (tcp_h p) (next_packet p f)) (server_packets X cfg clk p n)"

text \<open>A connection with details whose server log has \<open>n\<close> entries, as the FINs of a server meet it.\<close>

definition log_frame :: "('cr, 'st, 'w, 'm, 'z) net_lib_scheme \<Rightarrow> u64 \<Rightarrow> nat \<Rightarrow> ('st, 'w, 'm) frame \<Rightarrow> bool" where
  "log_frame X now n f \<longleftrightarrow> (\<exists>i k. detailed_c (f_con f) = Some \<lparr>con_rec = Some k, d_store = Some i\<rparr> \<and>
     ext_wf (st_get_1 X k (f_heap f i)) \<and> unat (s_state_count (st_get_1 X k (f_heap f i))) = n \<and>
     (overflow_checks X \<longrightarrow> cr_base_stamp X (st_get X k (f_heap f i)) \<le> now)) \<and>
     fst (sides_of X (f_con f)) = Established \<and> snd (sides_of X (f_con f)) \<in> {Established, FinWait1} \<and>
     con_sock (f_con f) \<noteq> None \<and> sint (c2s_inserted_bytes (f_con f)) \<noteq> - (2 ^ 31)"

lemma next_packet_heap [simp]: "f_heap (next_packet p f) = f_heap f"
  by (simp add: next_packet_def)

lemma log_frame_next [simp]: "log_frame X now n (next_packet p f) = log_frame X now n f"
  by (simp add: log_frame_def)

lemma server_fin_active:
  assumes "state_order_ok X" and "fin_flag tcp" and "\<not> syn_flag tcp"
  shows "server_tcp X clk tcp Established old_s f =
    bindR (on_con (s_push_state X (clk 0) FinWait1) f) (\<lambda>f.
    bindR (on_con (s_set_release_cause X ActiveClose) f) (\<lambda>f. Inr (count_c SentFin (count_s RecvFin f))))"
  using assms by (simp add: server_tcp_def server_fin_def state_order_simps)

lemma full_log_panics:
  assumes ord: "state_order_ok X" and lf: "log_frame X (clk 0) 7 f" and fin: "fin_flag tcp" "\<not> syn_flag tcp"
  shows "server_step X cfg clk tcp f = Inl IndexOutOfBounds"
proof -
  obtain i k where d: "detailed_c (f_con f) = Some \<lparr>con_rec = Some k, d_store = Some i\<rparr>"
    "ext_wf (st_get_1 X k (f_heap f i))" "unat (s_state_count (st_get_1 X k (f_heap f i))) = 7"
    using lf by (auto simp: log_frame_def)
  have "con_client_state X (f_con f) = Established" using lf by (simp add: log_frame_def sides_of_def)
  then show ?thesis
    by (simp add: server_step_def server_fin_active [OF ord fin] on_con_def s_push_state_details [OF d(1)] ext_push_full [OF d(2,3)])
qed

lemma log_fin_step:
  assumes net: "net_ok X" and size: "payload_size_ok X" and codes: "codes_ok X" and ord: "state_order_ok X" and st: "store_ok X"
    and lf: "log_frame X (clk 0) n f" and n: "n < 7" and fin: "fin_flag tcp" "\<not> syn_flag tcp"
  shows "\<exists>f'. server_step X cfg clk tcp f = Inr f' \<and> log_frame X (clk 0) (Suc n) f'"
proof -
  obtain i k where d: "detailed_c (f_con f) = Some \<lparr>con_rec = Some k, d_store = Some i\<rparr>"
    "ext_wf (st_get_1 X k (f_heap f i))" "unat (s_state_count (st_get_1 X k (f_heap f i))) = n"
    "overflow_checks X \<longrightarrow> cr_base_stamp X (st_get X k (f_heap f i)) \<le> clk 0"
    using lf by (auto simp: log_frame_def)
  have old: "con_client_state X (f_con f) = Established" "con_server_state X (f_con f) \<in> {Established, FinWait1}"
    using lf by (simp_all add: log_frame_def sides_of_def)
  let ?h = "f_heap f" let ?b = "cr_base_stamp X (st_get X k (?h i))"
  obtain e where e: "ext_push_state X (clk 0) FinWait1 ?b (st_get_1 X k (?h i)) = Inr e"
    using ext_push_ok [OF d(2), of X ?b "clk 0" FinWait1] d(3,4) n by auto
  have ew: "ext_wf e" "unat (s_state_count e) = Suc n" using ext_push_wf [OF d(2) e] d(3) by simp_all
  let ?c = "(f_con f)\<lparr>server_state := state_as_u8 X FinWait1\<rparr>" and ?h1 = "?h(i := st_put_1 X k e (?h i))"
  have rc: "s_set_release_cause X ActiveClose (?c, ?h1) = Inr (?c, ?h1(i := st_put_1 X k (ext_set_release_cause X ActiveClose e) (?h1 i)))"
    using d(1) st by (simp add: s_set_release_cause_def dc_s_set_release_cause_def dc_store_def dc_con_rec_def store_ok_def)
  define h2 where "h2 = ?h1(i := st_put_1 X k (ext_set_release_cause X ActiveClose e) (?h1 i))"
  define f1 where "f1 = count_c SentFin (count_s RecvFin (f\<lparr>f_con := ?c, f_heap := h2\<rparr>))"
  have ct: "server_tcp X clk tcp Established (con_server_state X (f_con f)) f = Inr f1"
    using rc by (simp add: server_fin_active [OF ord fin] on_con_def s_push_state_details [OF d(1)] e f1_def h2_def)
  have sd: "sides_of X (f_con f1) = (Established, FinWait1)" using old codes by (simp add: f1_def)
  have rel: "release_if_closed X f1 = f1" using states_of_sides [OF sd] by (simp add: release_if_closed_def)
  obtain s where s: "con_sock (f_con f1) = Some s" "sint (c2s_inserted_bytes (f_con f1)) \<noteq> - (2 ^ 31)"
    using lf by (auto simp: log_frame_def f1_def)
  obtain p' x y where fw: "server_to_client X (me cfg) (f_pdu f1) (f_con f1) = Inr (p', (f_con f1)\<lparr>ackn_p2c := x, seqn := y\<rparr>)"
    using server_to_client_run [OF net size s(1), of "me cfg" "f_pdu f1"] s(2) by blast
  have "server_step X cfg clk tcp f = Inr (f1\<lparr>f_pdu := p', f_con := (f_con f1)\<lparr>ackn_p2c := x, seqn := y\<rparr>, f_group := 1, f_unexpected := False\<rparr>)"
    using old ct rel fw by (auto simp: server_step_def state_order_simps ord Let_def)
  moreover have "log_frame X (clk 0) (Suc n) (f1\<lparr>f_pdu := p', f_con := (f_con f1)\<lparr>ackn_p2c := x, seqn := y\<rparr>, f_group := 1, f_unexpected := False\<rparr>)"
    using d(1,4) ew sd s st ext_wf_set_release_cause [OF ew(1), of X ActiveClose]
    by (auto simp: log_frame_def f1_def h2_def store_ok_def con_sock_def ext_set_release_cause_def)
  ultimately show ?thesis by blast
qed

lemma repeated_fins:
  assumes "net_ok X" and "payload_size_ok X" and "codes_ok X" and "state_order_ok X" and "store_ok X"
    and "log_frame X (clk 0) n f" and "n \<le> 7" and "fin_flag (tcp_h p)" and "\<not> syn_flag (tcp_h p)"
  shows "server_packets X cfg clk p (8 - n) f = Inl IndexOutOfBounds"
  using assms(6,7)
proof (induction "7 - n" arbitrary: n f)
  case 0
  then have "n = 7" by simp
  then have "8 - n = Suc 0" "log_frame X (clk 0) 7 (next_packet p f)" using 0 by simp_all
  then show ?case using full_log_panics [OF assms(4) _ assms(8,9)] by simp
next
  case (Suc m)
  then have n: "n < 7" and eq: "8 - n = Suc (8 - Suc n)" by simp_all
  obtain f' where "server_step X cfg clk (tcp_h p) (next_packet p f) = Inr f'" "log_frame X (clk 0) (Suc n) f'"
    using log_fin_step [OF assms(1-5) _ n assms(8,9), of clk "next_packet p f" cfg] Suc.prems(1) by auto
  then show ?case using Suc.hyps(1) [of "Suc n" f'] Suc.hyps(2) n by (simp add: eq)
qed

end
