(* ===== verification/Witness_Library.thy ===== *)
theory Witness_Library
  imports Setup Session_Table Server_Log
begin

text \<open>
  A small concrete library, to show that the hypotheses on the crates the proxy is built on can hold
  together, and to run the model: the timer wheel is one slot, the record store a pair of maps, and
  the packet functions write the headers they are documented to write. \<open>cfg0\<close> is a pipeline with two
  servers, which the first payload byte selects between.
\<close>

section \<open>The library\<close>

record crec =
  cr_log :: "tcp_state list"
  cr_cause :: release_cause
  cr_stamp :: u64

record rstore =
  rs_recs :: "nat \<Rightarrow> crec"
  rs_exts :: "nat \<Rightarrow> extension"
  rs_next :: nat

fun code0 :: "tcp_state \<Rightarrow> u8" where
  "code0 Listen = 0" | "code0 SynSent = 1" | "code0 SynReceived = 2" | "code0 Established = 3"
| "code0 CloseWait = 4" | "code0 LastAck = 5" | "code0 FinWait1 = 6" | "code0 FinWait2 = 7"
| "code0 Closing = 8" | "code0 Closed = 9"

definition decode0 :: "u8 \<Rightarrow> tcp_state" where
  "decode0 b = (if b = 0 then Listen else if b = 1 then SynSent else if b = 2 then SynReceived
     else if b = 3 then Established else if b = 4 then CloseWait else if b = 5 then LastAck
     else if b = 6 then FinWait1 else if b = 7 then FinWait2 else if b = 8 then Closing else Closed)"

fun cause0 :: "release_cause \<Rightarrow> u8" where
  "cause0 Unknown = 0" | "cause0 Timeout = 1" | "cause0 PassiveClose = 2" | "cause0 ActiveClose = 3"
| "cause0 ActiveRst = 4"

definition uncause0 :: "u8 \<Rightarrow> release_cause" where
  "uncause0 b = (if b = 0 then Unknown else if b = 1 then Timeout else if b = 2 then PassiveClose
     else if b = 3 then ActiveClose else ActiveRst)"

definition crec0 :: crec where
  "crec0 = \<lparr>cr_log = [Closed], cr_cause = Unknown, cr_stamp = 0\<rparr>"

definition ext0 :: extension where
  "ext0 = \<lparr>s_stamps = [0, 0, 0, 0, 0, 0, 0], s_state = [0, 0, 0, 0, 0, 0, 0], s_state_count = 0, s_release_cause = 0\<rparr>"

text \<open>The wheel: its resolution and the entries of slot 0, as a list.\<close>

type_synonym wheel0 = "u64 \<times> u16 list"

definition slot0 :: "u16 list \<Rightarrow> u16 \<times> u16 \<Rightarrow> u16 option" where
  "slot0 w k = (if fst k = 0 \<and> unat (snd k) < length w then Some (w ! unat (snd k)) else None)"

definition ent0 :: "wheel0 \<Rightarrow> u16 \<times> u16 \<Rightarrow> u16 option" where
  "ent0 w = slot0 (snd w)"

definition schedule0 :: "u64 \<Rightarrow> u16 \<Rightarrow> wheel0 \<Rightarrow> (u16 \<times> u16) \<times> wheel0" where
  "schedule0 d v w = ((0, of_nat (length (snd w))), (fst w, snd w @ [v]))"

definition replace0 :: "u16 \<times> u16 \<Rightarrow> u16 \<Rightarrow> wheel0 \<Rightarrow> u16 option \<times> wheel0" where
  "replace0 k v w = (ent0 w k, if ent0 w k = None then w else (fst w, (snd w)[unat (snd k) := v]))"

text \<open>A tick at time 0 does nothing; later ones empty the slot.\<close>

definition tick0 :: "u64 \<Rightarrow> wheel0 \<Rightarrow> (u16 list option \<times> bool) \<times> wheel0" where
  "tick0 now w = (if now = 0 then ((None, False), w)
     else if snd w = [] then ((None, False), w) else ((Some (take 65536 (snd w)), True), (fst w, [])))"

definition set_header0 :: "l234data \<Rightarrow> u16 \<Rightarrow> mac_addr \<Rightarrow> u32 \<Rightarrow> pdu \<Rightarrow> pdu" where
  "set_header0 srv port smac sip p =
     p\<lparr>mac_h := (mac_h p)\<lparr>mac_dst := l_mac srv, mac_src := smac\<rparr>,
       ip_h := (ip_h p)\<lparr>ip_dst := l_ip srv, ip_src := sip\<rparr>,
       tcp_h := (tcp_h p)\<lparr>src_port := port, dst_port := l_port srv\<rparr>\<rparr>"

definition reply0 :: "u32 \<Rightarrow> pdu \<Rightarrow> pdu" where
  "reply0 inc p =
     p\<lparr>mac_h := (mac_h p)\<lparr>mac_src := mac_dst (mac_h p), mac_dst := mac_src (mac_h p)\<rparr>,
       ip_h := (ip_h p)\<lparr>ip_src := ip_dst (ip_h p), ip_dst := ip_src (ip_h p)\<rparr>,
       tcp_h := (tcp_h p)\<lparr>src_port := dst_port (tcp_h p), dst_port := src_port (tcp_h p),
                          ack_num := seq_num (tcp_h p) + inc, ack_flag := True\<rparr>\<rparr>"

fun push0 :: "header \<Rightarrow> pdu \<Rightarrow> bool \<times> pdu" where
  "push0 (MacH m) p = (True, p\<lparr>mac_h := m\<rparr>)"
| "push0 (IpH i) p = (True, p\<lparr>ip_h := i\<rparr>)"
| "push0 (TcpH t) p = (True, p\<lparr>tcp_h := t\<rparr>)"

definition tcp0 :: tcp_hdr where
  "tcp0 = \<lparr>src_port = 0, dst_port = 0, seq_num = 0, ack_num = 0, syn_flag = False, ack_flag = False,
     fin_flag = False, rst_flag = False, psh_flag = False\<rparr>"

definition pdu0 :: pdu where
  "pdu0 = \<lparr>mac_h = \<lparr>mac_src = 0, mac_dst = 0, etype = 0\<rparr>,
     ip_h = \<lparr>ip_src = 0, ip_dst = 0, protocol = 0, ip_length = 0\<rparr>, tcp_h = tcp0, payload = [], refcnt = 1\<rparr>"

definition X0 :: "(crec, rstore, wheel0, unit) net_lib" where
  "X0 = \<lparr>overflow_checks = True, state_as_u8 = code0, state_from_u8 = decode0, cause_as_u8 = cause0,
     cause_from_u8 = uncause0, stamp_factor = 1,
     cr_init = (\<lambda>_ _ _ _. crec0), cr_push_state = (\<lambda>t s r. r\<lparr>cr_log := cr_log r @ [s]\<rparr>),
     cr_set_release_cause = (\<lambda>c r. r\<lparr>cr_cause := c\<rparr>), cr_states = cr_log, cr_base_stamp = cr_stamp,
     st_with_capacity = (\<lambda>_. \<lparr>rs_recs = (\<lambda>_. crec0), rs_exts = (\<lambda>_. ext0), rs_next = 0\<rparr>),
     st_get_next_slot = (\<lambda>s. (rs_next s, s\<lparr>rs_next := rs_next s + 1\<rparr>)),
     st_get = (\<lambda>k s. rs_recs s k), st_put = (\<lambda>k r s. s\<lparr>rs_recs := (rs_recs s)(k := r)\<rparr>),
     st_get_1 = (\<lambda>k s. rs_exts s k), st_put_1 = (\<lambda>k e s. s\<lparr>rs_exts := (rs_exts s)(k := e)\<rparr>),
     mac_default = 0,
     shuffle_ports = (\<lambda>a b. map of_nat [unat a..<Suc (unat b)]),
     wheel_schedule = schedule0, wheel_replace = replace0, wheel_tick = tick0,
     set_header = set_header0, make_reply_packet = reply0, remove_tcp_options = (\<lambda>p. p),
     prepare_checksum_and_ttl = (\<lambda>p. p), set_tcp_ipv4_checksum_tx_offload = (\<lambda>p. p),
     add_padding = (\<lambda>_ p. p), push_header = push0,
     trim_length_by = (\<lambda>n i. i\<lparr>ip_length := ip_length i - n\<rparr>),
     tcp_payload_size = (\<lambda>p. length (payload p) mod 2 ^ 16), data_len = (\<lambda>p. 54 + length (payload p)),
     get_tailroom = (\<lambda>_. 100), new_pdu_array = (\<lambda>_. Some [pdu0, pdu0]),
     private_etype = (\<lambda>e. e = 0x9000 \<or> e = 0x9001), PRIVATE_ETYPE_PACKET = 0x9000, PRIVATE_ETYPE_TIMER = 0x9001,
     is_multicast = (\<lambda>_. False), is_broadcast = (\<lambda>m. m = - 1)\<rparr>"

section \<open>The pipeline\<close>

definition srv0 :: l234data where
  "srv0 = \<lparr>l_mac = 20, l_ip = 200, l_port = 8080, l_server_id = ''s0'', l_index = 0\<rparr>"

definition srv1 :: l234data where
  "srv1 = \<lparr>l_mac = 21, l_ip = 201, l_port = 8081, l_server_id = ''s1'', l_index = 1\<rparr>"

definition me0 :: me_data where
  "me0 = \<lparr>me_l234 = \<lparr>l_mac = 10, l_ip = 100, l_port = 80, l_server_id = ''proxy'', l_index = 0\<rparr>, me_ip_s = 101\<rparr>"

definition select0 :: "unit conn \<Rightarrow> unit conn res" where
  "select0 c = bindR (unwrapR (payload_packet c)) (\<lambda>b.
     Inr (if payload b = [1] then set_server_index 1 c else set_server_index 0 c))"

definition cfg0 :: "unit pcfg" where
  "cfg0 = \<lparr>me = me0, pipeline_ip = 101, tcp_min_port = 0xC000, servers = [srv0, srv1], csum_offload = True,
     timeouts_established = Some 200, cpu_clock = 1000, wheel_tick_reduction_factor = 1,
     f_select_server = select0, f_process_payload_c_s = (\<lambda>c bs _. (c, bs))\<rparr>"

section \<open>The hypotheses hold\<close>

lemma codes0: "codes_ok X0"
proof -
  have "decode0 (code0 s) = s" for s by (cases s) (simp_all add: decode0_def)
  moreover have "uncause0 (cause0 r) = r" for r by (cases r) (simp_all add: uncause0_def)
  ultimately show ?thesis by (simp add: codes_ok_def X0_def)
qed

lemma order0: "state_order_ok X0"
  by (simp add: state_order_ok_def state_less_def X0_def)

lemma store0: "store_ok X0"
  by (simp add: store_ok_def X0_def)

lemma shuffle0: "shuffle_ok X0"
proof -
  have "inj_on (of_nat :: nat \<Rightarrow> u16) {unat a..<Suc (unat b)}" for a b :: u16
  proof (rule inj_onI)
    fix x y assume "x \<in> {unat a..<Suc (unat b)}" "y \<in> {unat a..<Suc (unat b)}" and eq: "(of_nat x :: u16) = of_nat y"
    then have "x < 2 ^ 16" "y < 2 ^ 16" using unsigned_less [of b, where 'a = nat] by simp_all
    then have "unat (of_nat x :: u16) = x" "unat (of_nat y :: u16) = y" by (simp_all add: unat_of_nat)
    with eq show "x = y" by metis
  qed
  moreover have "(of_nat :: nat \<Rightarrow> u16) ` {unat a..<Suc (unat b)} = {a..b}" for a b
  proof (intro equalityI subsetI)
    fix p :: u16 assume "p \<in> of_nat ` {unat a..<Suc (unat b)}"
    then obtain x where x: "p = of_nat x" "unat a \<le> x" "x \<le> unat b" by auto
    moreover have "unat (of_nat x :: u16) = x"
      using x(3) unsigned_less [of b, where 'a = nat] by (simp add: unat_of_nat)
    ultimately show "p \<in> {a..b}" by (simp add: word_le_nat_alt)
  next
    fix p assume "p \<in> {a..b}"
    then have "unat p \<in> {unat a..<Suc (unat b)}" by (simp add: word_le_nat_alt less_Suc_eq_le)
    moreover have "p = of_nat (unat p)" by simp
    ultimately show "p \<in> of_nat ` {unat a..<Suc (unat b)}" by (rule image_eqI [rotated])
  qed
  ultimately show ?thesis by (simp add: shuffle_ok_def X0_def distinct_map del: upt_Suc)
qed

lemma net0: "net_ok X0"
proof -
  have "push_header_ok X0"
    unfolding push_header_ok_def
  proof (intro allI)
    fix h :: header and p :: pdu
    show "fst (push_header X0 h p) \<and> mac_h (snd (push_header X0 h p)) = (case h of MacH m \<Rightarrow> m | _ \<Rightarrow> mac_h p) \<and>
      ip_h (snd (push_header X0 h p)) = (case h of IpH i \<Rightarrow> i | _ \<Rightarrow> ip_h p) \<and>
      tcp_h (snd (push_header X0 h p)) = (case h of TcpH t \<Rightarrow> t | _ \<Rightarrow> tcp_h p) \<and>
      refcnt (snd (push_header X0 h p)) = refcnt p" by (cases h) (simp_all add: X0_def)
  qed
  moreover have "set_header_ok X0" by (simp add: set_header_ok_def X0_def set_header0_def)
  moreover have "make_reply_ok X0" by (simp add: make_reply_ok_def X0_def reply0_def)
  moreover have "remove_options_ok X0"
  proof -
    have "\<exists>n. i = i\<lparr>ip_length := n\<rparr>" for i :: ip_hdr by (rule exI [of _ "ip_length i"]) simp
    then show ?thesis by (simp add: remove_options_ok_def X0_def)
  qed
  ultimately show ?thesis by (auto simp: net_ok_def keeps_headers_def X0_def)
qed

lemma size0: "payload_size_ok X0"
  by (simp add: payload_size_ok_def X0_def)

lemma env0: "env_ok X0 cfg0"
proof -
  have "select_ok cfg0"
    unfolding select_ok_def
  proof (intro allI impI)
    fix c c' :: "unit conn" and b assume b: "payload_packet c = Some b" and r: "f_select_server cfg0 c = Inr c'"
    have "c\<lparr>payload_packet := Some b, server_index := i\<rparr> = c\<lparr>server_index := i\<rparr>" for i using b by (cases c) simp
    then have "c' = c\<lparr>payload_packet := Some b, server_index := if payload b = [1] then 1 else 0\<rparr>"
      using b r by (auto simp: cfg0_def select0_def set_server_index_def)
    then show "\<exists>b' i. c' = c\<lparr>payload_packet := Some b', server_index := i\<rparr> \<and> refcnt b' = refcnt b \<and>
        (unat (server_index c) < length (servers cfg0) \<longrightarrow> unat i < length (servers cfg0))"
      by (intro exI [of _ b] exI conjI) (assumption, simp_all add: cfg0_def)
  qed
  then show ?thesis using net0 codes0 by (simp add: env_ok_def process_ok_def cfg0_def X0_def)
qed

lemma selectable0: "selectable cfg0 c p"
  by (simp add: selectable_def no_panic_def cfg0_def select0_def)

lemma load0: "wheel_load ent0 w < 2 ^ 16 \<Longrightarrow> length (snd w) < 2 ^ 16"
proof (rule ccontr)
  assume load: "wheel_load ent0 w < 2 ^ 16" and "\<not> length (snd w) < 2 ^ 16"
  then have "unat (i :: u16) < length (snd w)" for i using unsigned_less [of i, where 'a = nat] by simp
  then have "dom (ent0 w) = {0} \<times> (UNIV :: u16 set)" by (auto simp: ent0_def slot0_def dom_def)
  then have "wheel_load ent0 w = 2 ^ 16" by (simp add: wheel_load_def card_word)
  with load show False by simp
qed

lemma slot0_snoc:
  assumes "length w < 2 ^ 16"
  shows "slot0 w (0, of_nat (length w)) = None"
    and "slot0 (w @ [v]) = (slot0 w)((0, of_nat (length w)) \<mapsto> v)"
proof -
  have len: "unat (of_nat (length w) :: u16) = length w" using assms by (simp add: unat_of_nat)
  then show "slot0 w (0, of_nat (length w)) = None" by (simp add: slot0_def)
  have eq: "i = of_nat (length w) \<longleftrightarrow> unat i = length w" for i :: u16
    using len word_unat_eq_iff [of i "of_nat (length w)"] by simp
  have "slot0 (w @ [v]) (s, i) = ((slot0 w)((0, of_nat (length w)) \<mapsto> v)) (s, i)" for s i
  proof -
    consider "unat i < length w" | "unat i = length w" | "unat i > length w" by linarith
    then show ?thesis
    proof cases
      case 1
      then have "i \<noteq> of_nat (length w)" using eq [of i] by linarith
      then show ?thesis using 1 by (simp add: slot0_def nth_append)
    next
      case 2
      then have "i = of_nat (length w)" using eq [of i] by simp
      then show ?thesis using len by (simp add: slot0_def)
    next
      case 3
      then have "i \<noteq> of_nat (length w)" using eq [of i] by linarith
      then show ?thesis using 3 by (simp add: slot0_def)
    qed
  qed
  then show "slot0 (w @ [v]) = (slot0 w)((0, of_nat (length w)) \<mapsto> v)" by (metis ext surj_pair)
qed

lemma replace0_ok:
  assumes "replace0 k v w = (old, w')"
  shows "old = ent0 w k" and "ent0 w' = (if ent0 w k = None then ent0 w else (ent0 w)(k \<mapsto> v))"
  using assms
  by (cases k; auto simp: replace0_def ent0_def slot0_def fun_eq_iff nth_list_update word_unat_eq_iff split: if_splits)+

lemma tick0_entries: "set (take 65536 w) = {p. \<exists>k. slot0 w k = Some p}"
proof (intro equalityI subsetI CollectI)
  fix p assume "p \<in> set (take 65536 w)"
  then obtain j where j: "j < length w" "j < 65536" "w ! j = p" by (auto simp: in_set_conv_nth)
  then have "slot0 w (0, of_nat j) = Some p" by (simp add: slot0_def unat_of_nat)
  then show "\<exists>k. slot0 w k = Some p" ..
next
  fix p assume "p \<in> {p. \<exists>k. slot0 w k = Some p}"
  then obtain i :: u16 where i: "unat i < length w" "p = w ! unat i" by (auto simp: slot0_def split: if_splits)
  moreover have "unat i < 65536" using unsigned_less [of i, where 'a = nat] by simp
  ultimately show "p \<in> set (take 65536 w)" by (auto simp: in_set_conv_nth)
qed

lemma wheel0: "wheel_ok X0 ent0"
  unfolding wheel_ok_def
proof (intro conjI allI impI)
  fix d v w k w' assume "wheel_load ent0 w < 2 ^ 16" and "wheel_schedule X0 d v w = (k, w')"
  then show "ent0 w k = None" and "ent0 w' = (ent0 w)(k \<mapsto> v)"
    using slot0_snoc [OF load0, of w] by (auto simp: X0_def schedule0_def ent0_def)
next
  fix k v w old w' assume "wheel_replace X0 k v w = (old, w')"
  then have r: "replace0 k v w = (old, w')" by (simp add: X0_def)
  show "old = ent0 w k" and "ent0 w' = (if ent0 w k = None then ent0 w else (ent0 w)(k \<mapsto> v))"
    using replace0_ok [OF r] by simp_all
next
  fix now w dr again w' assume t: "wheel_tick X0 now w = ((dr, again), w')"
  let ?P = "\<lambda>K. ent0 w' = (\<lambda>k. if k \<in> K then None else ent0 w k) \<and>
    set (case dr of None \<Rightarrow> [] | Some ps \<Rightarrow> ps) = {p. \<exists>k\<in>K. ent0 w k = Some p}"
  show "\<exists>K. ?P K"
  proof (cases "now = 0 \<or> snd w = []")
    case True
    then have "dr = None \<and> w' = w" using t by (auto simp: X0_def tick0_def split: if_splits)
    then have "?P {}" by simp
    then show ?thesis ..
  next
    case False
    then have "dr = Some (take 65536 (snd w)) \<and> snd w' = []" using t by (auto simp: X0_def tick0_def)
    moreover have "slot0 [] = (\<lambda>k. None)" by (simp add: slot0_def fun_eq_iff)
    ultimately have "?P UNIV" by (simp add: tick0_entries ent0_def)
    then show ?thesis ..
  qed
qed

lemma catches0: "wheel_catches_up X0 (\<lambda>now w. length (snd w))"
  by (auto simp: wheel_catches_up_def X0_def tick0_def split: if_splits)

lemma mask0: "mask_conf 0xFFFC 0xC000"
proof -
  have "NOT 0xFFFC = (mask 2 :: u16)" by (simp add: mask_eq_exp_minus_1)
  then show ?thesis by (auto simp: mask_conf_def)
qed

section \<open>Set-up\<close>

definition A0 :: "wheel0 setup_api" where
  "A0 = \<lparr>wheel_new = (\<lambda>n r k. (r, [])), wheel_resolution = fst, wheel_max_timeout_cycles = (\<lambda>w. 1002 * fst w),
     tick_length = (\<lambda>t. t), default_or_some = (\<lambda>t. case t of None \<Rightarrow> Some 100 | Some e \<Rightarrow> e)\<rparr>"

definition eng0 :: engine_config where
  "eng0 = \<lparr>eng_timeouts = Some (Some 200), eng_port = 80, eng_detailed_records = None, eng_mode = None\<rparr>"

definition penv0 :: pipe_env where
  "penv0 = \<lparr>env_l234 = Some (me_l234 me0), env_flow = Some (101, 0xC000), env_port_mask = 0xFFFC,
     env_csum_offload = True, env_cpu_clock = 1000, env_tx_open = True\<rparr>"

lemma api0: "setup_api_ok A0"
  by (simp add: setup_api_ok_def A0_def)

definition W0 :: "(rstore, wheel0, unit) pipe" where
  "W0 = fst (snd (case setup_delayed_proxy X0 A0 eng0 penv0 [srv0, srv1] select0 (\<lambda>c bs _. (c, bs)) of Inr r \<Rightarrow> r))"

lemma setup0:
  "setup_delayed_proxy X0 A0 eng0 penv0 [srv0, srv1] select0 (\<lambda>c bs _. (c, bs)) =
     Inr (cfg0, W0, [ChannelMsg, TickGeneratorTask, Pipe2KniTask, Pipe2PciTask, BypassPipeTask])"
  by (simp add: setup_delayed_proxy_def W0_def penv0_def eng0_def A0_def Let_def cm_new_def X0_def add_w_def sub_w_def
      mul_w_def TIMER_WHEEL_RESOLUTION_MS_def send_msg_def assertR_def div_w_def cfg0_def me0_def clamp_timeout_def)

section \<open>A connection manager\<close>

definition cm0 :: "(rstore, unit) cmanager" where
  "cm0 = (case cm_new X0 0xFFFC 101 0xC000 False of Inr cm \<Rightarrow> cm)"

lemma cm0_new: "cm_new X0 0xFFFC 101 0xC000 False = Inr cm0"
  and cm0_inv: "cm_inv cm0" "det_inv cm0" and cm0_free: "free_ports cm0 = [0xC000, 0xC001, 0xC002, 0xC003]"
  and cm0_conf: "port_mask cm0 = 0xFFFC" "tcp_port_base cm0 = 0xC000" "detailed_records cm0 = False"
    "sock2port cm0 = Map.empty" "rc_next cm0 = 1" "record_store cm0 = 0"
proof -
  obtain cm :: "(rstore, unit) cmanager" where cm: "cm_new X0 0xFFFC 101 0xC000 False = Inr cm" "cm_inv cm" "det_inv cm"
    using cm_new_ok [OF shuffle0 mask0, of 101 False] by auto
  then have "cm0 = cm" by (simp add: cm0_def)
  then show "cm_new X0 0xFFFC 101 0xC000 False = Inr cm0" "cm_inv cm0" "det_inv cm0" using cm by simp_all
  show "free_ports cm0 = [0xC000, 0xC001, 0xC002, 0xC003]" "port_mask cm0 = 0xFFFC" "tcp_port_base cm0 = 0xC000"
    "detailed_records cm0 = False" "sock2port cm0 = Map.empty" "rc_next cm0 = 1" "record_store cm0 = 0"
    by (simp_all add: cm0_def cm_new_def X0_def add_w_def sub_w_def upt_rec)
qed

lemma cm0_wheel: "wheel_inv ent0 {} cm0 w"
proof -
  have "\<not> (owns_tcp_port cm0 p \<and> in_use (con_at cm0 p))" for p
    using cm_inv_used [OF cm0_inv(1), of p] cm0_conf(4) by auto
  then show ?thesis by (auto simp: wheel_inv_def)
qed

lemma cmw0: "cmw_inv X0 ent0 (cm0, 10, [])"
  using cm0_inv cm0_wheel wheel0 by (simp add: cmw_inv_def)

lemma load0_Nil: "wheel_load ent0 (10, []) = 0"
  by (simp add: wheel_load_def ent0_def slot0_def dom_def)

section \<open>The pipeline after set-up\<close>

lemma W0_inv: "pipe_inv X0 cfg0 ent0 W0" and W0_empty: "sock2port (p_cm W0) = Map.empty"
  and W0_proto: "proto_table X0 (p_cm W0)"
  using setup_inv [OF setup0 shuffle0, of 101 "0xC000"] mask0 env0
  by (simp_all add: penv0_def eng0_def)

text \<open>Frames for a connection of \<open>cfg0\<close>.\<close>

definition frm :: "pdu \<Rightarrow> tcp_state \<Rightarrow> tcp_state \<Rightarrow> (rstore, wheel0, unit) frame" where
  "frm p c s = (enter 0 (p_cm W0) p W0)\<lparr>f_con := (con_new X0)\<lparr>proxy_port := 0xC000, client_ip := 7, client_port := 5000,
     client_state := code0 c, server_state := code0 s\<rparr>\<rparr>"

lemma frm_ok: "frame_ok cfg0 0xC000 (7, 5000) (0, 0) (p_wheel W0) (frm p c s)"
  using W0_inv by (simp add: frm_def frame_ok_def enter_def con_new_def con_sock_def con_ok_def cfg0_def pipe_inv_def)

lemma frm_sel: "f_release (frm p c s) = None" "f_pdu (frm p c s) = p"
  by (simp_all add: frm_def enter_def)

text \<open>The first SYN to the pipeline, and the pipeline after it.\<close>

definition synA :: pdu where
  "synA = pdu0\<lparr>mac_h := \<lparr>mac_src = 70, mac_dst = 10, etype = 0x0800\<rparr>,
     ip_h := \<lparr>ip_src = 7, ip_dst = 100, protocol = 6, ip_length = 40\<rparr>,
     tcp_h := tcp0\<lparr>src_port := 5000, dst_port := 80, seq_num := 500, syn_flag := True\<rparr>\<rparr>"

lemma W0_wheel: "p_wheel W0 = (10, [])" "p_ticks W0 = 0" "p_tx_open W0"
  by (simp_all add: W0_def setup_delayed_proxy_def penv0_def eng0_def A0_def Let_def cm_new_def X0_def add_w_def sub_w_def
      mul_w_def TIMER_WHEEL_RESOLUTION_MS_def send_msg_def assertR_def div_w_def)

lemma synA_ok: "input_ok X0 cfg0 ent0 synA W0"
  by (simp add: input_ok_def synA_def pdu0_def W0_wheel wheel_load_def ent0_def slot0_def dom_def)

lemma synA_tcp: "tcp_packet X0 cfg0 synA" and synA_port: "dst_port (tcp_h synA) = l_port (me_l234 (me cfg0))"
  by (simp_all add: tcp_packet_def l2_l3_filter_def X0_def synA_def cfg0_def me0_def)

lemma W0_cm: "p_cm W0 = cm0"
  using setup_result(1) [OF setup0] cm0_new by (simp add: penv0_def eng0_def)

lemma W0_synA:
  obtains W1 p1 where "delayed_binding_closure X0 cfg0 (\<lambda>_. 3) None synA W0 = Some (Inr (W1, p1, 1))"
    and "pipe_inv X0 cfg0 ent0 W1" and "owns_tcp_port (p_cm W1) 0xC000" and "in_use (con_at (p_cm W1) 0xC000)"
    and "sides_of X0 (con_at (p_cm W1) 0xC000) = (SynSent, Listen)" and "reachable X0 cfg0 ent0 W0 W1" and "p_tx_open W1" and "p_ticks W1 = 0"
proof -
  have "\<exists>W' p'. handle_client X0 cfg0 (\<lambda>_. 3) synA W0 = Inr (W', p', 1, None) \<and> pipe_inv X0 cfg0 ent0 W' \<and>
      same_conf (p_cm W0) (p_cm W') \<and> owns_tcp_port (p_cm W') 0xC000 \<and> in_use (con_at (p_cm W') 0xC000) \<and>
      free_ports (p_cm W') = [0xC001, 0xC002, 0xC003] \<and>
      sock2port (p_cm W') = (sock2port (p_cm W0))((ip_src (ip_h synA), src_port (tcp_h synA)) \<mapsto> 0xC000) \<and>
      sides_of X0 (con_at (p_cm W') 0xC000) = (SynSent, Listen) \<and>
      (\<forall>r. r \<noteq> 0xC000 \<longrightarrow> con_at (p_cm W') r = con_at (p_cm W0) r) \<and>
      (\<exists>c. p' = fst (client_syn_received X0 3 synA c)) \<and>
      ackn_p2c (con_at (p_cm W') 0xC000) = seq_num (tcp_h synA) + 1 \<and> server_index (con_at (p_cm W') 0xC000) = 0 \<and> p_producer W' = p_producer W0"
    by (rule fresh_syn [OF W0_inv env0 order0 wheel0])
      (simp_all add: synA_def W0_wheel load0_Nil W0_cm cm0_conf cm0_free)
  then obtain W1 p1 where h: "handle_client X0 cfg0 (\<lambda>_. 3) synA W0 = Inr (W1, p1, 1, None)" "pipe_inv X0 cfg0 ent0 W1"
    "owns_tcp_port (p_cm W1) 0xC000" "in_use (con_at (p_cm W1) 0xC000)"
    "sides_of X0 (con_at (p_cm W1) 0xC000) = (SynSent, Listen)" by blast
  have "offloaded X0 cfg0 synA = synA" by (simp add: offloaded_def X0_def)
  then have c: "delayed_binding_closure X0 cfg0 (\<lambda>_. 3) None synA W0 = Some (Inr (W1, p1, 1))"
    using closure_tcp_packet [OF synA_tcp net0, of "\<lambda>_. 3" None W0] h(1) by (simp add: synA_port release_connection_def)
  have "p_tx_open W1" "p_ticks W1 = 0"
    using h(1) W0_wheel(2,3) by (auto simp: handle_client_def Let_def bindR_eq_Inr leave_def case_prod_unfold split: option.splits)
  then show ?thesis
    by (rule that [OF c h(2-5) reachable.further [OF reachable.start pipe_step.packet [OF synA_ok c]]])
qed

text \<open>Packets of the concrete connection.\<close>

definition pktC :: "u32 \<Rightarrow> bool \<Rightarrow> bool \<Rightarrow> bool \<Rightarrow> pdu" where
  "pktC ackn syn ack fin = pdu0\<lparr>tcp_h := tcp0\<lparr>seq_num := 501, ack_num := ackn, syn_flag := syn, ack_flag := ack, fin_flag := fin\<rparr>\<rparr>"

lemma pktC_sel [simp]:
  "seq_num (tcp_h (pktC a x y z)) = 501" "ack_num (tcp_h (pktC a x y z)) = a" "syn_flag (tcp_h (pktC a x y z)) = x"
  "ack_flag (tcp_h (pktC a x y z)) = y" "fin_flag (tcp_h (pktC a x y z)) = z" "\<not> rst_flag (tcp_h (pktC a x y z))"
  "refcnt (pktC a x y z) = 1" "tcp_payload_size X0 (pktC a x y z) = 0"
  by (simp_all add: pktC_def tcp0_def pdu0_def X0_def)

lemma frm_con: "sides_of X0 (f_con (frm p c s)) = (c, s)" "ackn_p2c (f_con (frm p c s)) = 0" "c_seqn (f_con (frm p c s)) = 0"
proof -
  have "state_from_u8 X0 (code0 x) = x" for x using state_from_as [OF codes0, of x] by (simp add: X0_def)
  then show "sides_of X0 (f_con (frm p c s)) = (c, s)" "ackn_p2c (f_con (frm p c s)) = 0" "c_seqn (f_con (frm p c s)) = 0"
    by (simp_all add: frm_def sides_of_def con_client_state_def con_server_state_def con_new_def)
qed

end
