(* ===== verification/Correct_Records.thy ===== *)
theory Correct_Records
  imports Witness_Library
begin

text \<open>
  Correctness of the connection records: the server-side log of states (\<open>Extension\<close>), directly and
  through the record store that connections share.
\<close>

section \<open>The log of states\<close>

text \<open>
  C29. After \<open>init\<close>, pushing up to seven states succeeds, and the log reads back as \<open>Listen\<close> followed
  by the pushed states in order, with the last one as the last state and one time stamp, relative to
  the base stamp, for each push. The line that is written for the record shows exactly these.
\<close>

theorem extension_log_roundtrip:
  assumes "ext_wf e" and "codes_ok X" and "length xs \<le> 7" and "\<forall>(now, s) \<in> set xs. b \<le> now"
  shows "\<exists>e'. ext_push_all X b xs (ext_init e) = Inr e' \<and> ext_wf e' \<and>
    ext_states X e' = Inr (Listen # map snd xs) \<and> ext_last_state X e' = Inr (last (Listen # map snd xs)) \<and>
    ext_deltas_to_base_stamp e' = Inr (map (\<lambda>(now, s). ucast ((now - b) div stamp_factor X)) xs) \<and>
    ext_display X T e' = Inr (''(Server, '' @ debug_vec (map (state_debug T) (Listen # map snd xs)) @ '', '' @
      cause_debug T (ext_release_cause X (ext_init e)) @ '', '' @
      debug_vec (map (\<lambda>(now, s). debug_str (separated_string T (ucast ((now - b) div stamp_factor X)))) xs) @ '')'')"
proof -
  have wf: "ext_wf (ext_init e)" using assms(1) by (rule ext_wf_init)
  obtain e' where e': "ext_push_all X b xs (ext_init e) = Inr e'" "ext_wf e'" "ext_log X e' = map snd xs"
    using ext_push_all_ok [OF wf assms(2), of xs b] assms(3,4) by (auto simp: ext_init_def ext_log_def)
  have "ext_stamps e' = map (\<lambda>(now, s). ucast ((now - b) div stamp_factor X)) xs"
    using ext_push_all_stamps [OF wf e'(1)] by (simp add: ext_stamps_def ext_init_def)
  then show ?thesis
    using e' ext_push_all_cause [OF e'(1)]
    by (simp add: ext_states_log ext_last_state_log ext_deltas ext_display_def comp_def case_prod_unfold)
qed

theorem extension_log_roundtrip_witness:
  "\<exists>e'. ext_push_all X0 5 [(7, SynReceived), (9, Established)] (ext_init ext0) = Inr e' \<and>
    ext_states X0 e' = Inr [Listen, SynReceived, Established] \<and> ext_deltas_to_base_stamp e' = Inr [2, 4]"
  using extension_log_roundtrip [of ext0 X0 "[(7, SynReceived), (9, Established)]" 5] codes0
  by (auto simp: ext_wf_def ext0_def X0_def)

text \<open>
  C31. A time stamp is stored as a 32-bit count of units of \<open>stamp_factor\<close>. If the count fits, the
  first stamp that the log reports differs from the time since the base stamp by less than one unit,
  and it is never later.
\<close>

theorem first_stamp_precision:
  assumes "ext_wf e" and "s_state_count e = 0" and "b \<le> now" and "stamp_factor X \<noteq> 0"
    and "(now - b) div stamp_factor X < 2 ^ 32"
  shows "\<exists>e' t. ext_push_state X now s b e = Inr e' \<and> ext_get_first_stamp X e' = Inr (Some t) \<and>
    ext_get_last_stamp X e' = Inr (Some t) \<and> t \<le> now - b \<and> now - b - t < stamp_factor X"
proof -
  let ?q = "(now - b) div stamp_factor X"
  obtain e' where e': "ext_push_state X now s b e = Inr e'"
    using ext_push_ok [OF assms(1)] assms(2,3) by fastforce
  have "s_state_count e' = 1" "s_stamps e' ! 0 = ucast ?q" "length (s_stamps e') = 7"
    using e' assms(1,2)
    by (auto simp: ext_push_state_def bindR_eq_Inr storeR_eq_Inr ext_wf_def dest!: add_w_eq_Inr sub_w_eq_Inr)
  then have "ext_get_first_stamp X e' = Inr (Some (?q * stamp_factor X))"
    and "ext_get_last_stamp X e' = Inr (Some (?q * stamp_factor X))"
    using stamp_precision(1) [OF assms(4,5)] by (simp_all add: ext_get_first_stamp_def ext_get_last_stamp_def)
  then show ?thesis using e' stamp_precision(2,3) [OF assms(4,5)] by blast
qed

theorem first_stamp_precision_witness:
  "\<exists>e' t. ext_push_state X0 12 Established 5 ext0 = Inr e' \<and> ext_get_first_stamp X0 e' = Inr (Some t) \<and>
    t \<le> 7 \<and> 7 - t < 1"
  using first_stamp_precision [of ext0 5 12 X0 Established]
  by (auto simp: ext_wf_def ext0_def X0_def)

section \<open>The log through the shared store\<close>

text \<open>
  C30. A detailed connection logs server states in its slot of the store it shares with the manager:
  after \<open>s_init\<close> and up to seven pushes, \<open>s_states\<close> reports exactly the pushed states, the connection
  has the last pushed state as its server state, and the client-side log of the slot is unchanged.
\<close>

theorem server_log_through_store:
  assumes "detailed_c c = Some \<lparr>con_rec = Some k, d_store = Some i\<rparr>" and "store_ok X" and "codes_ok X"
    and "ext_wf (st_get_1 X k (h i))" and "length xs \<le> 7" and "xs \<noteq> []"
    and "\<forall>(now, s) \<in> set xs. cr_base_stamp X (st_get X k (h i)) \<le> now"
  shows "\<exists>c1 h1 c2 h2. s_init X (c, h) = Inr (c1, h1) \<and> s_push_all X xs (c1, h1) = Inr (c2, h2) \<and>
    s_states X c2 h2 = Inr (Listen # map snd xs) \<and> con_server_state X c2 = snd (last xs) \<and>
    c_states X c2 h2 = c_states X c h"
proof -
  let ?b = "cr_base_stamp X (st_get X k (h i))" and ?h = "h(i := st_put_1 X k (ext_init (st_get_1 X k (h i))) (h i))"
  have ini: "s_init X (c, h) = Inr (c, ?h)"
    using assms(1) by (simp add: s_init_def dc_s_init_def dc_store_def dc_con_rec_def)
  have get: "st_get_1 X k (?h i) = ext_init (st_get_1 X k (h i))" "st_get X k (?h i) = st_get X k (h i)"
    using assms(2) by (simp_all add: store_ok_def)
  obtain e where e: "ext_push_all X ?b xs (ext_init (st_get_1 X k (h i))) = Inr e" "ext_wf e" "ext_log X e = map snd xs"
    using ext_push_all_ok [OF ext_wf_init [OF assms(4)] assms(3), of xs ?b] assms(5,7)
    by (auto simp: ext_init_def ext_log_def)
  obtain h2 where h2: "s_push_all X xs (c, ?h) = Inr (c\<lparr>server_state := state_as_u8 X (snd (last xs))\<rparr>, h2)"
    "st_get_1 X k (h2 i) = e" "st_get X k (h2 i) = st_get X k (h i)"
    using s_push_all_log [OF assms(1,2), of ?h xs e] e(1) assms(6) by (auto simp: get [simplified])
  let ?c = "c\<lparr>server_state := state_as_u8 X (snd (last xs))\<rparr>"
  have "s_states X ?c h2 = Inr (Listen # map snd xs)"
    using assms(1) h2(2) e(2,3) by (simp add: s_states_def dc_s_states_def dc_store_def dc_con_rec_def ext_states_log)
  moreover have "c_states X ?c h2 = c_states X c h"
    using assms(1) h2(3) by (simp add: c_states_def dc_c_states_def dc_store_def dc_con_rec_def)
  moreover have "con_server_state X ?c = snd (last xs)"
    using assms(3) by (simp add: con_server_state_def)
  ultimately show ?thesis using ini h2(1) by blast
qed

definition con0 :: "unit conn" where
  "con0 = (con_new X0)\<lparr>detailed_c := Some \<lparr>con_rec = Some 3, d_store = Some 0\<rparr>\<rparr>"

theorem server_log_through_store_witness:
  "\<exists>c1 h1 c2 h2. s_init X0 (con0, \<lambda>_. st_with_capacity X0 9) = Inr (c1, h1) \<and>
    s_push_all X0 [(1, SynReceived), (2, Established)] (c1, h1) = Inr (c2, h2) \<and>
    s_states X0 c2 h2 = Inr [Listen, SynReceived, Established]"
  using server_log_through_store [of con0 3 0 X0 "\<lambda>_. st_with_capacity X0 9" "[(1, SynReceived), (2, Established)]"]
    codes0 store0
  by (auto simp: con0_def X0_def ext0_def ext_wf_def crec0_def)

end
