(* ===== verification/Correct_Manager.thy ===== *)
theory Correct_Manager
  imports Witness_Library
begin

text \<open>
  Correctness of the connection manager: what a new manager holds, that it implements the abstract
  session table for every sequence of requests, lookups by client socket and by proxy port, release,
  timeouts, and the hand-over of the connection records, with the cases where the code fails.
\<close>

section \<open>A new manager\<close>

text \<open>
  A new manager satisfies its invariant and offers every port of its flow-director range except
  port 0, each exactly once, with no client connected; creating it never panics when the mask leaves
  low bits open.
\<close>

lemma manager_new:
  assumes "shuffle_ok X" and "mask_conf pmask base" and "base + NOT pmask \<noteq> 0"
  shows "\<exists>cm :: ('st, 'm) cmanager. cm_new X pmask ip_addr base detailed = Inr cm \<and> cm_inv cm \<and> det_inv cm \<and>
    set (free_ports cm) = {p. p AND pmask = base \<and> p \<noteq> 0} \<and> distinct (free_ports cm) \<and> sock2port cm = Map.empty \<and>
    (\<forall>p. owns_tcp_port cm p \<longrightarrow> \<not> in_use (con_at cm p))"
proof -
  obtain cm :: "('st, 'm) cmanager" where cm: "cm_new X pmask ip_addr base detailed = Inr cm" "cm_inv cm" "det_inv cm"
    "set (free_ports cm) = {p. p AND pmask = base \<and> p \<noteq> 0}" "sock2port cm = Map.empty"
    using cm_new_ok [OF assms] by blast
  have "\<not> in_use (con_at cm p)" if "owns_tcp_port cm p" for p
    using cm_inv_used [OF cm(2) that] cm(5) by (metis option.distinct(1))
  then show ?thesis using cm by (auto simp: cm_inv_def)
qed

section \<open>The session table\<close>

text \<open>
  C2. The manager with its timer wheel implements the session table: for every sequence of opening
  requests from clients with an address and closing requests for ports of the range, as long as the
  wheel has room, nothing panics, the invariant holds at the end, and the map from clients to ports
  and the queue of free ports are exactly those of the abstract table after the same requests.
\<close>

theorem manager_refines_session_table:
  assumes "cmw_inv X ent (cm, w)" and "ops_ok (\<lambda>s. fst s \<noteq> 0) (owns_tcp_port cm) ops"
    and "wheel_load ent w + length ops \<le> 2 ^ 16"
  shows "\<exists>t'. run_ops (open_session X d) (release_port X) ops (cm, w) = Inr t' \<and> cmw_inv X ent t' \<and>
    cm_abs t' = st_run ops (cm_abs (cm, w))"
  using cm_sessions.run_refines [of X ent "(cm, w)" ops d] assms by simp

theorem manager_refines_session_table_witness:
  "\<exists>t'. run_ops (open_session X0 100) (release_port X0) [Open (7, 5000), Open (8, 5000), Close 0xC000] (cm0, 10, []) = Inr t' \<and>
    cm_abs t' = \<lparr>active = [(8, 5000) \<mapsto> 0xC001], pool = [0xC002, 0xC003, 0xC000]\<rparr>"
proof -
  have "st_run [Open (7, 5000), Open (8, 5000), Close 0xC000] (cm_abs (cm0, (10, []) :: wheel0)) =
      \<lparr>active = [(8, 5000) \<mapsto> 0xC001], pool = [0xC002, 0xC003, 0xC000]\<rparr>"
    by (auto simp: cm_abs_def cm0_free cm0_conf st_open_def st_close_def fun_eq_iff ran_def)
  then show ?thesis
    using manager_refines_session_table [OF cmw0, of "[Open (7, 5000), Open (8, 5000), Close 0xC000]" 100]
    by (auto simp: load0_Nil owns_tcp_port_def cm0_conf)
qed

text \<open>
  C10. No port is ever lost or shared: after any such sequence of requests to a new manager, each
  port of the range except 0 is either free or assigned to exactly one client, and never both.
\<close>

theorem manager_conserves_ports:
  fixes cm :: "('st, 'm) cmanager"
  assumes "shuffle_ok X" and "mask_conf pmask base" and "base + NOT pmask \<noteq> 0" and "wheel_ok X ent"
    and "cm_new X pmask ip_addr base detailed = Inr cm"
    and "ops_ok (\<lambda>s. fst s \<noteq> 0) (\<lambda>p. p AND pmask = base) ops" and "wheel_load ent w + length ops \<le> 2 ^ 16"
  shows "\<exists>cm' w'. run_ops (open_session X d) (release_port X) ops (cm, w) = Inr (cm', w') \<and>
    ran (sock2port cm') \<union> set (free_ports cm') = {p. p AND pmask = base \<and> p \<noteq> 0} \<and>
    ran (sock2port cm') \<inter> set (free_ports cm') = {} \<and> distinct (free_ports cm') \<and>
    inj_on (sock2port cm') (dom (sock2port cm'))"
proof -
  obtain cm2 :: "('st, 'm) cmanager" where cm2: "cm_new X pmask ip_addr base detailed = Inr cm2" "cm_inv cm2" "det_inv cm2"
    "set (free_ports cm2) = {p. p AND pmask = base \<and> p \<noteq> 0}" "sock2port cm2 = Map.empty" "port_mask cm2 = pmask"
    "tcp_port_base cm2 = base"
    using cm_new_ok [OF assms(1-3)] by blast
  have "cm2 = cm" using cm2(1) assms(5) by simp
  note cm = cm2(2-) [unfolded this]
  have "\<not> (owns_tcp_port cm p \<and> in_use (con_at cm p))" for p
    using cm_inv_used [OF cm(1), of p] cm(4) by auto
  then have "wheel_inv ent {} cm w" by (auto simp: wheel_inv_def)
  then have inv: "cmw_inv X ent (cm, w)" using cm(1,2) assms(4) by (simp add: cmw_inv_def)
  have "owns_tcp_port cm = (\<lambda>p. p AND pmask = base)" using cm(5,6) by (simp add: owns_tcp_port_def fun_eq_iff)
  then obtain t' where t': "run_ops (open_session X d) (release_port X) ops (cm, w) = Inr t'" "st_inv (cm_abs t')"
    "st_ports (cm_abs t') = st_ports (cm_abs (cm, w))"
    using cm_sessions.run_conserves [of X ent "(cm, w)" ops d] inv assms(6,7) by auto
  obtain cm' w' where "t' = (cm', w')" by (cases t')
  then show ?thesis using t' cm(3,4) by (auto simp: st_inv_def st_ports_def cm_abs_def)
qed

theorem manager_conserves_ports_witness:
  "\<exists>cm' w'. run_ops (open_session X0 100) (release_port X0) [Open (7, 5000), Close 0xC002] (cm0, 10, []) = Inr (cm', w') \<and>
    ran (sock2port cm') \<union> set (free_ports cm') = {p. p AND 0xFFFC = 0xC000 \<and> p \<noteq> 0}"
  using manager_conserves_ports [OF shuffle0 mask0 _ wheel0 cm0_new, of "[Open (7, 5000), Close 0xC002]" "(10, [])" 100]
  by (auto simp: load0_Nil)

text \<open>
  Opening and looking up agree: a port that opening returns for a client is the port found for
  the client's socket and is in use; after closing a port it is not in use any more.
\<close>

lemma manager_open_lookup:
  assumes "cmw_inv X ent t" and "fst s \<noteq> 0" and "wheel_load ent (snd t) < 2 ^ 16"
    and "open_session X d s t = Inr (Some p, t')"
  shows "sock_to_port X s t' = Inr (Some p) \<and> port_busy X p t' = Inr True"
  using cm_sessions.open_then_lookup [of X ent t s d p t'] assms by (auto simp: case_prod_unfold)

section \<open>Release and timeout\<close>

text \<open>
  C23. Releasing a port in use never panics: the client is forgotten, the port goes to the end of the
  free queue, its entry is out of use, its timer is cancelled (the entry of the wheel that named the
  port names none, and no other entry changes), no other connection changes, and the invariants of
  table and wheel hold again.
\<close>

theorem release_port_correct:
  assumes "cm_inv cm" and "det_inv cm" and "wheel_ok X ent" and "wheel_inv ent {} cm w" and "sock2port cm s = Some p"
  shows "\<exists>cm' w'. release_port X p (cm, w) = Inr (cm', w') \<and> cm_inv cm' \<and> det_inv cm' \<and> wheel_inv ent {} cm' w' \<and>
    free_ports cm' = free_ports cm @ [p] \<and> sock2port cm' = (sock2port cm)(s := None) \<and>
    get_mut_by_sock X s cm' = Inr None \<and> get_mut_by_port X p cm' = Inr None \<and>
    ent w (wheel_slot_and_index (con_at cm p)) = Some p \<and> ent w' = (ent w)(wheel_slot_and_index (con_at cm p) \<mapsto> 0) \<and>
    (\<forall>q. q \<noteq> p \<longrightarrow> con_at cm' q = con_at cm q)"
proof -
  obtain cm' w' where r: "release_port X p (cm, w) = Inr (cm', w')" "cm_inv cm'" "det_inv cm'" "wheel_inv ent {} cm' w'"
    "free_ports cm' = free_ports cm @ [p]" "sock2port cm' = (sock2port cm)(s := None)"
    "con_at cm' p = con_release (con_at cm p)" "\<forall>q. q \<noteq> p \<longrightarrow> con_at cm' q = con_at cm q"
    "ent w' = (ent w)(wheel_slot_and_index (con_at cm p) \<mapsto> 0)"
    using release_port_ok [OF assms(1-4) cm_inv_sock2port(1,2) [OF assms(1,5)] assms(5)] by blast
  have "get_mut_by_sock X s cm' = Inr None" by (simp add: get_mut_by_sock_eq [OF r(2)] r(6))
  moreover have "get_mut_by_port X p cm' = Inr None"
    by (simp add: get_mut_by_port_eq [OF cm_inv_wf [OF r(2)]] r(7))
  moreover have "ent w (wheel_slot_and_index (con_at cm p)) = Some p"
    using assms(4) cm_inv_sock2port(1,2) [OF assms(1,5)] by (simp add: wheel_inv_def)
  ultimately show ?thesis using r by blast
qed

text \<open>A manager with one client, opened through the model.\<close>

lemma opened0:
  obtains cm w where "open_session X0 100 (7, 5000) (cm0, 10, []) = Inr (Some 0xC000, cm, w)"
    and "cmw_inv X0 ent0 (cm, w)" and "sock2port cm = [(7, 5000) \<mapsto> 0xC000]"
    and "free_ports cm = [0xC001, 0xC002, 0xC003]"
proof -
  have st: "st_open (7, 5000) (cm_abs (cm0, (10, []) :: wheel0)) =
      (Some 0xC000, \<lparr>active = [(7, 5000) \<mapsto> 0xC000], pool = [0xC001, 0xC002, 0xC003]\<rparr>)"
    by (simp add: st_open_def cm_abs_def cm0_free cm0_conf)
  show ?thesis
    using open_session_refines [OF cmw0, of "(7, 5000)" 100] that
    by (auto simp: load0_Nil st) (auto simp: cm_abs_def)
qed

theorem release_port_correct_witness:
  "\<exists>cm w cm' w'. open_session X0 100 (7, 5000) (cm0, 10, []) = Inr (Some 0xC000, cm, w) \<and>
    release_port X0 0xC000 (cm, w) = Inr (cm', w') \<and> free_ports cm' = [0xC001, 0xC002, 0xC003, 0xC000]"
proof -
  obtain cm w where o: "open_session X0 100 (7, 5000) (cm0, 10, []) = Inr (Some 0xC000, cm, w)" "cmw_inv X0 ent0 (cm, w)"
    "sock2port cm = [(7, 5000) \<mapsto> 0xC000]" "free_ports cm = [0xC001, 0xC002, 0xC003]" by (rule opened0)
  then show ?thesis
    using release_port_correct [OF _ _ wheel0, of cm w "(7, 5000)" "0xC000"] by (auto simp: cmw_inv_def)
qed

text \<open>
  C6. Releasing timed-out connections terminates, since the wheel catches up with the given time
  after finitely many ticks, and it never panics: the invariants of table and wheel hold at the end, a
  connection whose entry has left the wheel is released, and a connection that is still in use was
  not touched.
\<close>

theorem release_timeouts_correct:
  assumes "wheel_ok X ent" and "wheel_catches_up X lag" and "cm_inv cm" and "det_inv cm" and "wheel_inv ent {} cm w"
  shows "\<exists>cm' w'. release_timeouts X now clk cm w = Some (Inr (cm', w')) \<and> cm_inv cm' \<and> det_inv cm' \<and>
    wheel_inv ent {} cm' w' \<and>
    (\<forall>q. owns_tcp_port cm q \<and> ent w' (wheel_slot_and_index (con_at cm q)) \<noteq> Some q \<longrightarrow> \<not> in_use (con_at cm' q)) \<and>
    (\<forall>q. owns_tcp_port cm q \<longrightarrow> in_use (con_at cm' q) \<longrightarrow> con_at cm' q = con_at cm q)"
proof -
  obtain cm' w' where r: "release_timeouts X now clk cm w = Some (Inr (cm', w'))" "cm_inv cm'" "det_inv cm'"
    "wheel_inv ent {} cm' w'" "same_conf cm cm'"
    "\<forall>q. in_use (con_at cm' q) \<longrightarrow> owns_tcp_port cm q \<longrightarrow> con_at cm' q = con_at cm q"
    using release_timeouts_ok [OF assms, of now clk] by (elim exE conjE)
  have "\<not> in_use (con_at cm' q)" if "owns_tcp_port cm q" "ent w' (wheel_slot_and_index (con_at cm q)) \<noteq> Some q" for q
    using r(4,6) that same_conf_owns [OF r(5)] by (auto simp: wheel_inv_def)
  then show ?thesis using r by blast
qed

theorem release_timeouts_correct_witness:
  "\<exists>cm w cm' w'. open_session X0 100 (7, 5000) (cm0, 10, []) = Inr (Some 0xC000, cm, w) \<and>
    release_timeouts X0 50 (\<lambda>_. 60) cm w = Some (Inr (cm', w')) \<and> cm_inv cm'"
proof -
  obtain cm w where o: "open_session X0 100 (7, 5000) (cm0, 10, []) = Inr (Some 0xC000, cm, w)" "cmw_inv X0 ent0 (cm, w)"
    by (rule opened0)
  then show ?thesis
    using release_timeouts_correct [OF wheel0 catches0, of cm w 50 "\<lambda>_. 60"] by (auto simp: cmw_inv_def)
qed

section \<open>Handing over the records\<close>

text \<open>
  C27. Fetching the records always hands the whole old store over, whatever the connections hold, and
  the manager goes on with a new store that nothing else refers to: every connection that shared the
  old store is released first, so the unwrap of the reference count succeeds.
\<close>

theorem fetch_c_records_complete:
  assumes "det_inv cm"
  shows "fst (fetch_c_records X cm) = Some (rc_heap cm (record_store cm)) \<and>
    record_store (snd (fetch_c_records X cm)) \<noteq> record_store cm \<and>
    rc_heap (snd (fetch_c_records X cm)) (record_store (snd (fetch_c_records X cm))) = st_with_capacity X MAX_RECORDS \<and>
    (\<forall>c \<in> set (port2con (snd (fetch_c_records X cm))). \<not> holds_store (record_store cm) c)"
proof -
  have ne: "record_store cm \<noteq> rc_next cm" using assms by (simp add: det_inv_def)
  have "\<forall>c \<in> set (if strong_count (record_store cm) (port2con cm) = 1 then port2con cm
      else map con_release (port2con cm)). \<not> holds_store (record_store cm) c"
    by (simp add: strong_count_one [simplified])
  then show ?thesis using ne by (simp add: fetch_c_records_eq)
qed

definition cmd0 :: "(rstore, unit) cmanager" where
  "cmd0 = (case cm_new X0 0xFFFC 101 0xC000 True of Inr cm \<Rightarrow> cm)"

lemma cmd0_inv: "cm_inv cmd0" "det_inv cmd0"
  and cmd0_conf: "free_ports cmd0 = [0xC000, 0xC001, 0xC002, 0xC003]" "detailed_records cmd0 = True" "sock2port cmd0 = Map.empty"
proof -
  obtain cm :: "(rstore, unit) cmanager" where cm: "cm_new X0 0xFFFC 101 0xC000 True = Inr cm" "cm_inv cm" "det_inv cm"
    using cm_new_ok [OF shuffle0 mask0, of 101 True] by auto
  then show "cm_inv cmd0" "det_inv cmd0" by (simp_all add: cmd0_def)
  show "free_ports cmd0 = [0xC000, 0xC001, 0xC002, 0xC003]" "detailed_records cmd0 = True" "sock2port cmd0 = Map.empty"
    by (simp_all add: cmd0_def cm_new_def X0_def add_w_def sub_w_def upt_rec)
qed

theorem fetch_c_records_complete_witness:
  "\<exists>cm. get_mut_or_insert X0 (7, 5000) cmd0 = Inr (Some 0, cm) \<and> holds_store (record_store cm) (con_at cm 0xC000) \<and>
    fst (fetch_c_records X0 cm) = Some (rc_heap cm (record_store cm)) \<and>
    (\<forall>c \<in> set (port2con (snd (fetch_c_records X0 cm))). \<not> holds_store (record_store cm) c)"
proof -
  obtain cm where cm: "get_mut_or_insert X0 (7, 5000) cmd0 = Inr (Some (pidx cmd0 0xC000), cm)" "cm_inv cm" "det_inv cm"
    "same_conf cmd0 cm" "sock2port cm = (sock2port cmd0)((7, 5000) \<mapsto> 0xC000)"
    using insert_fresh [OF cmd0_inv, of "(7, 5000)" "0xC000" "[0xC001, 0xC002, 0xC003]" X0] by (auto simp: cmd0_conf)
  have own: "owns_tcp_port cm 0xC000" "in_use (con_at cm 0xC000)"
    using cm_inv_sock2port(1,2) [OF cm(2), of "(7, 5000)" "0xC000"] cm(5) by simp_all
  have "det_conn True (record_store cm) (con_at cm 0xC000)"
    using det_at [OF cm(3) cm_inv_wf [OF cm(2)] own(1)] cm(4) by (simp add: same_conf_def cmd0_conf)
  then have "holds_store (record_store cm) (con_at cm 0xC000)"
    using own(2) by (auto simp: det_conn_def holds_store_def split: option.splits)
  moreover have "pidx cmd0 0xC000 = 0" by (simp add: pidx_def cmd0_def cm_new_def X0_def add_w_def sub_w_def)
  ultimately show ?thesis using fetch_c_records_complete [OF cm(3), of X0] cm(1) by auto
qed

text \<open>
  C33. Fetching the records while connections are open breaks the manager when detailed records are
  on: the connections are released without giving back their ports or forgetting their clients, so
  the ports are lost, and the next SYN of such a client hits the assertion that its port is in use.
\<close>

theorem fetch_c_records_breaks_open_sessions:
  assumes "cm_inv cm" and "det_inv cm" and "detailed_records cm" and "sock2port cm s = Some p"
  shows "free_ports (snd (fetch_c_records X cm)) = free_ports cm \<and>
    \<not> in_use (con_at (snd (fetch_c_records X cm)) p) \<and> p \<notin> set (free_ports (snd (fetch_c_records X cm))) \<and>
    get_mut_or_insert X s (snd (fetch_c_records X cm)) = Inl AssertFailed \<and> \<not> cm_inv (snd (fetch_c_records X cm))"
proof -
  note own = cm_inv_sock2port(1,2) [OF assms(1,4)] and wf = cm_inv_wf [OF assms(1)]
  let ?cm = "snd (fetch_c_records X cm)"
  have len: "pidx cm p < length (port2con cm)" by (rule pidx_in_range [OF own(1) wf])
  have "det_conn True (record_store cm) (con_at cm p)" using det_at [OF assms(2) wf own(1)] assms(3) by simp
  then have "holds_store (record_store cm) (con_at cm p)"
    using own(2) by (auto simp: det_conn_def holds_store_def split: option.splits)
  then have "con_at cm p \<in> set (filter (holds_store (record_store cm)) (port2con cm))"
    using len by (simp add: con_at_def)
  then have "strong_count (record_store cm) (port2con cm) \<noteq> 1" by (auto simp: strong_count_one [simplified])
  then have sel: "port2con ?cm = map con_release (port2con cm)" "free_ports ?cm = free_ports cm"
    "sock2port ?cm = sock2port cm" "port_mask ?cm = port_mask cm" "tcp_port_base ?cm = tcp_port_base cm"
    by (simp_all add: fetch_c_records_eq)
  have idle: "\<not> in_use (con_at ?cm p)" using len by (simp add: con_at_def pidx_def sel)
  have "get_mut_con X ?cm p = Inr (pidx ?cm p)"
    using own(1) wf by (intro get_mut_con_owned) (simp_all add: owns_tcp_port_def table_wf_def sel)
  then have "get_mut_or_insert X s ?cm = Inl AssertFailed"
    using idle assms(4) by (simp add: get_mut_or_insert_def sel con_at_def assertR_def)
  moreover have "\<not> cm_inv ?cm" using cm_inv_sock2port(2) [of ?cm s p] idle assms(4) by (auto simp: sel)
  moreover have "p \<notin> set (free_ports ?cm)" using cm_inv_free(3) [OF assms(1)] own(2) by (auto simp: sel)
  ultimately show ?thesis using idle sel(2) by simp
qed

theorem fetch_c_records_breaks_open_sessions_witness:
  "\<exists>cm. get_mut_or_insert X0 (7, 5000) cmd0 = Inr (Some 0, cm) \<and>
    get_mut_or_insert X0 (7, 5000) (snd (fetch_c_records X0 cm)) = Inl AssertFailed"
proof -
  obtain cm where cm: "get_mut_or_insert X0 (7, 5000) cmd0 = Inr (Some (pidx cmd0 0xC000), cm)" "cm_inv cm" "det_inv cm"
    "same_conf cmd0 cm" "sock2port cm = (sock2port cmd0)((7, 5000) \<mapsto> 0xC000)"
    using insert_fresh [OF cmd0_inv, of "(7, 5000)" "0xC000" "[0xC001, 0xC002, 0xC003]" X0] by (auto simp: cmd0_conf)
  moreover have "pidx cmd0 0xC000 = 0"
    by (simp add: pidx_def cmd0_def cm_new_def X0_def add_w_def sub_w_def)
  ultimately show ?thesis
    using fetch_c_records_breaks_open_sessions [OF cm(2,3), of "(7, 5000)" "0xC000" X0]
    by (auto simp: same_conf_def cmd0_conf)
qed

lemma stuck_client:
  assumes "owns_tcp_port cm p" and "table_wf cm" and "sock2port cm s = Some p" and "\<not> in_use (con_at cm p)"
  shows "get_mut_or_insert X s cm = Inl AssertFailed"
  using assms by (simp add: get_mut_or_insert_def get_mut_con_owned assertR_def con_at_def)

text \<open>
  C34. A client with address 0.0.0.0 is accepted, but \<open>sock\<close> does not report such a client, so neither of
  the two ways to release its connection, on request or on timeout, removes the client from the map of
  clients, although both return the port to the free ones. From then on its next SYN hits the
  assertion that the port is in use. This is for a manager without detailed records.
\<close>

theorem unspecified_client_breaks_manager:
  assumes "cm_inv cm" and "det_inv cm" and "\<not> detailed_records cm" and "wheel_ok X ent" and "wheel_load ent w < 2 ^ 16"
    and "sock2port cm (0, port) = None" and "free_ports cm = p # rest"
  shows "\<exists>cm1 w1. open_session X d (0, port) (cm, w) = Inr (Some p, cm1, w1) \<and>
    (\<exists>cm2 w2. release_port X p (cm1, w1) = Inr (cm2, w2) \<and> sock2port cm2 (0, port) = Some p \<and> p \<in> set (free_ports cm2) \<and>
      get_mut_or_insert X (0, port) cm2 = Inl AssertFailed) \<and>
    (\<exists>cm3. timeout_port X now p cm1 = Inr cm3 \<and> sock2port cm3 (0, port) = Some p \<and> p \<in> set (free_ports cm3) \<and>
      get_mut_or_insert X (0, port) cm3 = Inl AssertFailed)"
proof -
  have p: "owns_tcp_port cm p" "p \<noteq> 0" "\<not> in_use (con_at cm p)" "get_mut_con X cm p = Inr (pidx cm p)"
    using cm_inv_free [OF assms(1), of p] assms(7) by simp_all
  note wf = cm_inv_wf [OF assms(1)]
  have len: "pidx cm p < length (port2con cm)" by (rule pidx_in_range [OF p(1) wf])
  obtain k w1 where k: "wheel_schedule X d p w = (k, w1)" by fastforce
  have ent: "ent w1 k = Some p" using wheel_schedule_entries [OF assms(4,5) k] by simp
  define c where "c = (con_initialize X (0, port) p (con_at cm p))\<lparr>wheel_slot_and_index := k\<rparr>"
  have c: "detailed_c c = None" "in_use c" "con_sock c = None" "con_port c = p" "wheel_slot_and_index c = k"
    using det_at [OF assms(2) wf p(1)] assms(3) p(2)
    by (auto simp: c_def det_conn_def in_use_def con_sock_def con_port_def con_initialize_def split: option.splits)
  define cm1 where "cm1 = cm\<lparr>free_ports := rest, port2con := (port2con cm)[pidx cm p := c],
    sock2port := (sock2port cm)((0, port) \<mapsto> p)\<rparr>"
  have open': "open_session X d (0, port) (cm, w) = Inr (Some p, cm1, w1)"
    using p assms(3,6,7) len k
    by (simp add: open_session_def get_mut_or_insert_def con_at_def put_con_def con_port_def con_initialize_def cm1_def c_def)
  have conf: "owns_tcp_port cm1 p" "table_wf cm1" "pidx cm1 p = pidx cm p"
    using p(1) wf by (simp_all add: cm1_def owns_tcp_port_def table_wf_def pidx_def)
  have at: "port2con cm1 ! pidx cm p = c" "con_at cm1 p = c" using len by (simp_all add: con_at_def conf(3)) (simp_all add: cm1_def)
  have stuck: "sock2port (cm1\<lparr>free_ports := xs @ [p], port2con := (port2con cm1)[pidx cm p := c']\<rparr>) (0, port) = Some p \<and>
      get_mut_or_insert X (0, port) (cm1\<lparr>free_ports := xs @ [p], port2con := (port2con cm1)[pidx cm p := c']\<rparr>) = Inl AssertFailed"
    if "\<not> in_use c'" for xs c'
  proof -
    let ?cm = "cm1\<lparr>free_ports := xs @ [p], port2con := (port2con cm1)[pidx cm p := c']\<rparr>"
    have "owns_tcp_port ?cm p" "table_wf ?cm" "sock2port ?cm (0, port) = Some p"
      using conf(1,2) by (simp_all add: owns_tcp_port_def table_wf_def) (simp add: cm1_def)
    moreover have "con_at ?cm p = c'" using len by (simp add: con_at_def pidx_def) (simp add: cm1_def pidx_def)
    ultimately show ?thesis using stuck_client [of ?cm p "(0, port)" X] that by simp
  qed
  obtain old w2 where rp: "wheel_replace X k 0 w1 = (old, w2)" by fastforce
  have "old = Some p" using wheel_replace_entries(1) [OF assms(4) rp] ent by simp
  then have rel: "release_port X p (cm1, w1) =
      Inr (cm1\<lparr>free_ports := free_ports cm1 @ [p], port2con := (port2con cm1)[pidx cm p := con_release c]\<rparr>, w2)"
    using c rp at by (simp add: release_port_def get_mut_con_owned [OF conf(1,2)] conf(3))
  have to: "timeout_port X now p cm1 = Inr (cm1\<lparr>free_ports := free_ports cm1 @ [p],
      port2con := (port2con cm1)[pidx cm p := con_release (c\<lparr>client_state := state_as_u8 X Closed\<rparr>)]\<rparr>)"
    using c at conf by (simp add: timeout_port_def get_mut_by_port_eq [OF conf(2)])
  define cm2 where "cm2 = cm1\<lparr>free_ports := free_ports cm1 @ [p], port2con := (port2con cm1)[pidx cm p := con_release c]\<rparr>"
  define cm3 where "cm3 = cm1\<lparr>free_ports := free_ports cm1 @ [p],
      port2con := (port2con cm1)[pidx cm p := con_release (c\<lparr>client_state := state_as_u8 X Closed\<rparr>)]\<rparr>"
  have "p \<in> set (free_ports cm2)" "p \<in> set (free_ports cm3)" by (simp_all add: cm2_def cm3_def)
  moreover have "sock2port cm2 (0, port) = Some p \<and> get_mut_or_insert X (0, port) cm2 = Inl AssertFailed"
    "sock2port cm3 (0, port) = Some p \<and> get_mut_or_insert X (0, port) cm3 = Inl AssertFailed"
    unfolding cm2_def cm3_def by (rule stuck, simp)+
  ultimately show ?thesis using open' rel [folded cm2_def] to [folded cm3_def] by blast
qed

theorem unspecified_client_breaks_manager_witness:
  "\<exists>cm1 w1 cm2 w2. open_session X0 100 (0, 5000) (cm0, 10, []) = Inr (Some 0xC000, cm1, w1) \<and>
    release_port X0 0xC000 (cm1, w1) = Inr (cm2, w2) \<and> get_mut_or_insert X0 (0, 5000) cm2 = Inl AssertFailed"
  using unspecified_client_breaks_manager [OF cm0_inv _ wheel0, of "(10, [])" 5000 "0xC000" "[0xC001, 0xC002, 0xC003]" 100]
  by (auto simp: cm0_conf cm0_free load0_Nil) blast

end
