(* ===== verification/Correct_Forward.thy ===== *)
theory Correct_Forward
  imports Witness_Library
begin

text \<open>
  Correctness of the packet functions: how packets are addressed in both directions, how sequence and
  acknowledgement numbers are translated between the two TCP connections that the proxy splices, and
  how the delayed binding to a server produces the SYN, the final ACK and the delayed payload.
\<close>

section \<open>Both directions\<close>

text \<open>
  C12. A packet of an established connection goes from the client to the selected server: it leaves
  with the proxy as sender and the server as receiver, its sequence number moved by the bytes the
  proxy has inserted and its acknowledgement moved into the numbers of the server, modulo \<open>2 ^ 32\<close>;
  the translation returns for every valid connection and every packet.
\<close>

theorem client_to_server_correct:
  assumes net: "net_ok X" and idx: "con_server_index c < length srvs"
    and neg: "overflow_checks X \<longrightarrow> sint (c2s_inserted_bytes c) \<noteq> - (2 ^ 31)"
    and keep: "\<forall>d bs n. fst (f d bs n) = d"
  shows "\<exists>p' c'. client_to_server X m srvs f p c = Inr (p', c') \<and>
    mac_dst (mac_h p') = l_mac (srvs ! con_server_index c) \<and> ip_dst (ip_h p') = l_ip (srvs ! con_server_index c) \<and>
    ip_src (ip_h p') = me_ip_s m \<and>
    tcp_h p' = (tcp_h p)\<lparr>src_port := proxy_port c, dst_port := l_port (srvs ! con_server_index c),
      seq_num := seq_num (tcp_h p) + c2s_inserted_bytes c, ack_num := ack_num (tcp_h p) - c_seqn c\<rparr> \<and>
    c' = c\<lparr>ackn_p2s := ack_num (tcp_h p) - c_seqn c,
      seqn_fin_p2s := if fin_flag (tcp_h p) then seq_num (tcp_h p) + c2s_inserted_bytes c else seqn_fin_p2s c\<rparr>"
proof -
  obtain bs where f: "f c (payload p) (get_tailroom X p) = (c, bs)"
    using keep by (metis prod.collapse)
  have seq: "seq_forward (overflow_checks X) x (c2s_inserted_bytes c) = Inr (x + c2s_inserted_bytes c)" for x
    by (rule seq_forward_eq [OF neg])
  obtain q where q: "client_to_server X m srvs f p c = client_to_server X m srvs (\<lambda>c bs _. (c, bs)) q c"
    "mac_h q = mac_h p" "ip_h q = ip_h p" "tcp_h q = tcp_h p"
  proof (cases "tcp_payload_size X p > 0")
    case True
    then show ?thesis using that [of "p\<lparr>payload := bs\<rparr>"] by (simp add: client_to_server_def f)
  next
    case False
    then show ?thesis using that [of p] by (simp add: client_to_server_def)
  qed
  show ?thesis
    unfolding q(1) using net idx q(2-)
    by (auto simp: client_to_server_def Let_def seq con_port_def)
qed

text \<open>A connection of \<open>cfg0\<close> with a server and some bytes inserted.\<close>

definition conA :: "unit conn" where
  "conA = (con_new X0)\<lparr>proxy_port := 0xC001, client_ip := 7, client_port := 5000, client_mac := 70,
     c_seqn := 1000, c2s_inserted_bytes := 3, server_index := 1\<rparr>"

definition pktA :: pdu where
  "pktA = pdu0\<lparr>tcp_h := tcp0\<lparr>src_port := 5000, dst_port := 80, seq_num := 500, ack_num := 1500, ack_flag := True\<rparr>\<rparr>"

theorem client_to_server_correct_witness:
  "\<exists>p' c'. client_to_server X0 me0 [srv0, srv1] (\<lambda>c bs _. (c, bs)) pktA conA = Inr (p', c') \<and>
    seq_num (tcp_h p') = 503 \<and> ack_num (tcp_h p') = 500 \<and> ip_dst (ip_h p') = 201 \<and> src_port (tcp_h p') = 0xC001"
  using client_to_server_correct [OF net0, of conA "[srv0, srv1]" "\<lambda>c bs _. (c, bs)" me0 pktA]
  by (auto simp: conA_def pktA_def con_server_index_def con_new_def srv1_def me0_def)

text \<open>
  C13. A packet from the server goes back to the client: it leaves with the proxy's client-side address
  as sender and the client as receiver, its sequence number moved into the numbers the client has
  been given and its acknowledgement moved back by the inserted bytes; a FIN records the number that
  the client's acknowledgement of it will carry, payload included.
\<close>

theorem server_to_client_correct:
  assumes net: "net_ok X" and sock: "con_sock c = Some s"
    and neg: "overflow_checks X \<longrightarrow> sint (c2s_inserted_bytes c) \<noteq> - (2 ^ 31)"
    and size: "payload_size_ok X"
  shows "\<exists>p' c'. server_to_client X m p c = Inr (p', c') \<and>
    mac_dst (mac_h p') = client_mac c \<and> ip_dst (ip_h p') = fst s \<and> ip_src (ip_h p') = l_ip (me_l234 m) \<and>
    tcp_h p' = (tcp_h p)\<lparr>src_port := l_port (me_l234 m), dst_port := snd s,
      seq_num := seq_num (tcp_h p) + c_seqn c, ack_num := ack_num (tcp_h p) - c2s_inserted_bytes c\<rparr> \<and>
    payload p' = payload p \<and>
    c' = c\<lparr>ackn_p2c := ack_num (tcp_h p) - c2s_inserted_bytes c,
      seqn := if fin_flag (tcp_h p) then seq_num (tcp_h p) + c_seqn c + of_nat (tcp_payload_size X p) + 1 else seqn c\<rparr>"
  using server_to_client_run [OF net size sock neg, of m p] by auto

definition pktB :: pdu where
  "pktB = pdu0\<lparr>tcp_h := tcp0\<lparr>src_port := 8081, dst_port := 0xC001, seq_num := 500, ack_num := 503, ack_flag := True,
     fin_flag := True\<rparr>, payload := [1, 2]\<rparr>"

theorem server_to_client_correct_witness:
  "\<exists>p' c'. server_to_client X0 me0 pktB conA = Inr (p', c') \<and> seq_num (tcp_h p') = 1500 \<and> ack_num (tcp_h p') = 500 \<and>
    ip_dst (ip_h p') = 7 \<and> dst_port (tcp_h p') = 5000 \<and> seqn c' = 1503"
  using server_to_client_correct [OF net0 _ _ size0, of conA "(7, 5000)" me0 pktB]
  by (auto simp: conA_def pktB_def con_new_def con_sock_def X0_def tcp0_def)

text \<open>
  C3. The two translations are inverse to each other: if the server acknowledges what the proxy sent
  for a packet of the client, the client sees an acknowledgement of what it sent itself, and what the
  client acknowledges of a server packet reaches the server as an acknowledgement of that packet, for
  every offset and across the wrap-around of the sequence numbers.
\<close>

theorem translation_roundtrip:
  assumes net: "net_ok X" and keep: "\<forall>d bs n. fst (f d bs n) = d"
    and c2s: "client_to_server X m srvs f p c = Inr (p1, c1)"
    and s2c: "server_to_client X m r c2 = Inr (r1, c3)"
    and con: "c_seqn c2 = c_seqn c" "c2s_inserted_bytes c2 = c2s_inserted_bytes c"
  shows "(ack_num (tcp_h r) = seq_num (tcp_h p1) + n \<longleftrightarrow> ack_num (tcp_h r1) = seq_num (tcp_h p) + n) \<and>
    (ack_num (tcp_h p1) = seq_num (tcp_h r) + n \<longleftrightarrow> ack_num (tcp_h p) = seq_num (tcp_h r1) + n)"
proof -
  have "seq_num (tcp_h p1) = seq_num (tcp_h p) + c2s_inserted_bytes c"
    "ack_num (tcp_h p1) = ack_num (tcp_h p) - c_seqn c"
    using client_to_server_packet(4) [OF net c2s] keep by simp_all
  moreover have "seq_num (tcp_h r1) = seq_num (tcp_h r) + c_seqn c2"
    "ack_num (tcp_h r1) = ack_num (tcp_h r) - c2s_inserted_bytes c2"
    using arg_cong [OF server_to_client_packet(5) [OF net s2c], of seq_num]
      arg_cong [OF server_to_client_packet(5) [OF net s2c], of ack_num] by simp_all
  ultimately show ?thesis using con by (auto simp: algebra_simps)
qed

theorem translation_roundtrip_witness:
  "\<exists>p1 c1 r1 c3. client_to_server X0 me0 [srv0, srv1] (\<lambda>c bs _. (c, bs)) pktA conA = Inr (p1, c1) \<and>
    server_to_client X0 me0 pktB conA = Inr (r1, c3) \<and> ack_num (tcp_h r1) = seq_num (tcp_h pktA)"
proof -
  obtain p1 c1 where a: "client_to_server X0 me0 [srv0, srv1] (\<lambda>c bs _. (c, bs)) pktA conA = Inr (p1, c1)"
    "seq_num (tcp_h p1) = 503"
    by (simp add: client_to_server_def X0_def conA_def pktA_def con_server_index_def con_new_def seq_forward_def
        set_header0_def tcp0_def pdu0_def)
  obtain r1 c3 where b: "server_to_client X0 me0 pktB conA = Inr (r1, c3)"
    by (simp add: X0_def conA_def pktB_def con_new_def ack_backward_def server_to_client_def con_sock_def Let_def
        add_w_def tcp0_def pdu0_def)
  show ?thesis
    using translation_roundtrip [OF net0 _ a(1) b, of 0] a b by (auto simp: pktB_def tcp0_def)
qed

section \<open>Delayed binding\<close>

text \<open>
  C14. Selecting a server on the first payload packet produces a SYN to that server with the sequence
  number before the payload, no acknowledgement and no payload flag; the payload packet itself is
  saved, addressed to the same server and owned by the connection alone, and the connection records
  by how many bytes the selection changed its payload.
\<close>

theorem select_server_correct:
  assumes net: "net_ok X" and sel: "f (c\<lparr>payload_packet := Some (p\<lparr>refcnt := refcnt p + 1\<rparr>)\<rparr>) = Inr c1"
    and buf: "payload_packet c1 = Some b" and idx: "con_server_index c1 < length srvs"
  shows "\<exists>p' c' b'. select_server X m srvs f syn p c = Inr (p', c') \<and>
    mac_dst (mac_h p') = l_mac (srvs ! con_server_index c1) \<and> ip_dst (ip_h p') = l_ip (srvs ! con_server_index c1) \<and>
    ip_src (ip_h p') = me_ip_s m \<and>
    tcp_h p' = (tcp_h b)\<lparr>src_port := proxy_port c1, dst_port := l_port (srvs ! con_server_index c1),
      seq_num := seq_num (tcp_h b) - 1, syn_flag := True, ack_num := 0, ack_flag := False, psh_flag := False\<rparr> \<and>
    payload_packet c' = Some b' \<and> seqn c' = seq_num (tcp_h b) - 1 \<and>
    c2s_inserted_bytes c' = of_nat (tcp_payload_size X b) - of_nat (tcp_payload_size X (p\<lparr>refcnt := refcnt p + 1\<rparr>)) \<and>
    ip_dst (ip_h b') = l_ip (srvs ! con_server_index c1) \<and> dst_port (tcp_h b') = l_port (srvs ! con_server_index c1) \<and>
    src_port (tcp_h b') = proxy_port c1 \<and> payload b' = payload b \<and> refcnt b' = refcnt b - 1"
proof -
  obtain p' b' where r: "select_server X m srvs f syn p c = Inr (p', c1\<lparr>payload_packet := Some b', seqn := seq_num (tcp_h b) - 1,
      c2s_inserted_bytes := of_nat (tcp_payload_size X b) - of_nat (tcp_payload_size X (p\<lparr>refcnt := refcnt p + 1\<rparr>))\<rparr>)"
    "mac_dst (mac_h p') = l_mac (srvs ! con_server_index c1)" "ip_dst (ip_h p') = l_ip (srvs ! con_server_index c1)"
    "ip_src (ip_h p') = me_ip_s m"
    "tcp_h p' = (tcp_h b)\<lparr>src_port := proxy_port c1, dst_port := l_port (srvs ! con_server_index c1),
      seq_num := seq_num (tcp_h b) - 1, syn_flag := True, ack_num := 0, ack_flag := False, psh_flag := False\<rparr>"
    "ip_h b' = (ip_h b)\<lparr>ip_dst := l_ip (srvs ! con_server_index c1), ip_src := me_ip_s m\<rparr>"
    "tcp_h b' = (tcp_h b)\<lparr>src_port := proxy_port c1, dst_port := l_port (srvs ! con_server_index c1)\<rparr>"
    "payload b' = payload b" "refcnt b' = refcnt b - 1"
    using select_server_ok [where f = f and c = c and p = p and m = m and syn = syn, OF net sel buf idx] by blast
  show ?thesis
    by (rule exI, rule exI, rule exI [of _ b'], intro conjI) (rule r(1), simp_all add: r(2-))
qed

definition pktD :: pdu where
  "pktD = pktA\<lparr>payload := [1]\<rparr>"

theorem select_server_correct_witness:
  "\<exists>p' c' b'. select_server X0 me0 [srv0, srv1] select0 pdu0 pktD (con_new X0) = Inr (p', c') \<and>
    ip_dst (ip_h p') = 201 \<and> syn_flag (tcp_h p') \<and> seq_num (tcp_h p') = 499 \<and>
    payload_packet c' = Some b' \<and> payload b' = [1] \<and> refcnt b' = 1 \<and> c2s_inserted_bytes c' = 0"
proof -
  have sel: "select0 ((con_new X0)\<lparr>payload_packet := Some (pktD\<lparr>refcnt := refcnt pktD + 1\<rparr>)\<rparr>) =
      Inr ((con_new X0)\<lparr>payload_packet := Some (pktD\<lparr>refcnt := refcnt pktD + 1\<rparr>), server_index := 1\<rparr>)"
    by (simp add: select0_def pktD_def set_server_index_def)
  show ?thesis
    using select_server_correct [where f = select0 and c = "con_new X0" and p = pktD and m = me0 and syn = pdu0
        and srvs = "[srv0, srv1]" and b = "pktD\<lparr>refcnt := refcnt pktD + 1\<rparr>", OF net0 sel]
    by (auto simp: con_server_index_def srv1_def pktD_def pktA_def pdu0_def)
qed

section \<open>The splice\<close>

definition pktS :: pdu where
  "pktS = pdu0\<lparr>tcp_h := tcp0\<lparr>src_port := 8081, dst_port := 0xC001, seq_num := 9000, ack_num := 500, syn_flag := True,
     ack_flag := True\<rparr>, ip_h := (ip_h pdu0)\<lparr>ip_src := 201, ip_dst := 101\<rparr>\<rparr>"

text \<open>
  C16. The splice of the two connections: a byte the server sends \<open>n\<close> places after its SYN-ACK reaches
  the client \<open>n\<close> places after the SYN-ACK the proxy had made up for the client, although the proxy
  chose that number before there was a server.
\<close>

theorem handshake_splice:
  assumes net: "net_ok X" and syn: "client_syn_received X now p c = (p1, c1)" and c2: "c_seqn c2 = c_seqn c1"
    and synack: "server_synack_received X q c2 q0 = Inr (q1, c3, q2)" and c4: "c_seqn c4 = c_seqn c3"
    and fwd: "server_to_client X m r c4 = Inr (r1, c5)" and place: "seq_num (tcp_h r) = seq_num (tcp_h q) + n"
  shows "seq_num (tcp_h r1) = seq_num (tcp_h p1) + n"
proof -
  have "seq_num (tcp_h p1) = c_seqn c1" using syn net by (auto simp: client_syn_received_def Let_def)
  moreover have "c_seqn c3 = c_seqn c2 - seq_num (tcp_h q)"
    using synack by (auto simp: server_synack_received_def Let_def bindR_eq_Inr split: option.splits)
  moreover have "seq_num (tcp_h r1) = seq_num (tcp_h r) + c_seqn c4"
    using arg_cong [OF server_to_client_packet(5) [OF net fwd], of seq_num] by simp
  ultimately show ?thesis using c2 c4 place by simp
qed

theorem handshake_splice_witness:
  "\<exists>p1 c1 q1 c3 q2 r1 c5. client_syn_received X0 3 pktA conA = (p1, c1) \<and>
    server_synack_received X0 pktS c1 [] = Inr (q1, c3, q2) \<and>
    server_to_client X0 me0 (pktB\<lparr>tcp_h := (tcp_h pktB)\<lparr>seq_num := 9001, fin_flag := False\<rparr>\<rparr>) c3 = Inr (r1, c5) \<and>
    seq_num (tcp_h r1) = seq_num (tcp_h p1) + 1"
proof -
  let ?r = "pktB\<lparr>tcp_h := (tcp_h pktB)\<lparr>seq_num := 9001, fin_flag := False\<rparr>\<rparr>"
  obtain p1 c1 where a: "client_syn_received X0 3 pktA conA = (p1, c1)" "payload_packet c1 = None"
    "client_ip c1 = 7" "c2s_inserted_bytes c1 = 3"
    by (simp add: client_syn_received_def Let_def conA_def con_new_def)
  obtain q1 c3 q2 where b: "server_synack_received X0 pktS c1 [] = Inr (q1, c3, q2)" "client_ip c3 = 7"
    "c2s_inserted_bytes c3 = 3"
    using synack_plain [OF net0 a(2), of pktS "[]"] a(3,4) by auto
  obtain r1 c5 where c: "server_to_client X0 me0 ?r c3 = Inr (r1, c5)"
    using b(2,3) by (simp add: server_to_client_def con_sock_def Let_def ack_backward_def)
  show ?thesis
    using handshake_splice [OF net0 a(1) refl b(1) refl c, of 1] a b c by (auto simp: pktS_def)
qed

end
