(* ===== verification/Correct_Pipeline.thy ===== *)
theory Correct_Pipeline
  imports Witness_Library
begin

text \<open>
  Correctness of the packet closure, branch by branch: what is not for the pipeline, what is unknown
  to it, the transitions a packet causes, timer ticks, and that a packet touches one connection only.
\<close>

section \<open>Set-up\<close>

text \<open>
  C21. With a clock of at least 100 cycles a second and an open channel, set-up succeeds and announces
  its tasks in order: all ports of the mask are free, nothing is in use, and since the resolution of
  the wheel and the length of a tick are the same number of cycles, every tick turns the wheel.
\<close>

theorem setup_succeeds:
  fixes X :: "('cr, 'st, 'w, 'm, 'z) net_lib_scheme"
  assumes sh: "shuffle_ok X" and conf: "mask_conf (env_port_mask e) base" "base + NOT (env_port_mask e) \<noteq> 0"
    and A: "setup_api_ok A" and flow: "env_flow e = Some (ip, base)" and l234: "env_l234 e = Some l"
    and clk: "unat (env_cpu_clock e) * 10 < 2 ^ 64" "100 \<le> unat (env_cpu_clock e)" and tx: "env_tx_open e"
  shows "\<exists>cfg (W :: ('st, 'w, 'm) pipe). setup_delayed_proxy X A eng e srvs f1 f2 =
      Inr (cfg, W, [ChannelMsg, TickGeneratorTask, Pipe2KniTask, Pipe2PciTask, BypassPipeTask]) \<and>
    wheel_tick_reduction_factor cfg = 1 \<and> servers cfg = srvs \<and> cm_inv (p_cm W) \<and> det_inv (p_cm W) \<and>
    detailed_records (p_cm W) = (eng_detailed_records eng = Some True) \<and> sock2port (p_cm W) = Map.empty \<and>
    p_alloc W = allocator_new X \<and> p_ticks W = 0 \<and> p_tx_open W \<and>
    timeouts_established cfg = clamp_timeout (wheel_max_timeout_cycles A (p_wheel W)) (default_or_some A (eng_timeouts eng))"
proof -
  let ?d = "case eng_detailed_records eng of None \<Rightarrow> False | Some b \<Rightarrow> b"
  obtain cm :: "('st, 'm) cmanager" where cm: "cm_new X (env_port_mask e) ip base ?d = Inr cm" "cm_inv cm" "det_inv cm"
    "sock2port cm = Map.empty" "detailed_records cm = ?d"
    using cm_new_ok [OF sh conf] by blast
  have d: "?d = (eng_detailed_records eng = Some True)" by (auto split: option.splits)
  have mul: "mul_w (overflow_checks X) (env_cpu_clock e) 10 = Inr (env_cpu_clock e * 10)"
    by (rule mul_w_ok) (use clk(1) in simp)
  have "unat (env_cpu_clock e div 100) \<noteq> 0" using clk(2) by (simp add: unat_div div_eq_0_iff)
  then have nz: "env_cpu_clock e div 100 \<noteq> 0" by (metis unsigned_0)
  then have one: "env_cpu_clock e div 100 div (env_cpu_clock e div 100) = 1"
    by (simp add: word_unat_eq_iff unat_div)
  have tick: "tick_length A t = t" "wheel_resolution A (wheel_new A n r k) = r" for t n r k
    using A by (simp_all add: setup_api_ok_def)
  show ?thesis
    using cm tx nz mul
    by (simp add: setup_delayed_proxy_def flow l234 Let_def TIMER_WHEEL_RESOLUTION_MS_def resolution_is_tick [OF clk(1)]
        tick div_w_def send_msg_def one d [symmetric])
qed

theorem setup_succeeds_witness:
  "\<exists>cfg (W :: (rstore, wheel0, unit) pipe). setup_delayed_proxy X0 A0 eng0 penv0 [srv0, srv1] select0 (\<lambda>c bs _. (c, bs)) =
      Inr (cfg, W, [ChannelMsg, TickGeneratorTask, Pipe2KniTask, Pipe2PciTask, BypassPipeTask]) \<and>
    wheel_tick_reduction_factor cfg = 1"
  using setup_succeeds [OF shuffle0, of penv0 "0xC000" A0 101 "me_l234 me0" eng0 "[srv0, srv1]" select0 "\<lambda>c bs _. (c, bs)"] mask0 api0
  by (simp add: penv0_def) blast

section \<open>Ticks\<close>

text \<open>
  C22. A timer tick is taken by a pipeline without detailed records and counted, and a waiting request
  for the counters is answered with the counters as they are. If the tick turns the wheel, exactly the
  connections whose ports the wheel hands out at the time that was read are released, and any
  connection that is still in use is as it was; any other tick leaves wheel and connections alone.
\<close>

theorem timer_tick_handled:
  assumes inv: "pipe_inv X cfg ent W" and env: "env_ok X cfg" and wh: "wheel_ok X ent" "wheel_catches_up X lag"
    and tk: "overflow_checks X \<longrightarrow> p_ticks W \<noteq> - 1" and tx: "p_tx_open W"
    and et: "etype (mac_h p) = PRIVATE_ETYPE_TIMER X" "private_etype X (etype (mac_h p))" "PRIVATE_ETYPE_PACKET X \<noteq> PRIVATE_ETYPE_TIMER X"
  shows "\<exists>W' p'. delayed_binding_closure X cfg clk msg p W = Some (Inr (W', p', 0)) \<and> pipe_inv X cfg ent W' \<and>
    p_ticks W' = p_ticks W + 1 \<and>
    (msg = Some FetchCounter \<longrightarrow> p_tx W' = p_tx W @ [Counter (p_counter_c W) (p_counter_s W)]) \<and>
    (msg = None \<longrightarrow> p_tx W' = p_tx W) \<and>
    (if (p_ticks W + 1) mod wheel_tick_reduction_factor cfg = 0
     then \<exists>ps. wheel_hands_out X (clk 0) (p_wheel W) ps (p_wheel W') \<and>
       (\<forall>q. owns_tcp_port (p_cm W) q \<longrightarrow> in_use (con_at (p_cm W') q) = (in_use (con_at (p_cm W) q) \<and> q \<notin> set ps))
     else p_wheel W' = p_wheel W \<and> con_at (p_cm W') = con_at (p_cm W)) \<and>
    (\<forall>q. in_use (con_at (p_cm W') q) \<longrightarrow> owns_tcp_port (p_cm W) q \<longrightarrow> con_at (p_cm W') q = con_at (p_cm W) q)"
proof -
  have net: "net_ok X" using env by (simp add: env_ok_def)
  obtain W' where t: "handle_timer X cfg clk msg W = Some (Inr W')" "pipe_inv X cfg ent W'" "p_ticks W' = p_ticks W + 1"
    "\<forall>q. in_use (con_at (p_cm W') q) \<longrightarrow> owns_tcp_port (p_cm W) q \<longrightarrow> con_at (p_cm W') q = con_at (p_cm W) q"
    "\<exists>V. handle_message X msg (W\<lparr>p_ticks := p_ticks W + 1\<rparr>) = Inr V \<and> p_tx W' = p_tx V"
    "if (p_ticks W + 1) mod wheel_tick_reduction_factor cfg = 0
     then \<exists>ps. wheel_hands_out X (clk 0) (p_wheel W) ps (p_wheel W') \<and>
       (\<forall>q. owns_tcp_port (p_cm W) q \<longrightarrow> in_use (con_at (p_cm W') q) = (in_use (con_at (p_cm W) q) \<and> q \<notin> set ps))
     else p_wheel W' = p_wheel W \<and> con_at (p_cm W') = con_at (p_cm W)"
    using handle_timer_ok [OF inv env wh tk tx, of clk msg] by blast
  have "delayed_binding_closure X cfg clk msg p W = Some (Inr (W', offloaded X cfg p, 0))"
    using et t(1) offloaded_sel [OF net, of cfg p]
    by (simp add: delayed_binding_closure_def l2_l3_filter_def Let_def offloaded_def [symmetric])
  moreover have "msg = Some FetchCounter \<longrightarrow> p_tx W' = p_tx W @ [Counter (p_counter_c W) (p_counter_s W)]" "msg = None \<longrightarrow> p_tx W' = p_tx W"
    using t(5) tx by (auto simp: handle_message_def send_reply_def)
  ultimately show ?thesis using t(2-4,6) by blast
qed

text \<open>A tick of the concrete wheel hands out the whole slot, so a client that only sent a SYN is released.\<close>

theorem timer_tick_handled_witness:
  "\<exists>W1 W' p'. in_use (con_at (p_cm W1) 0xC000) \<and>
    delayed_binding_closure X0 cfg0 (\<lambda>_. 5) (Some FetchCounter)
      (pdu0\<lparr>mac_h := \<lparr>mac_src = 1, mac_dst = 10, etype = 0x9001\<rparr>\<rparr>) W1 = Some (Inr (W', p', 0)) \<and>
    (\<exists>ps. wheel_hands_out X0 5 (p_wheel W1) ps (p_wheel W') \<and> in_use (con_at (p_cm W') 0xC000) = (0xC000 \<notin> set ps))"
proof -
  obtain W1 where W1: "owns_tcp_port (p_cm W1) 0xC000" "in_use (con_at (p_cm W1) 0xC000)" "pipe_inv X0 cfg0 ent0 W1"
    "p_tx_open W1" "p_ticks W1 = 0" by (rule W0_synA)
  let ?p = "pdu0\<lparr>mac_h := \<lparr>mac_src = 1, mac_dst = 10, etype = 0x9001\<rparr>\<rparr>"
  have et: "etype (mac_h ?p) = PRIVATE_ETYPE_TIMER X0" "private_etype X0 (etype (mac_h ?p))" "PRIVATE_ETYPE_PACKET X0 \<noteq> PRIVATE_ETYPE_TIMER X0"
    by (simp_all add: X0_def)
  have f: "(p_ticks W1 + 1) mod wheel_tick_reduction_factor cfg0 = 0" by (simp add: cfg0_def)
  have tk: "overflow_checks X0 \<longrightarrow> p_ticks W1 \<noteq> - 1" using W1(5) by simp
  from timer_tick_handled [OF W1(3) env0 wheel0 catches0 tk W1(4) et, of "\<lambda>_. 5" "Some FetchCounter", unfolded if_P [OF f]]
  show ?thesis using W1(1,2) by blast
qed

section \<open>Isolation\<close>

text \<open>
  C18. Connections do not interfere: in a pipeline without detailed records, a packet of a client can
  change only the connection of that client, or, if it is a SYN of a new client, the one of the first
  free port, which becomes its own; a packet of a server can change only the connection of the port it
  is addressed to. All other connections stay exactly as they are, and their clients keep their ports.
\<close>

theorem one_connection_touched:
  assumes inv: "pipe_inv X cfg ent W" and env: "env_ok X cfg" and wh: "wheel_ok X ent"
    and p: "tcp_packet X cfg p" and inp: "input_ok X cfg ent p W"
    and port: "port = (if dst_port (tcp_h p) = l_port (me_l234 (me cfg))
      then client_port (ip_src (ip_h p), src_port (tcp_h p)) (syn_flag (tcp_h p)) (p_cm W) else Some (dst_port (tcp_h p)))"
  shows "\<exists>W' p' g. delayed_binding_closure X cfg clk msg p W = Some (Inr (W', p', g)) \<and>
    (\<forall>q. port \<noteq> Some q \<longrightarrow> con_at (p_cm W') q = con_at (p_cm W) q) \<and>
    (\<forall>s q. port \<noteq> Some q \<longrightarrow> sock2port (p_cm W) s = Some q \<longrightarrow> sock2port (p_cm W') s = Some q)"
proof -
  have net: "net_ok X" using env by (simp add: env_ok_def)
  let ?p = "offloaded X cfg p"
  let ?h = "if dst_port (tcp_h p) = l_port (me_l234 (me cfg)) then handle_client X cfg clk ?p W else handle_server X cfg clk ?p W"
  have "handled X cfg ent port W ?h"
    using handle_client_ok [OF inv env wh, of ?p clk] handle_server_ok [OF inv env wh, of ?p clk] inp offloaded_sel [OF net, of cfg p]
    by (simp add: input_ok_def port)
  then obtain W1 p1 g rel q where h: "?h = Inr (W1, p1, g, rel)" "pipe_inv X cfg ent W1" "same_conf (p_cm W) (p_cm W1)"
    "\<forall>x. x \<noteq> q \<longrightarrow> con_at (p_cm W1) x = con_at (p_cm W) x"
    "port = Some q \<or> rel = None \<and> con_at (p_cm W1) q = con_at (p_cm W) q"
    "rel = None \<or> rel = Some q \<and> owns_tcp_port (p_cm W1) q \<and> in_use (con_at (p_cm W1) q)"
    unfolding handled_def by blast
  obtain W2 where r: "release_connection X rel W1 = Inr W2" "\<forall>x. x \<noteq> q \<longrightarrow> con_at (p_cm W2) x = con_at (p_cm W1) x"
    "pipe_inv X cfg ent W2" "same_conf (p_cm W1) (p_cm W2)" "rel = None \<longrightarrow> W2 = W1"
    using release_connection_ok [OF h(2) wh h(6)] by blast
  have run: "delayed_binding_closure X cfg clk msg p W = Some (Inr (W2, p1, g))"
    unfolding closure_tcp_packet [OF p net] h(1) by (simp add: r(1))
  have same: "con_at (p_cm W2) x = con_at (p_cm W) x" if "port \<noteq> Some x" for x
    using that h(4,5) r(2,5) by (cases "x = q") auto
  have ci: "cm_inv (p_cm W)" "cm_inv (p_cm W2)" "same_conf (p_cm W) (p_cm W2)"
    using inv r(3) same_conf_trans [OF h(3) r(4)] by (simp_all add: pipe_inv_def)
  have "sock2port (p_cm W2) s = Some x" if "port \<noteq> Some x" "sock2port (p_cm W) s = Some x" for s x
  proof -
    note k = cm_inv_sock2port(1-3) [OF ci(1) that(2)]
    have "owns_tcp_port (p_cm W2) x" "in_use (con_at (p_cm W2) x)" using k same [OF that(1)] ci(3) by simp_all
    from cm_inv_used [OF ci(2) this] obtain s' where "con_sock (con_at (p_cm W2) x) = Some s'" "sock2port (p_cm W2) s' = Some x" by blast
    then show ?thesis using k(3) same [OF that(1)] by simp
  qed
  then show ?thesis using run same by blast
qed

theorem one_connection_touched_witness:
  "\<exists>W' p' g. delayed_binding_closure X0 cfg0 (\<lambda>_. 3) None synA W0 = Some (Inr (W', p', g)) \<and>
    (\<forall>q. q \<noteq> 0xC000 \<longrightarrow> con_at (p_cm W') q = con_at (p_cm W0) q)"
proof -
  have "client_port (ip_src (ip_h synA), src_port (tcp_h synA)) (syn_flag (tcp_h synA)) (p_cm W0) = Some 0xC000"
    by (simp add: client_port_def W0_cm cm0_conf cm0_free synA_def)
  moreover have "dst_port (tcp_h synA) = l_port (me_l234 (me cfg0))" by (simp add: synA_def cfg0_def me0_def)
  ultimately show ?thesis using one_connection_touched [OF W0_inv env0 wheel0 synA_tcp synA_ok refl, of "\<lambda>_. 3" None] by auto
qed

section \<open>Packets that are not for a connection\<close>

text \<open>
  A packet that is neither for this pipeline's MAC address nor a broadcast is dropped; any other
  packet that is not TCP over IPv4 to one of the two addresses of the pipeline goes to the kernel
  interface. Neither changes the state of the pipeline or the packet.
\<close>

lemma foreign_packets_pass:
  assumes "\<not> private_etype X (etype (mac_h p))"
    and "mac_dst (mac_h p) \<noteq> l_mac (me_l234 (me cfg)) \<and> \<not> is_multicast X (mac_dst (mac_h p)) \<and> \<not> is_broadcast X (mac_dst (mac_h p)) \<or>
      etype (mac_h p) \<noteq> 0x0800 \<or> protocol (ip_h p) \<noteq> 6 \<or>
      ip_dst (ip_h p) \<noteq> pipeline_ip cfg \<and> ip_dst (ip_h p) \<noteq> l_ip (me_l234 (me cfg))"
  shows "delayed_binding_closure X cfg clk msg p W = Some (Inr (W, p,
    if mac_dst (mac_h p) \<noteq> l_mac (me_l234 (me cfg)) \<and> \<not> is_multicast X (mac_dst (mac_h p)) \<and> \<not> is_broadcast X (mac_dst (mac_h p))
    then 0 else 2))"
  using assms by (auto simp: delayed_binding_closure_def l2_l3_filter_def Let_def)

text \<open>
  C28. A packet of an unknown connection is never an error: without SYN, a packet from an unknown
  client is dropped, and a packet to a port that is not in use goes to the kernel; the table, the
  wheel and the packet stay as they are. A SYN that finds no free port is dropped as well.
\<close>

theorem unknown_connections:
  assumes "cm_inv (p_cm W)"
  shows "(sock2port (p_cm W) (ip_src (ip_h p), src_port (tcp_h p)) = None \<and>
      (\<not> syn_flag (tcp_h p) \<or> free_ports (p_cm W) = []) \<longrightarrow>
      handle_client X cfg clk p W = Inr (W, p, 0, None)) \<and>
    (\<not> (owns_tcp_port (p_cm W) (dst_port (tcp_h p)) \<and> in_use (con_at (p_cm W) (dst_port (tcp_h p)))) \<longrightarrow>
      handle_server X cfg clk p W = Inr (W, p, 2, None))"
  using assms
  by (auto simp: handle_client_def handle_server_def Let_def insert_exhausted get_mut_by_sock_eq
      get_mut_by_port_eq [OF cm_inv_wf])

theorem unknown_connections_witness:
  "handle_client X0 cfg0 (\<lambda>_. 0) pdu0 W0 = Inr (W0, pdu0, 0, None)"
  using unknown_connections [of W0 pdu0 X0 cfg0 "\<lambda>_. 0"] W0_inv W0_empty
  by (auto simp: pipe_inv_def pdu0_def tcp0_def)

section \<open>Transitions\<close>

text \<open>
  C19. Every packet of a client moves its connection by one of the transitions that are listed for its
  kind, with or without detailed records: a packet that is older than what was acknowledged changes
  nothing, a SYN opens a closed side, the ACK of the handshake establishes it, a FIN starts or crosses
  a close, a reset closes the side at once, and anything else acknowledges a FIN, binds the connection
  to a server or leaves it as it is. The connection is marked for release exactly if the packet is a
  reset or both of its sides are closed.
\<close>

theorem client_packet_transition:
  assumes "codes_ok X" and "state_order_ok X" and "select_ok cfg" and "process_ok cfg"
    and "client_step X cfg clk tcp f = Inr f'" and "f_release f = None"
    and "g = segment_of tcp (ackn_p2c (f_con f)) (con_client_state X (f_con f))"
  shows "client_trans (sides_of X (f_con f)) g (sides_of X (f_con f')) \<and>
    (f_release f' \<noteq> None \<longleftrightarrow> g = RstSegment \<or> sides_of X (f_con f') = (Closed, Closed))"
  using client_step_trans [OF assms(1,2) callbacks_keep_states(1) [OF assms(3)] callbacks_keep_states(2) [OF assms(4)] assms(5-7)]
  by auto


theorem client_packet_transition_witness:
  "\<exists>f'. client_step X0 cfg0 (\<lambda>_. 0) (tcp0\<lparr>rst_flag := True\<rparr>) (frm pdu0 Established Established) = Inr f' \<and>
    f_release f' \<noteq> None \<and> client_trans (Established, Established) RstSegment (sides_of X0 (f_con f'))"
proof -
  let ?tcp = "tcp0\<lparr>rst_flag := True\<rparr>" and ?f = "frm pdu0 Established Established"
  obtain f' where r: "client_step X0 cfg0 (\<lambda>_. 0) ?tcp ?f = Inr f'"
    using client_step_keeps [OF env0 frm_ok [of pdu0 Established Established], where clk = "\<lambda>_. 0" and tcp = ?tcp]
    by (auto simp: frm_sel pdu0_def bind_ok_def selectable0)
  have cb: "select_ok cfg0" "process_ok cfg0" using env0 by (simp_all add: env_ok_def)
  have "RstSegment = segment_of ?tcp (ackn_p2c (f_con ?f)) (con_client_state X0 (f_con ?f))"
    using states_of_sides [OF frm_con(1) [of pdu0 Established Established]] by (simp add: segment_of_def tcp0_def frm_con)
  from client_packet_transition [OF codes0 order0 cb r frm_sel(1) this] show ?thesis using r by (auto simp: frm_con)
qed


end
