(* ===== verification/Session_Run.thy ===== *)
theory Session_Run
  imports Lifecycle
begin

text \<open>
  Runs of the whole packet closure over the packets of one connection. A packet of a known connection
  is borrowed into a frame, handled by \<open>client_step\<close> or \<open>server_step\<close> and written back; what that does to
  the state of the pipeline is stated once here, for every branch. A run is driven by a script, in
  which each packet may depend on everything that the pipeline has sent so far: the peers are the
  environment of the proxy.
\<close>

section \<open>Packets of a client and of a server\<close>

definition from_client ::
  "('cr, 'st, 'w, 'm, 'z) net_lib_scheme \<Rightarrow> 'm pcfg \<Rightarrow> sock \<Rightarrow> 'm pdu_scheme \<Rightarrow> bool" where
  "from_client X cfg s p \<longleftrightarrow> tcp_packet X cfg p \<and> dst_port (tcp_h p) = l_port (me_l234 (me cfg)) \<and>
     (ip_src (ip_h p), src_port (tcp_h p)) = s"

definition from_server ::
  "('cr, 'st, 'w, 'm, 'z) net_lib_scheme \<Rightarrow> 'm pcfg \<Rightarrow> u16 \<Rightarrow> 'm pdu_scheme \<Rightarrow> bool" where
  "from_server X cfg q p \<longleftrightarrow> tcp_packet X cfg p \<and> dst_port (tcp_h p) \<noteq> l_port (me_l234 (me cfg)) \<and> dst_port (tcp_h p) = q"

section \<open>One packet of a known connection\<close>

text \<open>The frame in which the next packet of port \<open>q\<close> is handled.\<close>

definition borrowed ::
  "('cr, 'st, 'w, 'm, 'z) net_lib_scheme \<Rightarrow> 'm pcfg \<Rightarrow> u16 \<Rightarrow> 'm pdu_scheme \<Rightarrow> ('st, 'w, 'm) pipe \<Rightarrow> ('st, 'w, 'm) frame" where
  "borrowed X cfg q p W = enter (pidx (p_cm W) q) (p_cm W) (offloaded X cfg p) W"

lemma borrowed_sel [simp]:
  "f_con (borrowed X cfg q p W) = con_at (p_cm W) q" "f_pdu (borrowed X cfg q p W) = offloaded X cfg p"
  "f_release (borrowed X cfg q p W) = None" "f_unexpected (borrowed X cfg q p W) = False"
  "f_producer (borrowed X cfg q p W) = p_producer W"
  by (simp_all add: borrowed_def enter_def con_at_def)

lemma borrowed_ok:
  assumes "pipe_inv X cfg ent W" and "sock2port (p_cm W) s = Some q"
  shows "frame_ok cfg q s (wheel_slot_and_index (con_at (p_cm W) q)) (p_wheel W) (borrowed X cfg q p W)"
proof -
  have inv: "cm_inv (p_cm W)" "det_inv (p_cm W)" "\<not> detailed_records (p_cm W)" "table_ok cfg (p_cm W)" "alloc_ok (p_alloc W)"
    using assms(1) by (simp_all add: pipe_inv_def)
  note k = cm_inv_sock2port [OF inv(1) assms(2)]
  have co: "con_ok cfg (con_at (p_cm W) q)" using inv(4) k(1,2) by (simp add: table_ok_def)
  show ?thesis
    by (rule enter_frame [OF inv(1-3) k(1,2) co inv(5), of "offloaded X cfg p"]) (use k(3) in \<open>simp add: borrowed_def\<close>)
qed

text \<open>The pipeline after the frame has been written back, and after the connection has been released.\<close>

definition carried ::
  "('cr, 'st, 'w, 'm, 'z) net_lib_scheme \<Rightarrow> 'm pcfg \<Rightarrow> ('w \<Rightarrow> u16 \<times> u16 \<Rightarrow> u16 option) \<Rightarrow> u16 \<Rightarrow>
   ('st, 'w, 'm) frame \<Rightarrow> ('st, 'w, 'm) pipe \<Rightarrow> ('st, 'w, 'm) pipe \<Rightarrow> bool" where
  "carried X cfg ent q f W W' \<longleftrightarrow> pipe_inv X cfg ent W' \<and> con_at (p_cm W') q = f_con f \<and>
     sock2port (p_cm W') = sock2port (p_cm W) \<and> free_ports (p_cm W') = free_ports (p_cm W) \<and>
     (\<forall>r. r \<noteq> q \<longrightarrow> con_at (p_cm W') r = con_at (p_cm W) r) \<and> p_producer W' = f_producer f"

definition finished ::
  "('cr, 'st, 'w, 'm, 'z) net_lib_scheme \<Rightarrow> 'm pcfg \<Rightarrow> ('w \<Rightarrow> u16 \<times> u16 \<Rightarrow> u16 option) \<Rightarrow> sock \<Rightarrow> u16 \<Rightarrow>
   ('st, 'w, 'm) frame \<Rightarrow> ('st, 'w, 'm) pipe \<Rightarrow> ('st, 'w, 'm) pipe \<Rightarrow> bool" where
  "finished X cfg ent s q f W W' \<longleftrightarrow> pipe_inv X cfg ent W' \<and> \<not> in_use (con_at (p_cm W') q) \<and>
     sock2port (p_cm W') = (sock2port (p_cm W))(s := None) \<and> free_ports (p_cm W') = free_ports (p_cm W) @ [q] \<and>
     (\<forall>r. r \<noteq> q \<longrightarrow> con_at (p_cm W') r = con_at (p_cm W) r) \<and> p_producer W' = f_producer f"

lemma write_back:
  assumes inv: "pipe_inv X cfg ent W" and wh: "wheel_ok X ent" and known: "sock2port (p_cm W) s = Some q"
    and fr: "frame_ok cfg q s (wheel_slot_and_index (con_at (p_cm W) q)) (p_wheel W) f"
  shows "carried X cfg ent q f W (leave (pidx (p_cm W) q) (p_cm W) W f)"
proof -
  let ?cm = "p_cm W" and ?W = "leave (pidx (p_cm W) q) (p_cm W) W f"
  have i: "cm_inv ?cm" "det_inv ?cm" "\<not> detailed_records ?cm" "table_ok cfg ?cm" "wheel_inv ent {} ?cm (p_wheel W)"
    using inv by (simp_all add: pipe_inv_def)
  note k = cm_inv_sock2port [OF i(1) known]
  have step: "wheel_step X False q (wheel_slot_and_index (con_at ?cm q), p_wheel W) (wheel_slot_and_index (con_at ?cm q), p_wheel W)"
    by (simp add: wheel_step_def)
  have wi: "wheel_inv ent (if False then {q} else {}) ?cm (p_wheel W)" using i(5) by simp
  note lv = leave_inv [OF i(1-4) k(1,2) wh wi _ step fr k(3), simplified]
  have "sock2port (p_cm ?W) = sock2port ?cm" "free_ports (p_cm ?W) = free_ports ?cm" "p_producer ?W = f_producer f"
    by (simp_all add: leave_def)
  then show ?thesis using lv(1,3,4) by (simp add: carried_def)
qed

lemma write_back_release:
  assumes c: "carried X cfg ent q f W V" and wh: "wheel_ok X ent" and known: "sock2port (p_cm W) s = Some q"
  shows "\<exists>W'. release_connection X (Some q) V = Inr W' \<and> finished X cfg ent s q f W W'"
proof -
  have inv: "cm_inv (p_cm V)" "det_inv (p_cm V)" "wheel_inv ent {} (p_cm V) (p_wheel V)" "sock2port (p_cm V) s = Some q"
    "pipe_inv X cfg ent V"
    using c known by (simp_all add: carried_def pipe_inv_def)
  note k = cm_inv_sock2port [OF inv(1,4)]
  obtain cm' w' where r: "release_port X q (p_cm V, p_wheel V) = Inr (cm', w')" "free_ports cm' = free_ports (p_cm V) @ [q]"
    "sock2port cm' = (sock2port (p_cm V))(s := None)" "con_at cm' q = con_release (con_at (p_cm V) q)"
    "\<forall>x. x \<noteq> q \<longrightarrow> con_at cm' x = con_at (p_cm V) x"
    using release_port_ok [OF inv(1,2) wh inv(3) k(1,2) inv(4)] by blast
  have run: "release_connection X (Some q) V = Inr (V\<lparr>p_cm := cm', p_wheel := w'\<rparr>)"
    using r(1) by (simp add: release_connection_def)
  have "Some q = None \<or> Some q = Some q \<and> owns_tcp_port (p_cm V) q \<and> in_use (con_at (p_cm V) q)" using k by simp
  then obtain W' where w: "release_connection X (Some q) V = Inr W'" "pipe_inv X cfg ent W'"
    using release_connection_ok [OF inv(5) wh] by blast
  define U where "U = V\<lparr>p_cm := cm', p_wheel := w'\<rparr>"
  have U: "p_cm U = cm'" "p_producer U = p_producer V" "W' = U" using run w(1) by (simp_all add: U_def)
  have "\<not> in_use (con_at cm' q)" by (simp add: r(4))
  moreover have "con_at cm' x = con_at (p_cm W) x" if "x \<noteq> q" for x using r(5) c that by (simp add: carried_def)
  moreover have "p_producer V = f_producer f" "free_ports (p_cm V) = free_ports (p_cm W)" "sock2port (p_cm V) = sock2port (p_cm W)"
    using c by (simp_all add: carried_def)
  ultimately have "finished X cfg ent s q f W W'" using w(2) r(2,3) unfolding finished_def U by simp
  then show ?thesis using w(1) by blast
qed

lemma client_closure:
  assumes inv: "pipe_inv X cfg ent W" and net: "net_ok X" and wh: "wheel_ok X ent" and known: "sock2port (p_cm W) s = Some q"
    and p: "from_client X cfg s p" "\<not> syn_flag (tcp_h p)"
    and run: "client_step X cfg clk (tcp_h p) (borrowed X cfg q p W) = Inr f"
    and fr: "frame_ok cfg q s (wheel_slot_and_index (con_at (p_cm W) q)) (p_wheel W) f"
  shows "f_release f = None \<Longrightarrow> \<exists>W'. delayed_binding_closure X cfg clk msg p W = Some (Inr (W', f_pdu f, f_group f)) \<and>
      carried X cfg ent q f W W'"
    and "f_release f = Some q \<Longrightarrow> \<exists>W'. delayed_binding_closure X cfg clk msg p W = Some (Inr (W', f_pdu f, f_group f)) \<and>
      finished X cfg ent s q f W W'"
proof -
  let ?V = "leave (pidx (p_cm W) q) (p_cm W) W f"
  note off = offloaded_sel [OF net, of cfg p]
  have ci: "cm_inv (p_cm W)" using inv by (simp add: pipe_inv_def)
  have h: "handle_client X cfg clk (offloaded X cfg p) W = Inr (?V, f_pdu f, f_group f, f_release f)"
    using p known run by (simp add: handle_client_def off Let_def from_client_def get_mut_by_sock_eq [OF ci] borrowed_def)
  have tp: "tcp_packet X cfg p" and dp: "dst_port (tcp_h p) = l_port (me_l234 (me cfg))" using p(1) by (simp_all add: from_client_def)
  have cl: "delayed_binding_closure X cfg clk msg p W =
      Some (bindR (release_connection X (f_release f) ?V) (\<lambda>W. Inr (W, f_pdu f, f_group f)))"
    using closure_tcp_packet [OF tp net, of clk msg W] dp h by simp
  note c = write_back [OF inv wh known fr]
  show "\<exists>W'. delayed_binding_closure X cfg clk msg p W = Some (Inr (W', f_pdu f, f_group f)) \<and> carried X cfg ent q f W W'"
    if "f_release f = None" using cl c that by (simp add: release_connection_def)
  show "\<exists>W'. delayed_binding_closure X cfg clk msg p W = Some (Inr (W', f_pdu f, f_group f)) \<and> finished X cfg ent s q f W W'"
    if "f_release f = Some q" using write_back_release [OF c wh known] that by (auto simp: cl)
qed

lemma server_closure:
  assumes inv: "pipe_inv X cfg ent W" and net: "net_ok X" and wh: "wheel_ok X ent" and known: "sock2port (p_cm W) s = Some q"
    and p: "from_server X cfg q p"
    and run: "server_step X cfg clk (tcp_h p) (borrowed X cfg q p W) = Inr f"
    and fr: "frame_ok cfg q s (wheel_slot_and_index (con_at (p_cm W) q)) (p_wheel W) f"
    and rel: "f_release f = None"
  shows "\<exists>W'. delayed_binding_closure X cfg clk msg p W = Some (Inr (W', f_pdu f, f_group f)) \<and> carried X cfg ent q f W W'"
proof -
  let ?V = "leave (pidx (p_cm W) q) (p_cm W) W f"
  note off = offloaded_sel [OF net, of cfg p]
  have ci: "cm_inv (p_cm W)" using inv by (simp add: pipe_inv_def)
  note k = cm_inv_sock2port [OF ci known]
  have tp: "tcp_packet X cfg p" and dp: "dst_port (tcp_h p) \<noteq> l_port (me_l234 (me cfg))" "dst_port (tcp_h p) = q"
    using p unfolding from_server_def by blast+
  have h: "handle_server X cfg clk (offloaded X cfg p) W = Inr (?V, f_pdu f, f_group f, None)"
    using dp(2) k run rel by (simp add: handle_server_def off Let_def get_mut_by_port_eq [OF cm_inv_wf [OF ci]] borrowed_def)
  have "delayed_binding_closure X cfg clk msg p W = Some (Inr (?V, f_pdu f, f_group f))"
    using closure_tcp_packet [OF tp net, of clk msg W] dp(1) h by (simp add: release_connection_def)
  then show ?thesis using write_back [OF inv wh known fr] by blast
qed

section \<open>Scripts\<close>

text \<open>
  \<open>play\<close> runs the closure over the packets of a script; \<open>outs\<close> is the list of packets it has handed on
  so far, with their groups, and is what the next packet may depend on.
\<close>

type_synonym 'm script = "(('m pdu_scheme \<times> nat) list \<Rightarrow> 'm pdu_scheme) list"

fun play ::
  "('cr, 'st, 'w, 'm, 'z) net_lib_scheme \<Rightarrow> 'm pcfg \<Rightarrow> (nat \<Rightarrow> nat \<Rightarrow> u64) \<Rightarrow> 'm script \<Rightarrow> ('m pdu_scheme \<times> nat) list \<Rightarrow>
   ('st, 'w, 'm) pipe \<Rightarrow> (('m pdu_scheme \<times> nat) list \<times> ('st, 'w, 'm) pipe) res option" where
  "play X cfg clks [] outs W = Some (Inr (outs, W))"
| "play X cfg clks (b # bs) outs W =
     (case delayed_binding_closure X cfg (clks (length outs)) None (b outs) W of
        None \<Rightarrow> None
      | Some (Inl e) \<Rightarrow> Some (Inl e)
      | Some (Inr (W', p, g)) \<Rightarrow> play X cfg clks bs (outs @ [(p, g)]) W')"

lemma play_Cons:
  assumes "delayed_binding_closure X cfg (clks n) None (b outs) W = Some (Inr (W', p, g))" and "length outs = n"
  shows "play X cfg clks (b # bs) outs W = play X cfg clks bs (outs @ [(p, g)]) W'"
  using assms by simp

lemma play_append:
  "play X cfg clks bs outs W = Some (Inr (outs', W')) \<Longrightarrow> play X cfg clks (bs @ cs) outs W = play X cfg clks cs outs' W'"
  by (induction bs arbitrary: outs W) (auto split: option.splits sum.splits)

section \<open>The stages of a session\<close>

text \<open>
  Client \<open>s\<close> has port \<open>q\<close> in pipeline \<open>W\<close>, which is otherwise as \<open>V\<close> was before the client came; the last
  argument is the pair of states of its connection.
\<close>

definition stage ::
  "('cr, 'st, 'w, 'm, 'z) net_lib_scheme \<Rightarrow> 'm pcfg \<Rightarrow> ('w \<Rightarrow> u16 \<times> u16 \<Rightarrow> u16 option) \<Rightarrow> sock \<Rightarrow> u16 \<Rightarrow>
   ('st, 'w, 'm) pipe \<Rightarrow> ('st, 'w, 'm) pipe \<Rightarrow> sides \<Rightarrow> bool" where
  "stage X cfg ent s q V W x \<longleftrightarrow> pipe_inv X cfg ent W \<and> sides_of X (con_at (p_cm W) q) = x \<and>
     sock2port (p_cm W) = (sock2port (p_cm V))(s \<mapsto> q) \<and> free_ports (p_cm V) = q # free_ports (p_cm W) \<and>
     (\<forall>r. r \<noteq> q \<longrightarrow> con_at (p_cm W) r = con_at (p_cm V) r)"

lemma stageD:
  assumes "stage X cfg ent s q V W x"
  shows "pipe_inv X cfg ent W" "sock2port (p_cm W) s = Some q" "sides_of X (con_at (p_cm W) q) = x"
  using assms by (simp_all add: stage_def)

lemma stage_frame:
  assumes "stage X cfg ent s q V W x"
  shows "frame_ok cfg q s (wheel_slot_and_index (con_at (p_cm W) q)) (p_wheel W) (borrowed X cfg q p W)"
    and "sides_of X (f_con (borrowed X cfg q p W)) = x"
  using borrowed_ok [OF stageD(1,2) [OF assms]] stageD(3) [OF assms] by simp_all

lemma stage_carried:
  "stage X cfg ent s q V W x \<Longrightarrow> carried X cfg ent q f W W' \<Longrightarrow> stage X cfg ent s q V W' (sides_of X (f_con f))"
  by (simp add: stage_def carried_def)

lemma stage_finished:
  assumes "stage X cfg ent s q V W x" and "finished X cfg ent s q f W W'" and "sock2port (p_cm V) s = None"
  shows "pipe_inv X cfg ent W' \<and> \<not> in_use (con_at (p_cm W') q) \<and> sock2port (p_cm W') = sock2port (p_cm V) \<and>
    free_ports (p_cm W') = tl (free_ports (p_cm V)) @ [q] \<and> (\<forall>r. r \<noteq> q \<longrightarrow> con_at (p_cm W') r = con_at (p_cm V) r) \<and>
    p_producer W' = f_producer f"
proof -
  have "(sock2port (p_cm V))(s := None) = sock2port (p_cm V)" using assms(3) by auto
  then show ?thesis using assms(1,2) by (simp add: stage_def finished_def)
qed

text \<open>The SYN of a new client.\<close>

lemma stage_syn:
  assumes inv: "pipe_inv X cfg ent V" and env: "env_ok X cfg" and ord: "state_order_ok X" and wh: "wheel_ok X ent"
    and p: "from_client X cfg s p" "syn_flag (tcp_h p)" "fst s \<noteq> 0" and room: "wheel_load ent (p_wheel V) < 2 ^ 16"
    and new: "sock2port (p_cm V) s = None" and free: "free_ports (p_cm V) = q # rest"
  shows "\<exists>W p'. delayed_binding_closure X cfg clk msg p V = Some (Inr (W, p', 1)) \<and>
    stage X cfg ent s q V W (SynSent, Listen) \<and> ackn_p2c (con_at (p_cm W) q) = seq_num (tcp_h p) + 1 \<and>
    con_server_index (con_at (p_cm W) q) = 0 \<and> p_producer W = p_producer V \<and>
    syn_flag (tcp_h p') \<and> ack_flag (tcp_h p') \<and> ack_num (tcp_h p') = seq_num (tcp_h p) + 1 \<and>
    (ip_dst (ip_h p'), dst_port (tcp_h p')) = s"
proof -
  have net: "net_ok X" using env by (simp add: env_ok_def)
  note off = offloaded_sel [OF net, of cfg p]
  have s: "(ip_src (ip_h p), src_port (tcp_h p)) = s" "tcp_packet X cfg p" "dst_port (tcp_h p) = l_port (me_l234 (me cfg))"
    using p(1) by (simp_all add: from_client_def)
  obtain W p' c where h: "handle_client X cfg clk (offloaded X cfg p) V = Inr (W, p', 1, None)" "pipe_inv X cfg ent W"
    "free_ports (p_cm W) = rest" "sock2port (p_cm W) = (sock2port (p_cm V))(s \<mapsto> q)"
    "sides_of X (con_at (p_cm W) q) = (SynSent, Listen)" "\<forall>r. r \<noteq> q \<longrightarrow> con_at (p_cm W) r = con_at (p_cm V) r"
    "p' = fst (client_syn_received X (clk 0) (offloaded X cfg p) c)"
    "ackn_p2c (con_at (p_cm W) q) = seq_num (tcp_h p) + 1" "p_producer W = p_producer V"
    "server_index (con_at (p_cm W) q) = 0"
    using fresh_syn [OF inv env ord wh, of "offloaded X cfg p" q rest clk] p(2,3) room new free s(1) unfolding off by auto
  have "delayed_binding_closure X cfg clk msg p V = Some (Inr (W, p', 1))"
    using closure_tcp_packet [OF s(2) net, of clk msg V] h(1) s(3) by (simp add: release_connection_def)
  moreover have "syn_flag (tcp_h p') \<and> ack_flag (tcp_h p') \<and> ack_num (tcp_h p') = seq_num (tcp_h p) + 1 \<and>
      (ip_dst (ip_h p'), dst_port (tcp_h p')) = s"
    using net p(2) off s(1) by (simp add: h(7) client_syn_received_def Let_def)
  moreover have "stage X cfg ent s q V W (SynSent, Listen)" using h(2-6) free by (simp add: stage_def)
  moreover have "con_server_index (con_at (p_cm W) q) = 0" using h(10) by (simp add: con_server_index_def)
  ultimately show ?thesis using h(8,9) by blast
qed

text \<open>The ACK of the handshake; the proxy keeps it.\<close>

lemma stage_ack:
  assumes st: "stage X cfg ent s q V W (SynSent, Listen)" and env: "env_ok X cfg" and ord: "state_order_ok X" and wh: "wheel_ok X ent"
    and p: "from_client X cfg s p" "ack_flag (tcp_h p)" "\<not> syn_flag (tcp_h p)" "ackn_p2c (con_at (p_cm W) q) \<le> seq_num (tcp_h p)"
  shows "\<exists>W' p'. delayed_binding_closure X cfg clk msg p W = Some (Inr (W', p', 0)) \<and>
    stage X cfg ent s q V W' (Established, Listen) \<and> ackn_p2c (con_at (p_cm W') q) = ackn_p2c (con_at (p_cm W) q) \<and>
    con_server_index (con_at (p_cm W') q) = con_server_index (con_at (p_cm W) q) \<and> p_producer W' = p_producer W"
proof -
  have ok: "net_ok X" "codes_ok X" using env by (simp_all add: env_ok_def)
  let ?f = "borrowed X cfg q p W"
  define f where "f = count_c RecvSynAck2 (?f\<lparr>f_con := (con_at (p_cm W) q)\<lparr>client_state := state_as_u8 X Established\<rparr>\<rparr>)"
  have fr0: "frame_ok cfg q s (wheel_slot_and_index (con_at (p_cm W) q)) (p_wheel W) ?f" by (rule stage_frame [OF st])
  have run: "client_step X cfg clk (tcp_h p) ?f = Inr f"
    using step_handshake_ack [OF env ord fr0 stage_frame(2) [OF st] p(2,3)] p(4) by (simp add: f_def)
  have fr: "frame_ok cfg q s (wheel_slot_and_index (con_at (p_cm W) q)) (p_wheel W) f"
    using fr0 frame_ok_con_upd(1) [where f = ?f and cfg = cfg] by (simp add: f_def)
  have sel: "f_release f = None" "f_group f = 0" "f_producer f = p_producer W" "ackn_p2c (f_con f) = ackn_p2c (con_at (p_cm W) q)"
    "con_server_index (f_con f) = con_server_index (con_at (p_cm W) q)"
    by (simp_all add: f_def con_server_index_def) (simp add: borrowed_def enter_def)
  have sd: "sides_of X (f_con f) = (Established, Listen)" using states_of_sides [OF stageD(3) [OF st]] ok(2) by (simp add: f_def)
  obtain W' where W': "delayed_binding_closure X cfg clk msg p W = Some (Inr (W', f_pdu f, 0))" "carried X cfg ent q f W W'"
    using client_closure(1) [OF stageD(1) [OF st] ok(1) wh stageD(2) [OF st] p(1,3) run fr sel(1), of msg] sel(2) by auto
  have "stage X cfg ent s q V W' (Established, Listen)" using stage_carried [OF st W'(2)] sd by simp
  moreover have "con_at (p_cm W') q = f_con f" "p_producer W' = f_producer f" using W'(2) by (simp_all add: carried_def)
  ultimately show ?thesis using W'(1) sel by (intro exI [of _ W'] exI [of _ "f_pdu f"]) simp
qed

text \<open>The first payload packet: a SYN goes to a server.\<close>

lemma stage_payload:
  assumes st: "stage X cfg ent s q V W (Established, Listen)" and env: "env_ok X cfg" and ord: "state_order_ok X" and wh: "wheel_ok X ent"
    and p: "from_client X cfg s p" "\<not> syn_flag (tcp_h p)" "\<not> fin_flag (tcp_h p)" "\<not> rst_flag (tcp_h p)"
      "ackn_p2c (con_at (p_cm W) q) \<le> seq_num (tcp_h p)" "refcnt p = 1" "selectable cfg (con_at (p_cm W) q) (offloaded X cfg p)"
  shows "\<exists>W' p' i b. delayed_binding_closure X cfg clk msg p W = Some (Inr (W', p', 1)) \<and>
    stage X cfg ent s q V W' (Established, SynReceived) \<and> ackn_p2c (con_at (p_cm W') q) = ackn_p2c (con_at (p_cm W) q) \<and>
    p_producer W' = p_producer W \<and> i < length (servers cfg) \<and> con_server_index (con_at (p_cm W') q) = i \<and>
    ip_dst (ip_h p') = l_ip (servers cfg ! i) \<and>
    dst_port (tcp_h p') = l_port (servers cfg ! i) \<and> src_port (tcp_h p') = q \<and> syn_flag (tcp_h p') \<and>
    payload_packet (con_at (p_cm W') q) = Some b \<and> seq_num (tcp_h p') = seqn (con_at (p_cm W') q)"
proof -
  have ok: "net_ok X" using env by (simp add: env_ok_def)
  let ?f = "borrowed X cfg q p W"
  have fr0: "frame_ok cfg q s (wheel_slot_and_index (con_at (p_cm W) q)) (p_wheel W) ?f" by (rule stage_frame [OF st])
  have pre: "f_release ?f = None" "refcnt (f_pdu ?f) = 1" "ackn_p2c (f_con ?f) \<le> seq_num (tcp_h p)" "selectable cfg (f_con ?f) (f_pdu ?f)"
    using p ok by simp_all
  obtain f i b where f: "client_step X cfg clk (tcp_h p) ?f = Inr f"
    "frame_ok cfg q s (wheel_slot_and_index (con_at (p_cm W) q)) (p_wheel W) f" "f_release f = None"
    "sides_of X (f_con f) = (Established, SynReceived)" "f_group f = 1" "i < length (servers cfg)"
    "payload_packet (f_con f) = Some b" "ip_dst (ip_h (f_pdu f)) = l_ip (servers cfg ! i)"
    "dst_port (tcp_h (f_pdu f)) = l_port (servers cfg ! i)" "src_port (tcp_h (f_pdu f)) = q" "syn_flag (tcp_h (f_pdu f))"
    "seq_num (tcp_h (f_pdu f)) = seqn (f_con f)" "f_producer f = f_producer ?f" "ackn_p2c (f_con f) = ackn_p2c (f_con ?f)"
    "con_server_index (f_con f) = i"
    using step_first_payload [OF env ord fr0 pre(1) stage_frame(2) [OF st] pre(2) p(2-4) pre(3,4), of clk] by (elim exE conjE)
  obtain W' where W': "delayed_binding_closure X cfg clk msg p W = Some (Inr (W', f_pdu f, 1))" "carried X cfg ent q f W W'"
    using client_closure(1) [OF stageD(1) [OF st] ok wh stageD(2) [OF st] p(1,2) f(1-3), of msg] f(5) by auto
  have "stage X cfg ent s q V W' (Established, SynReceived)" using stage_carried [OF st W'(2)] f(4) by simp
  moreover have "con_at (p_cm W') q = f_con f" "p_producer W' = f_producer f" using W'(2) by (simp_all add: carried_def)
  ultimately show ?thesis
    using W'(1) f(6-15) by (intro exI [of _ W'] exI [of _ "f_pdu f"] exI [of _ i] exI [of _ b]) simp
qed

text \<open>The SYN-ACK of the server: its ACK and the payload of the client go out.\<close>

lemma stage_synack:
  assumes st: "stage X cfg ent s q V W (Established, SynReceived)" and env: "env_ok X cfg" and ord: "state_order_ok X" and wh: "wheel_ok X ent"
    and p: "from_server X cfg q p" "syn_flag (tcp_h p)" "ack_flag (tcp_h p)" and pp: "payload_packet (con_at (p_cm W) q) = Some b"
  shows "\<exists>W' p' ack dat. delayed_binding_closure X cfg clk msg p W = Some (Inr (W', p', 0)) \<and>
    stage X cfg ent s q V W' (Established, Established) \<and> ackn_p2c (con_at (p_cm W') q) = ackn_p2c (con_at (p_cm W) q) \<and>
    con_server_index (con_at (p_cm W') q) = con_server_index (con_at (p_cm W) q) \<and>
    p_producer W' = p_producer W @ [ack, dat] \<and> seq_num (tcp_h ack) = seqn (con_at (p_cm W) q) + 1 \<and>
    ack_num (tcp_h ack) = seq_num (tcp_h p) + 1 \<and> ack_flag (tcp_h ack) \<and> \<not> syn_flag (tcp_h ack) \<and>
    tcp_h dat = (tcp_h ack)\<lparr>psh_flag := True\<rparr> \<and> payload dat = payload b"
proof -
  have ok: "net_ok X" using env by (simp add: env_ok_def)
  let ?f = "borrowed X cfg q p W"
  have fr0: "frame_ok cfg q s (wheel_slot_and_index (con_at (p_cm W) q)) (p_wheel W) ?f" by (rule stage_frame [OF st])
  have pre: "f_release ?f = None" "payload_packet (f_con ?f) = Some b" "\<not> f_unexpected ?f" using pp by simp_all
  obtain f ack dat where f: "server_step X cfg clk (tcp_h p) ?f = Inr f"
    "frame_ok cfg q s (wheel_slot_and_index (con_at (p_cm W) q)) (p_wheel W) f" "f_release f = None"
    "sides_of X (f_con f) = (Established, Established)" "f_group f = 0" "f_producer f = f_producer ?f @ [ack, dat]"
    "seq_num (tcp_h ack) = seqn (f_con ?f) + 1" "ack_num (tcp_h ack) = seq_num (tcp_h (f_pdu ?f)) + 1"
    "ack_flag (tcp_h ack)" "\<not> syn_flag (tcp_h ack)" "tcp_h dat = (tcp_h ack)\<lparr>psh_flag := True\<rparr>" "payload dat = payload b"
    "ackn_p2c (f_con f) = ackn_p2c (f_con ?f)" "server_index (f_con f) = server_index (f_con ?f)"
    using step_server_synack [OF env ord fr0 pre(1) stage_frame(2) [OF st] pre(2) p(2,3) pre(3), of clk] by (elim exE conjE)
  obtain W' where W': "delayed_binding_closure X cfg clk msg p W = Some (Inr (W', f_pdu f, 0))" "carried X cfg ent q f W W'"
    using server_closure [OF stageD(1) [OF st] ok wh stageD(2) [OF st] p(1) f(1-3), of msg] f(5) by auto
  have "stage X cfg ent s q V W' (Established, Established)" using stage_carried [OF st W'(2)] f(4) by simp
  moreover have "con_at (p_cm W') q = f_con f" "p_producer W' = f_producer f" using W'(2) by (simp_all add: carried_def)
  ultimately show ?thesis
    using W'(1) f(6-14) ok by (intro exI [of _ W'] exI [of _ "f_pdu f"] exI [of _ ack] exI [of _ dat]) (simp add: con_server_index_def)
qed

text \<open>The FIN of the client, the FIN of the server that acknowledges it, and the last ACK.\<close>

lemma stage_fin:
  assumes st: "stage X cfg ent s q V W (Established, Established)" and env: "env_ok X cfg" and ord: "state_order_ok X" and wh: "wheel_ok X ent"
    and p: "from_client X cfg s p" "\<not> syn_flag (tcp_h p)" "fin_flag (tcp_h p)" "ackn_p2c (con_at (p_cm W) q) \<le> seq_num (tcp_h p)"
      "tcp_payload_size X (offloaded X cfg p) = 0"
  shows "\<exists>W' p'. delayed_binding_closure X cfg clk msg p W = Some (Inr (W', p', 1)) \<and>
    stage X cfg ent s q V W' (FinWait1, Established) \<and> p_producer W' = p_producer W \<and> fin_flag (tcp_h p') \<and>
    seqn_fin_p2s (con_at (p_cm W') q) = seq_num (tcp_h p') \<and>
    con_server_index (con_at (p_cm W') q) = con_server_index (con_at (p_cm W) q) \<and>
    ip_dst (ip_h p') = l_ip (servers cfg ! con_server_index (con_at (p_cm W) q)) \<and>
    dst_port (tcp_h p') = l_port (servers cfg ! con_server_index (con_at (p_cm W) q))"
proof -
  have ok: "net_ok X" using env by (simp add: env_ok_def)
  let ?f = "borrowed X cfg q p W"
  have fr0: "frame_ok cfg q s (wheel_slot_and_index (con_at (p_cm W) q)) (p_wheel W) ?f" by (rule stage_frame [OF st])
  have pre: "f_release ?f = None" "tcp_payload_size X (f_pdu ?f) = 0" "tcp_h p = tcp_h (f_pdu ?f)"
    "ackn_p2c (f_con ?f) \<le> seq_num (tcp_h p)" using p ok by simp_all
  obtain f where f: "client_step X cfg clk (tcp_h p) ?f = Inr f"
    "frame_ok cfg q s (wheel_slot_and_index (con_at (p_cm W) q)) (p_wheel W) f" "f_release f = None"
    "sides_of X (f_con f) = (FinWait1, Established)" "f_group f = 1" "fin_flag (tcp_h (f_pdu f))"
    "seqn_fin_p2s (f_con f) = seq_num (tcp_h (f_pdu f))" "f_producer f = f_producer ?f"
    "server_index (f_con f) = server_index (f_con ?f)" "ip_dst (ip_h (f_pdu f)) = l_ip (servers cfg ! con_server_index (f_con ?f))"
    "dst_port (tcp_h (f_pdu f)) = l_port (servers cfg ! con_server_index (f_con ?f))"
    using step_client_fin [OF env ord fr0 pre(1) stage_frame(2) [OF st] pre(2,3) p(3,2) pre(4), of clk] by (elim exE conjE)
  obtain W' where W': "delayed_binding_closure X cfg clk msg p W = Some (Inr (W', f_pdu f, 1))" "carried X cfg ent q f W W'"
    using client_closure(1) [OF stageD(1) [OF st] ok wh stageD(2) [OF st] p(1,2) f(1-3), of msg] f(5) by auto
  have "stage X cfg ent s q V W' (FinWait1, Established)" using stage_carried [OF st W'(2)] f(4) by simp
  moreover have "con_at (p_cm W') q = f_con f" "p_producer W' = f_producer f" using W'(2) by (simp_all add: carried_def)
  ultimately show ?thesis using W'(1) f(6-11) by (intro exI [of _ W'] exI [of _ "f_pdu f"]) (simp add: con_server_index_def)
qed

lemma stage_fin_unbound:
  assumes st: "stage X cfg ent s q V W (Established, Listen)" and env: "env_ok X cfg" and ord: "state_order_ok X" and wh: "wheel_ok X ent"
    and p: "from_client X cfg s p" "\<not> syn_flag (tcp_h p)" "fin_flag (tcp_h p)" "ackn_p2c (con_at (p_cm W) q) \<le> seq_num (tcp_h p)"
  shows "\<exists>W' p'. delayed_binding_closure X cfg clk msg p W = Some (Inr (W', p', 1)) \<and>
    stage X cfg ent s q V W' (FinWait1, LastAck) \<and> p_producer W' = p_producer W \<and>
    ackn_p2c (con_at (p_cm W') q) = ackn_p2c (con_at (p_cm W) q) \<and> seqn (con_at (p_cm W') q) = seq_num (tcp_h p') + 1 \<and>
    con_server_index (con_at (p_cm W') q) = con_server_index (con_at (p_cm W) q) \<and>
    fin_flag (tcp_h p') \<and> ack_flag (tcp_h p') \<and> ack_num (tcp_h p') = seq_num (tcp_h p) + 1 \<and>
    (ip_dst (ip_h p'), dst_port (tcp_h p')) = s"
proof -
  have ok: "net_ok X" using env by (simp add: env_ok_def)
  note off = offloaded_sel [OF ok, of cfg p]
  let ?f = "borrowed X cfg q p W"
  have fr0: "frame_ok cfg q s (wheel_slot_and_index (con_at (p_cm W) q)) (p_wheel W) ?f" by (rule stage_frame [OF st])
  have pre: "f_release ?f = None" "ackn_p2c (f_con ?f) \<le> seq_num (tcp_h p)" using p by simp_all
  obtain f where f: "client_step X cfg clk (tcp_h p) ?f = Inr f"
    "frame_ok cfg q s (wheel_slot_and_index (con_at (p_cm W) q)) (p_wheel W) f" "f_release f = None"
    "sides_of X (f_con f) = (FinWait1, LastAck)" "f_group f = 1" "ackn_p2c (f_con f) = ackn_p2c (f_con ?f)"
    "seqn (f_con f) = seq_num (tcp_h (f_pdu f)) + 1" "fin_flag (tcp_h (f_pdu f)) = fin_flag (tcp_h (f_pdu ?f))"
    "ack_flag (tcp_h (f_pdu f))" "ack_num (tcp_h (f_pdu f)) = seq_num (tcp_h (f_pdu ?f)) + 1"
    "server_index (f_con f) = server_index (f_con ?f)" "f_producer f = f_producer ?f"
    "ip_dst (ip_h (f_pdu f)) = ip_src (ip_h (f_pdu ?f))" "dst_port (tcp_h (f_pdu f)) = src_port (tcp_h (f_pdu ?f))"
    using step_fin_unbound [OF env ord fr0 pre(1) stage_frame(2) [OF st] p(3,2) pre(2), of clk] by (elim exE conjE)
  obtain W' where W': "delayed_binding_closure X cfg clk msg p W = Some (Inr (W', f_pdu f, 1))" "carried X cfg ent q f W W'"
    using client_closure(1) [OF stageD(1) [OF st] ok wh stageD(2) [OF st] p(1,2) f(1-3), of msg] f(5) by auto
  have "stage X cfg ent s q V W' (FinWait1, LastAck)" using stage_carried [OF st W'(2)] f(4) by simp
  moreover have "con_at (p_cm W') q = f_con f" "p_producer W' = f_producer f" using W'(2) by (simp_all add: carried_def)
  moreover have "(ip_src (ip_h p), src_port (tcp_h p)) = s" using p(1) by (simp add: from_client_def)
  ultimately show ?thesis using W'(1) f(6-14) off p(3) by (intro exI [of _ W'] exI [of _ "f_pdu f"]) (simp add: con_server_index_def)
qed

lemma stage_server_fin:
  assumes st: "stage X cfg ent s q V W (FinWait1, Established)" and env: "env_ok X cfg" and size: "payload_size_ok X"
    and ord: "state_order_ok X" and wh: "wheel_ok X ent"
    and p: "from_server X cfg q p" "fin_flag (tcp_h p)" "ack_flag (tcp_h p)" "\<not> syn_flag (tcp_h p)"
      "ack_num (tcp_h p) = seqn_fin_p2s (con_at (p_cm W) q) + 1"
  shows "\<exists>W' p'. delayed_binding_closure X cfg clk msg p W = Some (Inr (W', p', 1)) \<and>
    stage X cfg ent s q V W' (FinWait1, LastAck) \<and> p_producer W' = p_producer W \<and> fin_flag (tcp_h p') \<and>
    ackn_p2c (con_at (p_cm W') q) = ack_num (tcp_h p') \<and>
    seqn (con_at (p_cm W') q) = seq_num (tcp_h p') + of_nat (tcp_payload_size X (offloaded X cfg p)) + 1 \<and>
    con_server_index (con_at (p_cm W') q) = con_server_index (con_at (p_cm W) q) \<and> (ip_dst (ip_h p'), dst_port (tcp_h p')) = s"
proof -
  have ok: "net_ok X" using env by (simp add: env_ok_def)
  let ?f = "borrowed X cfg q p W"
  have fr0: "frame_ok cfg q s (wheel_slot_and_index (con_at (p_cm W) q)) (p_wheel W) ?f" by (rule stage_frame [OF st])
  have pre: "f_release ?f = None" "\<not> f_unexpected ?f" "tcp_h p = tcp_h (f_pdu ?f)"
    "ack_num (tcp_h p) = seqn_fin_p2s (f_con ?f) + 1" using p ok by simp_all
  obtain f where f: "server_step X cfg clk (tcp_h p) ?f = Inr f"
    "frame_ok cfg q s (wheel_slot_and_index (con_at (p_cm W) q)) (p_wheel W) f" "f_release f = None"
    "sides_of X (f_con f) = (FinWait1, LastAck)" "f_group f = 1" "ackn_p2c (f_con f) = ack_num (tcp_h (f_pdu f))"
    "seqn (f_con f) = seq_num (tcp_h (f_pdu f)) + of_nat (tcp_payload_size X (f_pdu ?f)) + 1" "fin_flag (tcp_h (f_pdu f))"
    "f_producer f = f_producer ?f" "server_index (f_con f) = server_index (f_con ?f)"
    "ip_dst (ip_h (f_pdu f)) = fst s" "dst_port (tcp_h (f_pdu f)) = snd s"
    using step_server_fin_ack [OF env size ord fr0 pre(1,2) stage_frame(2) [OF st] pre(3) p(2-4) pre(4), of clk] by (elim exE conjE)
  obtain W' where W': "delayed_binding_closure X cfg clk msg p W = Some (Inr (W', f_pdu f, 1))" "carried X cfg ent q f W W'"
    using server_closure [OF stageD(1) [OF st] ok wh stageD(2) [OF st] p(1) f(1-3), of msg] f(5) by auto
  have "stage X cfg ent s q V W' (FinWait1, LastAck)" using stage_carried [OF st W'(2)] f(4) by simp
  moreover have "con_at (p_cm W') q = f_con f" "p_producer W' = f_producer f" using W'(2) by (simp_all add: carried_def)
  ultimately show ?thesis using W'(1) f(6-12) by (intro exI [of _ W'] exI [of _ "f_pdu f"]) (simp add: con_server_index_def)
qed

lemma stage_last_ack:
  assumes st: "stage X cfg ent s q V W (FinWait1, LastAck)" and env: "env_ok X cfg" and ord: "state_order_ok X" and wh: "wheel_ok X ent"
    and new: "sock2port (p_cm V) s = None"
    and p: "from_client X cfg s p" "\<not> syn_flag (tcp_h p)" "ack_flag (tcp_h p)" "\<not> fin_flag (tcp_h p)" "\<not> rst_flag (tcp_h p)"
      "ackn_p2c (con_at (p_cm W) q) \<le> seq_num (tcp_h p)" "ack_num (tcp_h p) = seqn (con_at (p_cm W) q)"
  shows "\<exists>W' p'. delayed_binding_closure X cfg clk msg p W = Some (Inr (W', p', 1)) \<and>
    pipe_inv X cfg ent W' \<and> \<not> in_use (con_at (p_cm W') q) \<and> sock2port (p_cm W') = sock2port (p_cm V) \<and>
    free_ports (p_cm W') = tl (free_ports (p_cm V)) @ [q] \<and> (\<forall>r. r \<noteq> q \<longrightarrow> con_at (p_cm W') r = con_at (p_cm V) r) \<and>
    p_producer W' = p_producer W \<and> ip_dst (ip_h p') = l_ip (servers cfg ! con_server_index (con_at (p_cm W) q)) \<and>
    dst_port (tcp_h p') = l_port (servers cfg ! con_server_index (con_at (p_cm W) q))"
proof -
  have ok: "net_ok X" using env by (simp add: env_ok_def)
  let ?f = "borrowed X cfg q p W"
  have fr0: "frame_ok cfg q s (wheel_slot_and_index (con_at (p_cm W) q)) (p_wheel W) ?f" by (rule stage_frame [OF st])
  have pre: "ackn_p2c (f_con ?f) \<le> seq_num (tcp_h p)" "ack_num (tcp_h p) = seqn (f_con ?f)" using p by simp_all
  obtain f where f: "client_step X cfg clk (tcp_h p) ?f = Inr f" "f_group f = 1" "f_release f = Some q"
    "frame_ok cfg q s (wheel_slot_and_index (con_at (p_cm W) q)) (p_wheel W) f" "f_producer f = f_producer ?f"
    "ip_dst (ip_h (f_pdu f)) = l_ip (servers cfg ! con_server_index (f_con ?f))"
    "dst_port (tcp_h (f_pdu f)) = l_port (servers cfg ! con_server_index (f_con ?f))"
    using step_final_ack [OF env ord fr0 stage_frame(2) [OF st] p(3,2,4,5) pre, of clk] by (elim exE conjE)
  obtain W' where W': "delayed_binding_closure X cfg clk msg p W = Some (Inr (W', f_pdu f, 1))" "finished X cfg ent s q f W W'"
    using client_closure(2) [OF stageD(1) [OF st] ok wh stageD(2) [OF st] p(1,2) f(1,4,3), of msg] f(2) by auto
  show ?thesis using W'(1) stage_finished [OF st W'(2) new] f(5-7) by (intro exI [of _ W'] exI [of _ "f_pdu f"]) simp
qed

section \<open>Data\<close>

text \<open>Between the two closes every packet without SYN, FIN or RST is forwarded, in both directions.\<close>

definition data_packet ::
  "('cr, 'st, 'w, 'm, 'z) net_lib_scheme \<Rightarrow> 'm pcfg \<Rightarrow> sock \<Rightarrow> u16 \<Rightarrow> 'm pdu_scheme \<Rightarrow> bool" where
  "data_packet X cfg s q p \<longleftrightarrow> (from_client X cfg s p \<or> from_server X cfg q p) \<and>
     \<not> syn_flag (tcp_h p) \<and> \<not> fin_flag (tcp_h p) \<and> \<not> rst_flag (tcp_h p)"

lemma stage_client_data:
  assumes st: "stage X cfg ent s q V W (Established, Established)" and env: "env_ok X cfg" and ord: "state_order_ok X" and wh: "wheel_ok X ent"
    and p: "from_client X cfg s p" "\<not> syn_flag (tcp_h p)" "\<not> fin_flag (tcp_h p)" "\<not> rst_flag (tcp_h p)"
  shows "\<exists>W' p'. delayed_binding_closure X cfg clk msg p W = Some (Inr (W', p', 1)) \<and>
    stage X cfg ent s q V W' (Established, Established) \<and> p_producer W' = p_producer W \<and>
    client_to_server X (me cfg) (servers cfg) (f_process_payload_c_s cfg) (offloaded X cfg p) (con_at (p_cm W) q) =
      Inr (p', con_at (p_cm W') q)"
proof -
  have ok: "net_ok X" "process_keeps_states cfg" using env callbacks_keep_states(2) by (auto simp: env_ok_def)
  let ?f = "borrowed X cfg q p W"
  have fr0: "frame_ok cfg q s (wheel_slot_and_index (con_at (p_cm W) q)) (p_wheel W) ?f" by (rule stage_frame [OF st])
  have old: "con_client_state X (con_at (p_cm W) q) = Established" "con_server_state X (con_at (p_cm W) q) = Established"
    using states_of_sides [OF stageD(3) [OF st]] by simp_all
  obtain p' c' where fw: "client_to_server X (me cfg) (servers cfg) (f_process_payload_c_s cfg) (f_pdu ?f) (f_con ?f) = Inr (p', c')"
    "frame_ok cfg q s (wheel_slot_and_index (con_at (p_cm W) q)) (p_wheel W) (?f\<lparr>f_pdu := p', f_con := c'\<rparr>)"
    using client_to_server_keeps [OF env fr0] by blast
  define f where "f = ?f\<lparr>f_pdu := p', f_con := c', f_group := 1\<rparr>"
  have "client_tcp X cfg clk (tcp_h p) Established Established ?f = Inr ?f"
    using p by (simp add: client_tcp_def state_order_simps ord)
  then have run: "client_step X cfg clk (tcp_h p) ?f = Inr f"
    using fw(1) by (simp add: client_step_def old release_if_closed_def state_order_simps ord Let_def f_def)
  have fr: "frame_ok cfg q s (wheel_slot_and_index (con_at (p_cm W) q)) (p_wheel W) f"
    using fw(2) by (simp add: f_def frame_ok_def)
  have sel: "f_release f = None" "f_group f = 1" "f_producer f = p_producer W" "f_pdu f = p'" "f_con f = c'" by (simp_all add: f_def)
  have sd: "sides_of X c' = (Established, Established)"
    using client_to_server_sides [OF ok(2) fw(1)] stage_frame(2) [OF st] by simp
  obtain W' where W': "delayed_binding_closure X cfg clk msg p W = Some (Inr (W', p', 1))" "carried X cfg ent q f W W'"
    using client_closure(1) [OF stageD(1) [OF st] ok(1) wh stageD(2) [OF st] p(1,2) run fr sel(1), of msg] sel(2,4) by auto
  have "stage X cfg ent s q V W' (Established, Established)" using stage_carried [OF st W'(2)] sd sel(5) by simp
  moreover have "con_at (p_cm W') q = c'" "p_producer W' = p_producer W" using W'(2) sel(3,5) by (simp_all add: carried_def)
  ultimately show ?thesis using W'(1) fw(1) by (intro exI [of _ W'] exI [of _ p']) simp
qed

lemma stage_server_data:
  assumes st: "stage X cfg ent s q V W (Established, Established)" and env: "env_ok X cfg" and ord: "state_order_ok X" and wh: "wheel_ok X ent"
    and p: "from_server X cfg q p" "\<not> syn_flag (tcp_h p)" "\<not> fin_flag (tcp_h p)"
  shows "\<exists>W' p'. delayed_binding_closure X cfg clk msg p W = Some (Inr (W', p', 1)) \<and>
    stage X cfg ent s q V W' (Established, Established) \<and> p_producer W' = p_producer W \<and>
    server_to_client X (me cfg) (offloaded X cfg p) (con_at (p_cm W) q) = Inr (p', con_at (p_cm W') q)"
proof -
  have ok: "net_ok X" using env by (simp add: env_ok_def)
  let ?f = "borrowed X cfg q p W"
  have fr0: "frame_ok cfg q s (wheel_slot_and_index (con_at (p_cm W) q)) (p_wheel W) ?f" by (rule stage_frame [OF st])
  have old: "con_client_state X (con_at (p_cm W) q) = Established" "con_server_state X (con_at (p_cm W) q) = Established"
    using states_of_sides [OF stageD(3) [OF st]] by simp_all
  obtain p' c' where fw: "server_to_client X (me cfg) (f_pdu ?f) (f_con ?f) = Inr (p', c')"
    "frame_ok cfg q s (wheel_slot_and_index (con_at (p_cm W) q)) (p_wheel W) (?f\<lparr>f_pdu := p', f_con := c'\<rparr>)"
    using server_to_client_keeps [OF env fr0] by blast
  define f where "f = ?f\<lparr>f_unexpected := False, f_pdu := p', f_con := c', f_group := 1\<rparr>"
  have "server_tcp X clk (tcp_h p) Established Established ?f = Inr (?f\<lparr>f_unexpected := True\<rparr>)"
    using p by (simp add: server_tcp_def state_order_simps ord)
  then have run: "server_step X cfg clk (tcp_h p) ?f = Inr f"
    using fw(1) by (simp add: server_step_def old release_if_closed_def state_order_simps ord Let_def f_def)
  have fr: "frame_ok cfg q s (wheel_slot_and_index (con_at (p_cm W) q)) (p_wheel W) f"
    using fw(2) by (simp add: f_def frame_ok_def)
  have sel: "f_release f = None" "f_group f = 1" "f_producer f = p_producer W" "f_pdu f = p'" "f_con f = c'" by (simp_all add: f_def)
  have sd: "sides_of X c' = (Established, Established)"
    using server_to_client_sides [OF fw(1)] stage_frame(2) [OF st] by simp
  obtain W' where W': "delayed_binding_closure X cfg clk msg p W = Some (Inr (W', p', 1))" "carried X cfg ent q f W W'"
    using server_closure [OF stageD(1) [OF st] ok wh stageD(2) [OF st] p(1) run fr sel(1), of msg] sel(2,4) by auto
  have "stage X cfg ent s q V W' (Established, Established)" using stage_carried [OF st W'(2)] sd sel(5) by simp
  moreover have "con_at (p_cm W') q = c'" "p_producer W' = p_producer W" using W'(2) sel(3,5) by (simp_all add: carried_def)
  ultimately show ?thesis using W'(1) fw(1) by (intro exI [of _ W'] exI [of _ p']) simp
qed

text \<open>
  What a connection translates by, and what the translation of a packet is; the two directions use
  the same numbers with opposite signs.
\<close>

definition offsets :: "'m conn \<Rightarrow> u32 \<times> u32 \<times> u8" where
  "offsets c = (c_seqn c, c2s_inserted_bytes c, server_index c)"

fun translated :: "'m pcfg \<Rightarrow> sock \<Rightarrow> u16 \<Rightarrow> u32 \<times> u32 \<times> u8 \<Rightarrow> 'm pdu_scheme \<Rightarrow> 'm pdu_scheme \<Rightarrow> bool" where
  "translated cfg s q (d, n, i) p p' \<longleftrightarrow>
     (if dst_port (tcp_h p) = l_port (me_l234 (me cfg))
      then ip_dst (ip_h p') = l_ip (servers cfg ! unat i) \<and>
        tcp_h p' = (tcp_h p)\<lparr>src_port := q, dst_port := l_port (servers cfg ! unat i),
          seq_num := seq_num (tcp_h p) + n, ack_num := ack_num (tcp_h p) - d\<rparr>
      else ip_dst (ip_h p') = fst s \<and>
        tcp_h p' = (tcp_h p)\<lparr>src_port := l_port (me_l234 (me cfg)), dst_port := snd s,
          seq_num := seq_num (tcp_h p) + d, ack_num := ack_num (tcp_h p) - n\<rparr>)"

text \<open>
  What the client has been told to have arrived: the acknowledgement of some packet it was sent. The
  callback for payload must leave that number alone.
\<close>

definition process_keeps_ackn :: "'m pcfg \<Rightarrow> bool" where
  "process_keeps_ackn cfg \<longleftrightarrow> (\<forall>c bs n. ackn_p2c (fst (f_process_payload_c_s cfg c bs n)) = ackn_p2c c)"

definition sent_to :: "sock \<Rightarrow> 'm pdu_scheme \<Rightarrow> bool" where
  "sent_to s p \<longleftrightarrow> (ip_dst (ip_h p), dst_port (tcp_h p)) = s"

definition acked :: "sock \<Rightarrow> ('m pdu_scheme \<times> nat) list \<Rightarrow> 'm conn \<Rightarrow> bool" where
  "acked s outs c \<longleftrightarrow> (\<exists>x \<in> set outs. sent_to s (fst x) \<and> ack_num (tcp_h (fst x)) = ackn_p2c c)"

lemma client_to_server_ackn:
  assumes "process_keeps_ackn cfg" and "client_to_server X m srvs (f_process_payload_c_s cfg) p c = Inr (p', c')"
  shows "ackn_p2c c' = ackn_p2c c"
proof -
  define d where "d = f_process_payload_c_s cfg c (payload p) (get_tailroom X p)"
  have "ackn_p2c (fst d) = ackn_p2c c" using assms(1) by (simp add: process_keeps_ackn_def d_def)
  then show ?thesis
    using assms(2) by (auto simp: client_to_server_def Let_def d_def [symmetric] bindR_eq_Inr split: prod.splits if_splits)
qed

lemma client_to_server_offsets:
  assumes "process_ok cfg" and "client_to_server X m srvs (f_process_payload_c_s cfg) p c = Inr (p', c')"
  shows "offsets c' = offsets c"
proof -
  define d where "d = f_process_payload_c_s cfg c (payload p) (get_tailroom X p)"
  have "offsets (fst d) = offsets c" using assms(1) by (simp add: process_ok_def offsets_def d_def Let_def)
  then show ?thesis
    using assms(2) by (auto simp: client_to_server_def Let_def d_def [symmetric] bindR_eq_Inr offsets_def split: prod.splits if_splits)
qed

lemma server_to_client_offsets:
  "server_to_client X m p c = Inr (p', c') \<Longrightarrow> offsets c' = offsets c"
  by (auto simp: server_to_client_def Let_def bindR_eq_Inr offsets_def split: if_splits)

lemma stage_data:
  assumes st: "stage X cfg ent s q V W (Established, Established)" and env: "env_ok X cfg" and ord: "state_order_ok X" and wh: "wheel_ok X ent"
    and p: "data_packet X cfg s q p"
  shows "\<exists>W' p'. delayed_binding_closure X cfg clk msg p W = Some (Inr (W', p', 1)) \<and>
    stage X cfg ent s q V W' (Established, Established) \<and> p_producer W' = p_producer W \<and>
    offsets (con_at (p_cm W') q) = offsets (con_at (p_cm W) q) \<and> translated cfg s q (offsets (con_at (p_cm W) q)) p p' \<and>
    (process_keeps_ackn cfg \<longrightarrow> acked s outs (con_at (p_cm W) q) \<longrightarrow> acked s (outs @ [(p', 1)]) (con_at (p_cm W') q))"
proof -
  have ok: "net_ok X" "process_ok cfg" using env by (simp_all add: env_ok_def)
  note off = offloaded_sel [OF ok(1), of cfg p]
  let ?c = "con_at (p_cm W) q"
  have con: "proxy_port ?c = q" "con_sock ?c = Some s" using frame_okD(2,3) [OF stage_frame(1) [OF st]] by simp_all
  consider "from_client X cfg s p" | "from_server X cfg q p" using p by (auto simp: data_packet_def)
  then show ?thesis
  proof cases
    case 1
    obtain W' p' where r: "delayed_binding_closure X cfg clk msg p W = Some (Inr (W', p', 1))"
      "stage X cfg ent s q V W' (Established, Established)" "p_producer W' = p_producer W"
      "client_to_server X (me cfg) (servers cfg) (f_process_payload_c_s cfg) (offloaded X cfg p) ?c = Inr (p', con_at (p_cm W') q)"
      using stage_client_data [OF st env ord wh 1, of clk msg] p by (auto simp: data_packet_def)
    have keep: "tcp_payload_size X (offloaded X cfg p) = 0 \<or>
      (let d = fst (f_process_payload_c_s cfg ?c (payload (offloaded X cfg p)) (get_tailroom X (offloaded X cfg p))) in
       c_seqn d = c_seqn ?c \<and> c2s_inserted_bytes d = c2s_inserted_bytes ?c \<and> server_index d = server_index ?c \<and> proxy_port d = proxy_port ?c)"
      using ok(2) by (simp add: process_ok_def Let_def)
    have "translated cfg s q (offsets ?c) p p'"
      using client_to_server_packet(2,4) [OF ok(1) r(4) keep] off con(1) 1
      by (simp add: offsets_def from_client_def con_server_index_def)
    moreover have "acked s (outs @ [(p', 1)]) (con_at (p_cm W') q)" if "process_keeps_ackn cfg" "acked s outs ?c"
      using client_to_server_ackn [OF that(1) r(4)] that(2) by (auto simp: acked_def)
    ultimately show ?thesis using r(1-3) client_to_server_offsets [OF ok(2) r(4)] by blast
  next
    case 2
    obtain W' p' where r: "delayed_binding_closure X cfg clk msg p W = Some (Inr (W', p', 1))"
      "stage X cfg ent s q V W' (Established, Established)" "p_producer W' = p_producer W"
      "server_to_client X (me cfg) (offloaded X cfg p) ?c = Inr (p', con_at (p_cm W') q)"
      using stage_server_data [OF st env ord wh 2, of clk msg] p by (auto simp: data_packet_def)
    note pk = server_to_client_packet [OF ok(1) r(4)]
    have s: "s = (ip_dst (ip_h p'), dst_port (tcp_h p'))" using pk(1) con(2) by simp
    have "dst_port (tcp_h p) \<noteq> l_port (me_l234 (me cfg))" using 2 unfolding from_server_def by blast
    then have "translated cfg s q (offsets ?c) p p'"
      using pk(5) unfolding off s by (simp add: offsets_def)
    moreover have "acked s (outs @ [(p', 1)]) (con_at (p_cm W') q)"
    proof -
      have "ack_num (tcp_h p') = ackn_p2c (con_at (p_cm W') q)" by (subst pk(5)) (simp add: pk(7))
      then show ?thesis by (simp add: acked_def sent_to_def s)
    qed
    ultimately show ?thesis using r(1-3) server_to_client_offsets [OF r(4)] by blast
  qed
qed

lemma play_data:
  assumes env: "env_ok X cfg" and ord: "state_order_ok X" and wh: "wheel_ok X ent"
    and "stage X cfg ent s q V W (Established, Established)" and "\<forall>b \<in> set bs. \<forall>outs. data_packet X cfg s q (b outs)"
  shows "\<exists>ps W'. play X cfg clks bs outs W = Some (Inr (outs @ map (\<lambda>p. (p, 1)) ps, W')) \<and> length ps = length bs \<and>
    stage X cfg ent s q V W' (Established, Established) \<and> p_producer W' = p_producer W \<and>
    offsets (con_at (p_cm W') q) = offsets (con_at (p_cm W) q) \<and>
    (process_keeps_ackn cfg \<longrightarrow> acked s outs (con_at (p_cm W) q) \<longrightarrow> acked s (outs @ map (\<lambda>p. (p, 1)) ps) (con_at (p_cm W') q)) \<and>
    (\<forall>k < length bs. translated cfg s q (offsets (con_at (p_cm W) q)) ((bs ! k) (outs @ map (\<lambda>p. (p, 1)) (take k ps))) (ps ! k))"
  using assms(4,5)
proof (induction bs arbitrary: outs W)
  case Nil
  then show ?case by (intro exI [of _ "[]"]) simp
next
  case (Cons b bs)
  have d: "data_packet X cfg s q (b outs)" using Cons.prems(2) by simp
  let ?o = "offsets (con_at (p_cm W) q)"
  obtain W' p' where W': "delayed_binding_closure X cfg (clks (length outs)) None (b outs) W = Some (Inr (W', p', 1))"
    "stage X cfg ent s q V W' (Established, Established)" "p_producer W' = p_producer W"
    "offsets (con_at (p_cm W') q) = ?o" "translated cfg s q ?o (b outs) p'"
    "process_keeps_ackn cfg \<longrightarrow> acked s outs (con_at (p_cm W) q) \<longrightarrow> acked s (outs @ [(p', 1)]) (con_at (p_cm W') q)"
    using stage_data [OF Cons.prems(1) env ord wh d, of "clks (length outs)" None outs] by blast
  have "\<forall>c \<in> set bs. \<forall>outs. data_packet X cfg s q (c outs)" using Cons.prems(2) by simp
  from Cons.IH [OF W'(2) this, of "outs @ [(p', 1)]"] obtain ps W'' where
    ps: "play X cfg clks bs (outs @ [(p', 1)]) W' = Some (Inr ((outs @ [(p', 1)]) @ map (\<lambda>p. (p, 1)) ps, W''))" "length ps = length bs"
    "stage X cfg ent s q V W'' (Established, Established)" "p_producer W'' = p_producer W'"
    "\<forall>k < length bs. translated cfg s q ?o ((bs ! k) ((outs @ [(p', 1)]) @ map (\<lambda>p. (p, 1)) (take k ps))) (ps ! k)"
    "offsets (con_at (p_cm W'') q) = ?o"
    "process_keeps_ackn cfg \<longrightarrow> acked s (outs @ [(p', 1)]) (con_at (p_cm W') q) \<longrightarrow>
      acked s ((outs @ [(p', 1)]) @ map (\<lambda>p. (p, 1)) ps) (con_at (p_cm W'') q)"
    unfolding W'(4) by blast
  have "\<forall>k < length (b # bs). translated cfg s q ?o (((b # bs) ! k) (outs @ map (\<lambda>p. (p, 1)) (take k (p' # ps)))) ((p' # ps) ! k)"
    using ps(5) W'(5) by (auto simp: less_Suc_eq_0_disj simp del: translated.simps)
  then show ?case using W'(1,3,6) ps(1-4,6,7) by (intro exI [of _ "p' # ps"] exI [of _ W'']) (simp del: translated.simps)
qed

end
