(* ===== verification/Session_Phases.thy ===== *)
theory Session_Phases
  imports Session_Run
begin

text \<open>
  The two ends of a session, each a run of the packet closure: the opening from the SYN of the client
  to the SYN-ACK of the server, and the close from the FIN of the client to its last ACK. What lies
  between them is data.
\<close>

definition sent_to_server :: "'m pcfg \<Rightarrow> nat \<Rightarrow> 'm pdu_scheme \<Rightarrow> bool" where
  "sent_to_server cfg i p \<longleftrightarrow> ip_dst (ip_h p) = l_ip (servers cfg ! i) \<and> dst_port (tcp_h p) = l_port (servers cfg ! i)"

section \<open>Opening\<close>

text \<open>
  The four packets of an opening, what the proxy hands on for them (\<open>p0\<close> to \<open>p3\<close>) and what it sends on its
  own (\<open>a\<close> and \<open>d\<close>): \<open>p0\<close> is the SYN-ACK to the client, \<open>p2\<close> the SYN to the server, \<open>a\<close> and \<open>d\<close> the ACK of the
  handshake with the server and the payload that was held back.
\<close>

definition session_open where
  "session_open X cfg ent clks s q syn ack pay synack W p0 p1 p2 p3 a d W' \<longleftrightarrow>
     play X cfg clks [\<lambda>_. syn, ack, pay, synack] [] W = Some (Inr ([(p0, 1), (p1, 0), (p2, 1), (p3, 0)], W')) \<and>
     stage X cfg ent s q W W' (Established, Established) \<and>
     acked s [(p0, 1), (p1, 0), (p2, 1), (p3, 0)] (con_at (p_cm W') q) \<and>
     syn_flag (tcp_h p0) \<and> ack_flag (tcp_h p0) \<and> ack_num (tcp_h p0) = seq_num (tcp_h syn) + 1 \<and> sent_to s p0 \<and>
     con_server_index (con_at (p_cm W') q) < length (servers cfg) \<and>
     sent_to_server cfg (con_server_index (con_at (p_cm W') q)) p2 \<and> src_port (tcp_h p2) = q \<and> syn_flag (tcp_h p2) \<and>
     p_producer W' = p_producer W @ [a, d] \<and> seq_num (tcp_h a) = seq_num (tcp_h p2) + 1 \<and>
     ack_num (tcp_h a) = seq_num (tcp_h (synack [(p0, 1), (p1, 0), (p2, 1)])) + 1 \<and> tcp_h d = (tcp_h a)\<lparr>psh_flag := True\<rparr>"

lemma session_opens:
  assumes inv: "pipe_inv X cfg ent W" and env: "env_ok X cfg" and ord: "state_order_ok X"
    and wh: "wheel_ok X ent" and new: "sock2port (p_cm W) s = None" and free: "free_ports (p_cm W) = q # rest"
    and room: "wheel_load ent (p_wheel W) < 2 ^ 16" and addr: "fst s \<noteq> 0"
    and syn: "from_client X cfg s syn" "syn_flag (tcp_h syn)"
    and ack: "\<And>outs. from_client X cfg s (ack outs) \<and> ack_flag (tcp_h (ack outs)) \<and> \<not> syn_flag (tcp_h (ack outs)) \<and>
      seq_num (tcp_h (ack outs)) = seq_num (tcp_h syn) + 1"
    and pay: "\<And>outs. from_client X cfg s (pay outs) \<and> \<not> syn_flag (tcp_h (pay outs)) \<and> \<not> fin_flag (tcp_h (pay outs)) \<and>
      \<not> rst_flag (tcp_h (pay outs)) \<and> seq_num (tcp_h (pay outs)) = seq_num (tcp_h syn) + 1 \<and> refcnt (pay outs) = 1 \<and>
      (\<forall>c. selectable cfg c (offloaded X cfg (pay outs)))"
    and synack: "\<And>outs. from_server X cfg q (synack outs) \<and> syn_flag (tcp_h (synack outs)) \<and> ack_flag (tcp_h (synack outs))"
  shows "\<exists>p0 p1 p2 p3 a d W'. session_open X cfg ent clks s q syn ack pay synack W p0 p1 p2 p3 a d W'"
proof -
  note std = env ord wh
  obtain W0 p0 where r0: "delayed_binding_closure X cfg (clks 0) None syn W = Some (Inr (W0, p0, 1))"
    "stage X cfg ent s q W W0 (SynSent, Listen)" "ackn_p2c (con_at (p_cm W0) q) = seq_num (tcp_h syn) + 1"
    "p_producer W0 = p_producer W" "syn_flag (tcp_h p0)" "ack_flag (tcp_h p0)" "ack_num (tcp_h p0) = seq_num (tcp_h syn) + 1"
    "(ip_dst (ip_h p0), dst_port (tcp_h p0)) = s"
    using stage_syn [OF inv std syn addr room new free, of "clks 0" None] by blast
  let ?o0 = "[(p0, 1 :: nat)]"
  obtain W1 p1 where r1: "delayed_binding_closure X cfg (clks 1) None (ack ?o0) W0 = Some (Inr (W1, p1, 0))"
    "stage X cfg ent s q W W1 (Established, Listen)" "ackn_p2c (con_at (p_cm W1) q) = seq_num (tcp_h syn) + 1"
    "p_producer W1 = p_producer W"
    using stage_ack [OF r0(2) std, of "ack ?o0" "clks 1" None] ack [of ?o0] r0(3,4) by auto
  let ?o1 = "?o0 @ [(p1, 0)]"
  obtain W2 p2 i b where r2: "delayed_binding_closure X cfg (clks 2) None (pay ?o1) W1 = Some (Inr (W2, p2, 1))"
    "stage X cfg ent s q W W2 (Established, SynReceived)" "ackn_p2c (con_at (p_cm W2) q) = seq_num (tcp_h syn) + 1"
    "p_producer W2 = p_producer W" "i < length (servers cfg)" "ip_dst (ip_h p2) = l_ip (servers cfg ! i)"
    "dst_port (tcp_h p2) = l_port (servers cfg ! i)" "src_port (tcp_h p2) = q" "syn_flag (tcp_h p2)"
    "payload_packet (con_at (p_cm W2) q) = Some b" "seq_num (tcp_h p2) = seqn (con_at (p_cm W2) q)"
    "con_server_index (con_at (p_cm W2) q) = i"
    using stage_payload [OF r1(2) std, of "pay ?o1" "clks 2" None] pay [of ?o1] r1(3,4) by auto
  let ?o2 = "?o1 @ [(p2, 1)]"
  obtain W3 p3 a d where r3: "delayed_binding_closure X cfg (clks 3) None (synack ?o2) W2 = Some (Inr (W3, p3, 0))"
    "stage X cfg ent s q W W3 (Established, Established)" "ackn_p2c (con_at (p_cm W3) q) = seq_num (tcp_h syn) + 1"
    "p_producer W3 = p_producer W @ [a, d]" "seq_num (tcp_h a) = seq_num (tcp_h p2) + 1"
    "ack_num (tcp_h a) = seq_num (tcp_h (synack ?o2)) + 1" "tcp_h d = (tcp_h a)\<lparr>psh_flag := True\<rparr>"
    "con_server_index (con_at (p_cm W3) q) = i"
    using stage_synack [OF r2(2) std _ _ _ r2(10), of "synack ?o2" "clks 3" None] synack [of ?o2] r2(3,4,11,12) by auto
  have "play X cfg clks [\<lambda>_. syn, ack, pay, synack] [] W = play X cfg clks [ack, pay, synack] ?o0 W0"
    using play_Cons [where b = "\<lambda>_. syn" and outs = "[]" and clks = clks, OF r0(1)] by simp
  also have "\<dots> = play X cfg clks [pay, synack] ?o1 W1" by (rule play_Cons, rule r1(1), simp)
  also have "\<dots> = play X cfg clks [synack] ?o2 W2" by (rule play_Cons, rule r2(1), simp)
  also have "\<dots> = play X cfg clks [] (?o2 @ [(p3, 0)]) W3" by (rule play_Cons, rule r3(1), simp)
  finally have run: "play X cfg clks [\<lambda>_. syn, ack, pay, synack] [] W = Some (Inr ([(p0, 1), (p1, 0), (p2, 1), (p3, 0)], W3))" by simp
  have "acked s [(p0, 1), (p1, 0), (p2, 1), (p3, 0)] (con_at (p_cm W3) q)"
    using r0(7,8) r3(3) by (simp add: acked_def sent_to_def)
  then have "session_open X cfg ent clks s q syn ack pay synack W p0 p1 p2 p3 a d W3"
    using run r0 r2 r3 by (simp add: session_open_def sent_to_def sent_to_server_def del: play.simps)
  then show ?thesis by blast
qed

section \<open>Close\<close>

text \<open>
  The three packets of a close begun by the client, after \<open>outs\<close> was sent: \<open>p4\<close> and \<open>p6\<close> go to the server,
  \<open>p5\<close> to the client, and the pipeline is as \<open>V\<close> was, with the port at the end of the queue.
\<close>

definition session_closed where
  "session_closed X cfg ent clks s q fin sfin lack outs V W p4 p5 p6 W' \<longleftrightarrow>
     play X cfg clks [fin, sfin, lack] outs W = Some (Inr (outs @ [(p4, 1), (p5, 1), (p6, 1)], W')) \<and>
     fin_flag (tcp_h p4) \<and> sent_to_server cfg (con_server_index (con_at (p_cm W) q)) p4 \<and>
     fin_flag (tcp_h p5) \<and> sent_to s p5 \<and> sent_to_server cfg (con_server_index (con_at (p_cm W) q)) p6 \<and>
     pipe_inv X cfg ent W' \<and> sock2port (p_cm W') = sock2port (p_cm V) \<and>
     free_ports (p_cm W') = tl (free_ports (p_cm V)) @ [q] \<and> \<not> in_use (con_at (p_cm W') q) \<and>
     (\<forall>r. r \<noteq> q \<longrightarrow> con_at (p_cm W') r = con_at (p_cm V) r) \<and> p_producer W' = p_producer W"

lemma session_closes:
  assumes st: "stage X cfg ent s q V W (Established, Established)" and env: "env_ok X cfg" and size: "payload_size_ok X"
    and ord: "state_order_ok X" and wh: "wheel_ok X ent" and new: "sock2port (p_cm V) s = None"
    and ak: "acked s outs (con_at (p_cm W) q)"
    and fin: "\<And>outs. from_client X cfg s (fin outs) \<and> \<not> syn_flag (tcp_h (fin outs)) \<and> fin_flag (tcp_h (fin outs)) \<and>
      tcp_payload_size X (offloaded X cfg (fin outs)) = 0 \<and>
      (\<forall>x \<in> set outs. sent_to s (fst x) \<longrightarrow> ack_num (tcp_h (fst x)) \<le> seq_num (tcp_h (fin outs)))"
    and sfin: "\<And>outs. from_server X cfg q (sfin outs) \<and> fin_flag (tcp_h (sfin outs)) \<and> ack_flag (tcp_h (sfin outs)) \<and>
      \<not> syn_flag (tcp_h (sfin outs)) \<and> ack_num (tcp_h (sfin outs)) = seq_num (tcp_h (fst (last outs))) + 1"
    and lack: "\<And>outs. from_client X cfg s (lack outs) \<and> \<not> syn_flag (tcp_h (lack outs)) \<and> ack_flag (tcp_h (lack outs)) \<and>
      \<not> fin_flag (tcp_h (lack outs)) \<and> \<not> rst_flag (tcp_h (lack outs)) \<and>
      ack_num (tcp_h (fst (last outs))) \<le> seq_num (tcp_h (lack outs)) \<and>
      ack_num (tcp_h (lack outs)) = seq_num (tcp_h (fst (last outs))) +
        of_nat (tcp_payload_size X (offloaded X cfg (sfin (butlast outs)))) + 1"
  shows "\<exists>p4 p5 p6 W'. session_closed X cfg ent clks s q fin sfin lack outs V W p4 p5 p6 W'"
proof -
  note std = env ord wh
  let ?n = "length outs" and ?i = "con_server_index (con_at (p_cm W) q)"
  have "ackn_p2c (con_at (p_cm W) q) \<le> seq_num (tcp_h (fin outs))" using ak fin [of outs] by (auto simp: acked_def)
  then obtain W4 p4 where r4: "delayed_binding_closure X cfg (clks ?n) None (fin outs) W = Some (Inr (W4, p4, 1))"
    "stage X cfg ent s q V W4 (FinWait1, Established)" "p_producer W4 = p_producer W" "fin_flag (tcp_h p4)"
    "seqn_fin_p2s (con_at (p_cm W4) q) = seq_num (tcp_h p4)" "con_server_index (con_at (p_cm W4) q) = ?i" "sent_to_server cfg ?i p4"
    using stage_fin [OF st std, of "fin outs" "clks ?n" None] fin [of outs] by (auto simp: sent_to_server_def)
  let ?o4 = "outs @ [(p4, 1)]"
  obtain W5 p5 where r5: "delayed_binding_closure X cfg (clks (?n + 1)) None (sfin ?o4) W4 = Some (Inr (W5, p5, 1))"
    "stage X cfg ent s q V W5 (FinWait1, LastAck)" "p_producer W5 = p_producer W" "fin_flag (tcp_h p5)"
    "ackn_p2c (con_at (p_cm W5) q) = ack_num (tcp_h p5)"
    "seqn (con_at (p_cm W5) q) = seq_num (tcp_h p5) + of_nat (tcp_payload_size X (offloaded X cfg (sfin ?o4))) + 1"
    "con_server_index (con_at (p_cm W5) q) = ?i" "sent_to s p5"
    using stage_server_fin [OF r4(2) env size ord wh, of "sfin ?o4" "clks (?n + 1)" None] sfin [of ?o4] r4(3,5,6)
    by (auto simp: sent_to_def)
  let ?o5 = "?o4 @ [(p5, 1)]"
  have ack: "ackn_p2c (con_at (p_cm W5) q) \<le> seq_num (tcp_h (lack ?o5))" "ack_num (tcp_h (lack ?o5)) = seqn (con_at (p_cm W5) q)"
    using lack [of ?o5] r5(5,6) by (simp_all add: butlast_append)
  obtain W6 p6 where r6: "delayed_binding_closure X cfg (clks (?n + 2)) None (lack ?o5) W5 = Some (Inr (W6, p6, 1))"
    "pipe_inv X cfg ent W6" "\<not> in_use (con_at (p_cm W6) q)" "sock2port (p_cm W6) = sock2port (p_cm V)"
    "free_ports (p_cm W6) = tl (free_ports (p_cm V)) @ [q]" "\<forall>r. r \<noteq> q \<longrightarrow> con_at (p_cm W6) r = con_at (p_cm V) r"
    "p_producer W6 = p_producer W" "sent_to_server cfg ?i p6"
    using stage_last_ack [OF r5(2) std new _ _ _ _ _ ack, of "clks (?n + 2)" None] lack [of ?o5] r5(3,7)
    by (auto simp: sent_to_server_def)
  have "play X cfg clks [fin, sfin, lack] outs W = play X cfg clks [sfin, lack] ?o4 W4" by (rule play_Cons, rule r4(1), simp)
  also have "\<dots> = play X cfg clks [lack] ?o5 W5" by (rule play_Cons, rule r5(1), simp)
  also have "\<dots> = play X cfg clks [] (?o5 @ [(p6, 1)]) W6" by (rule play_Cons, rule r6(1), simp)
  finally have "play X cfg clks [fin, sfin, lack] outs W = Some (Inr (outs @ [(p4, 1), (p5, 1), (p6, 1)], W6))" by simp
  then have "session_closed X cfg ent clks s q fin sfin lack outs V W p4 p5 p6 W6"
    using r4 r5 r6 by (simp add: session_closed_def del: play.simps)
  then show ?thesis by blast
qed

end
