(* ===== verification/Correct_Session.thy ===== *)
theory Correct_Session
  imports Witness_Library Session_Phases
begin

text \<open>
  Whole sessions through the packet closure: a client that follows TCP is connected to a server that
  does, and when both have closed, the pipeline is as it was before.
\<close>

section \<open>A session from SYN to the last ACK\<close>

text \<open>
  C7. A whole session through a pipeline without detailed records: whatever the clocks read, a client
  that opens a connection, sends a first payload, exchanges any number of packets with the server in
  any order and closes, and a server that accepts and closes, where each packet may depend on all
  packets the proxy has sent so far, are served without a panic. The FIN of the client carries no
  payload and its number has not wrapped around behind what was acknowledged: what happens otherwise
  is the subject of \<open>wrapped_fin_not_seen\<close> and \<open>fin_with_payload_not_acked\<close>. Every packet goes where it must go: the SYN is answered, the SYN of the
  proxy goes to one of the servers, its answer is followed by the ACK and the saved payload with
  consecutive numbers, all data is translated by the same numbers, and the close is forwarded in both
  directions, to this server and this client. At the end the client is forgotten, its port is at the
  end of the queue of free ports, and no other connection has changed.
\<close>

theorem session_served:
  assumes inv: "pipe_inv X cfg ent W" and env: "env_ok X cfg" and size: "payload_size_ok X" and ord: "state_order_ok X"
    and keep: "process_keeps_ackn cfg"
    and wh: "wheel_ok X ent" and new: "sock2port (p_cm W) s = None" and free: "free_ports (p_cm W) = q # rest"
    and room: "wheel_load ent (p_wheel W) < 2 ^ 16" and addr: "fst s \<noteq> 0"
    and syn: "from_client X cfg s syn" "syn_flag (tcp_h syn)"
    and ack: "\<And>outs. from_client X cfg s (ack outs) \<and> ack_flag (tcp_h (ack outs)) \<and> \<not> syn_flag (tcp_h (ack outs)) \<and>
      seq_num (tcp_h (ack outs)) = seq_num (tcp_h syn) + 1"
    and pay: "\<And>outs. from_client X cfg s (pay outs) \<and> \<not> syn_flag (tcp_h (pay outs)) \<and> \<not> fin_flag (tcp_h (pay outs)) \<and>
      \<not> rst_flag (tcp_h (pay outs)) \<and> seq_num (tcp_h (pay outs)) = seq_num (tcp_h syn) + 1 \<and> refcnt (pay outs) = 1 \<and>
      (\<forall>c. selectable cfg c (offloaded X cfg (pay outs)))"
    and synack: "\<And>outs. from_server X cfg q (synack outs) \<and> syn_flag (tcp_h (synack outs)) \<and> ack_flag (tcp_h (synack outs))"
    and data: "\<forall>b \<in> set bs. \<forall>outs. data_packet X cfg s q (b outs)"
    and fin: "\<And>outs. from_client X cfg s (fin outs) \<and> \<not> syn_flag (tcp_h (fin outs)) \<and> fin_flag (tcp_h (fin outs)) \<and>
      tcp_payload_size X (offloaded X cfg (fin outs)) = 0 \<and>
      (\<forall>x \<in> set outs. sent_to s (fst x) \<longrightarrow> ack_num (tcp_h (fst x)) \<le> seq_num (tcp_h (fin outs)))"
    and sfin: "\<And>outs. from_server X cfg q (sfin outs) \<and> fin_flag (tcp_h (sfin outs)) \<and> ack_flag (tcp_h (sfin outs)) \<and>
      \<not> syn_flag (tcp_h (sfin outs)) \<and> ack_num (tcp_h (sfin outs)) = seq_num (tcp_h (fst (last outs))) + 1"
    and lack: "\<And>outs. from_client X cfg s (lack outs) \<and> \<not> syn_flag (tcp_h (lack outs)) \<and> ack_flag (tcp_h (lack outs)) \<and>
      \<not> fin_flag (tcp_h (lack outs)) \<and> \<not> rst_flag (tcp_h (lack outs)) \<and>
      ack_num (tcp_h (fst (last outs))) \<le> seq_num (tcp_h (lack outs)) \<and>
      ack_num (tcp_h (lack outs)) = seq_num (tcp_h (fst (last outs))) +
        of_nat (tcp_payload_size X (offloaded X cfg (sfin (butlast outs)))) + 1"
  shows "\<exists>p0 p1 p2 p3 ps p4 p5 p6 W' a d i m n.
    play X cfg clks ([\<lambda>_. syn, ack, pay, synack] @ bs @ [fin, sfin, lack]) [] W =
      Some (Inr ([(p0, 1), (p1, 0), (p2, 1), (p3, 0)] @ map (\<lambda>p. (p, 1)) ps @ [(p4, 1), (p5, 1), (p6, 1)], W')) \<and>
    syn_flag (tcp_h p0) \<and> ack_flag (tcp_h p0) \<and> ack_num (tcp_h p0) = seq_num (tcp_h syn) + 1 \<and> sent_to s p0 \<and>
    unat i < length (servers cfg) \<and> sent_to_server cfg (unat i) p2 \<and> src_port (tcp_h p2) = q \<and> syn_flag (tcp_h p2) \<and>
    p_producer W' = p_producer W @ [a, d] \<and> seq_num (tcp_h a) = seq_num (tcp_h p2) + 1 \<and>
    ack_num (tcp_h a) = seq_num (tcp_h (synack [(p0, 1), (p1, 0), (p2, 1)])) + 1 \<and> tcp_h d = (tcp_h a)\<lparr>psh_flag := True\<rparr> \<and>
    length ps = length bs \<and>
    (\<forall>k < length bs. translated cfg s q (m, n, i)
      ((bs ! k) ([(p0, 1), (p1, 0), (p2, 1), (p3, 0)] @ map (\<lambda>p. (p, 1)) (take k ps))) (ps ! k)) \<and>
    fin_flag (tcp_h p4) \<and> sent_to_server cfg (unat i) p4 \<and> fin_flag (tcp_h p5) \<and> sent_to s p5 \<and> sent_to_server cfg (unat i) p6 \<and>
    pipe_inv X cfg ent W' \<and> sock2port (p_cm W') = sock2port (p_cm W) \<and> free_ports (p_cm W') = rest @ [q] \<and>
    \<not> in_use (con_at (p_cm W') q) \<and> (\<forall>r. r \<noteq> q \<longrightarrow> con_at (p_cm W') r = con_at (p_cm W) r)"
proof -
  obtain p0 p1 p2 p3 W3 a d where open': "session_open X cfg ent clks s q syn ack pay synack W p0 p1 p2 p3 a d W3"
    using session_opens [where ack = ack and pay = pay and synack = synack, OF inv env ord wh new free room addr syn ack pay synack] by blast
  let ?o3 = "[(p0, 1 :: nat), (p1, 0), (p2, 1), (p3, 0)]" and ?c = "con_at (p_cm W3) q"
  note o = open' [unfolded session_open_def]
  have st: "stage X cfg ent s q W W3 (Established, Established)" and run0: "play X cfg clks [\<lambda>_. syn, ack, pay, synack] [] W = Some (Inr (?o3, W3))"
    and ak: "acked s ?o3 ?c" using o by simp_all
  obtain ps W4 where data': "play X cfg clks bs ?o3 W3 = Some (Inr (?o3 @ map (\<lambda>p. (p, 1)) ps, W4))" "length ps = length bs"
    "stage X cfg ent s q W W4 (Established, Established)" "p_producer W4 = p_producer W3"
    "offsets (con_at (p_cm W4) q) = offsets ?c" "acked s (?o3 @ map (\<lambda>p. (p, 1)) ps) (con_at (p_cm W4) q)"
    "\<forall>k < length bs. translated cfg s q (offsets ?c) ((bs ! k) (?o3 @ map (\<lambda>p. (p, 1)) (take k ps))) (ps ! k)"
    using play_data [OF env ord wh st data, of clks ?o3] keep ak by blast
  obtain p4 p5 p6 W' where close: "session_closed X cfg ent clks s q fin sfin lack (?o3 @ map (\<lambda>p. (p, 1)) ps) W W4 p4 p5 p6 W'"
    using session_closes [where fin = fin and sfin = sfin and lack = lack, OF data'(3) env size ord wh new data'(6) fin sfin lack] by blast
  note c = close [unfolded session_closed_def]
  have run: "play X cfg clks ([\<lambda>_. syn, ack, pay, synack] @ bs @ [fin, sfin, lack]) [] W =
      Some (Inr (?o3 @ map (\<lambda>p. (p, 1)) ps @ [(p4, 1), (p5, 1), (p6, 1)], W'))"
    unfolding play_append [OF run0] play_append [OF data'(1)] using c by simp
  have idx: "con_server_index (con_at (p_cm W4) q) = unat (server_index ?c)" using data'(5) by (simp add: offsets_def con_server_index_def)
  have tr: "\<forall>k < length bs. translated cfg s q (c_seqn ?c, c2s_inserted_bytes ?c, server_index ?c)
      ((bs ! k) (?o3 @ map (\<lambda>p. (p, 1)) (take k ps))) (ps ! k)" using data'(7) by (simp only: offsets_def)
  have fp: "free_ports (p_cm W') = rest @ [q]" using c free by simp
  have prod: "p_producer W' = p_producer W @ [a, d]" using c o data'(4) by simp
  show ?thesis
    using o [unfolded con_server_index_def] c [unfolded idx] prod data'(2) tr fp run
    by (elim conjE) (intro exI conjI, assumption+)
qed

text \<open>Packets of a concrete session, from a client and from a server.\<close>

definition wire :: "u32 \<Rightarrow> u32 \<Rightarrow> u16 \<Rightarrow> u16 \<Rightarrow> u32 \<Rightarrow> u32 \<Rightarrow> bool \<Rightarrow> bool \<Rightarrow> bool \<Rightarrow> pdu" where
  "wire src dst sp dp n a syn ack fin = pdu0\<lparr>mac_h := \<lparr>mac_src = 70, mac_dst = 10, etype = 0x0800\<rparr>,
     ip_h := \<lparr>ip_src = src, ip_dst = dst, protocol = 6, ip_length = 40\<rparr>,
     tcp_h := tcp0\<lparr>src_port := sp, dst_port := dp, seq_num := n, ack_num := a, syn_flag := syn, ack_flag := ack, fin_flag := fin\<rparr>\<rparr>"

lemma wire_sel [simp]:
  "seq_num (tcp_h (wire src dst sp dp n a syn ack fin)) = n" "ack_num (tcp_h (wire src dst sp dp n a syn ack fin)) = a"
  "syn_flag (tcp_h (wire src dst sp dp n a syn ack fin)) = syn" "ack_flag (tcp_h (wire src dst sp dp n a syn ack fin)) = ack"
  "fin_flag (tcp_h (wire src dst sp dp n a syn ack fin)) = fin" "\<not> rst_flag (tcp_h (wire src dst sp dp n a syn ack fin))"
  "refcnt (wire src dst sp dp n a syn ack fin) = 1" "tcp_payload_size X0 (wire src dst sp dp n a syn ack fin) = 0"
  by (simp_all add: wire_def tcp0_def pdu0_def X0_def)

lemma wire_from:
  "from_client X0 cfg0 (7, 5000) (wire 7 100 5000 80 n a syn ack fin)"
  "from_server X0 cfg0 0xC000 (wire 200 101 8080 0xC000 n a syn ack fin)"
  by (simp_all add: from_client_def from_server_def tcp_packet_def l2_l3_filter_def X0_def cfg0_def me0_def wire_def)

lemma offloaded0 [simp]: "offloaded X0 cfg0 p = p"
  by (simp add: offloaded_def X0_def)

definition max_ack :: "(pdu \<times> nat) list \<Rightarrow> u32" where
  "max_ack outs = foldr (\<lambda>x. max (ack_num (tcp_h (fst x)))) outs 0"

lemma max_ack: "x \<in> set outs \<Longrightarrow> ack_num (tcp_h (fst x)) \<le> max_ack outs"
  by (induction outs) (auto simp: max_ack_def le_max_iff_disj)

definition script0 :: "unit script" where
  "script0 = [\<lambda>_. wire 7 100 5000 80 500 0 True False False, \<lambda>_. wire 7 100 5000 80 501 0 False True False,
     \<lambda>_. wire 7 100 5000 80 501 0 False True False, \<lambda>_. wire 200 101 8080 0xC000 900 0 True True False,
     \<lambda>_. wire 7 100 5000 80 510 0 False True False, \<lambda>_. wire 200 101 8080 0xC000 901 0 False True False,
     \<lambda>outs. wire 7 100 5000 80 (max_ack outs) 0 False True True,
     \<lambda>outs. wire 200 101 8080 0xC000 902 (seq_num (tcp_h (fst (last outs))) + 1) False True True,
     \<lambda>outs. wire 7 100 5000 80 (ack_num (tcp_h (fst (last outs)))) (seq_num (tcp_h (fst (last outs))) + 1) False True False]"

theorem session_served_witness:
  "\<exists>outs W'. play X0 cfg0 (\<lambda>_ _. 3) script0 [] W0 = Some (Inr (outs, W')) \<and> map snd outs = [1, 0, 1, 0, 1, 1, 1, 1, 1] \<and>
    free_ports (p_cm W') = [0xC001, 0xC002, 0xC003, 0xC000] \<and> sock2port (p_cm W') = Map.empty"
proof -
  let ?bs = "[\<lambda>_. wire 7 100 5000 80 510 0 False True False, \<lambda>_. wire 200 101 8080 0xC000 901 0 False True False]"
  have "\<forall>b \<in> set ?bs. \<forall>outs. data_packet X0 cfg0 (7, 5000) 0xC000 (b outs)" by (simp add: data_packet_def wire_from)
  moreover have "process_keeps_ackn cfg0" by (simp add: process_keeps_ackn_def cfg0_def)
  moreover note session_served [OF W0_inv env0 size0 order0 _ wheel0, where s = "(7, 5000)" and q = "0xC000" and rest = "[0xC001, 0xC002, 0xC003]"
      and syn = "wire 7 100 5000 80 500 0 True False False" and ack = "\<lambda>_. wire 7 100 5000 80 501 0 False True False"
      and pay = "\<lambda>_. wire 7 100 5000 80 501 0 False True False" and synack = "\<lambda>_. wire 200 101 8080 0xC000 900 0 True True False"
      and bs = ?bs and fin = "\<lambda>outs. wire 7 100 5000 80 (max_ack outs) 0 False True True"
      and sfin = "\<lambda>outs. wire 200 101 8080 0xC000 902 (seq_num (tcp_h (fst (last outs))) + 1) False True True"
      and lack = "\<lambda>outs. wire 7 100 5000 80 (ack_num (tcp_h (fst (last outs)))) (seq_num (tcp_h (fst (last outs))) + 1) False True False"
      and clks = "\<lambda>_ _. 3", unfolded append.simps, folded script0_def]
  ultimately obtain p0 p1 p2 p3 ps p4 p5 p6 W' where r:
    "play X0 cfg0 (\<lambda>_ _. 3) script0 [] W0 =
      Some (Inr ((p0, 1) # (p1, 0) # (p2, 1) # (p3, 0) # map (\<lambda>p. (p, 1)) ps @ [(p4, 1), (p5, 1), (p6, 1)], W'))"
    "length ps = 2" "free_ports (p_cm W') = [0xC001, 0xC002, 0xC003, 0xC000]" "sock2port (p_cm W') = Map.empty"
    by (auto simp: W0_cm cm0_conf cm0_free W0_wheel load0_Nil wire_from selectable0 max_ack simp del: play.simps translated.simps)
  have "map (\<lambda>_. 1 :: nat) ps = [1, 1]" using r(2) by (simp add: map_replicate_const numeral_2_eq_2)
  then show ?thesis using r(1,3,4) by (intro exI conjI) (assumption, simp_all add: comp_def)
qed

section \<open>A session without a server\<close>

text \<open>
  C17. In a pipeline without detailed records, a client that connects and closes again before it sent
  any data, with a FIN whose number has not wrapped around, is served without a server: the
  proxy answers its SYN and its FIN itself, the client's ACK of that ends the session, nothing is
  queued, and the port is free again. The last ACK of the client is not kept, however: it is
  forwarded to the first server of the list, which never saw a packet of this connection.
\<close>

theorem unbound_session_served:
  assumes inv: "pipe_inv X cfg ent W" and env: "env_ok X cfg" and ord: "state_order_ok X"
    and wh: "wheel_ok X ent" and new: "sock2port (p_cm W) s = None" and free: "free_ports (p_cm W) = q # rest"
    and room: "wheel_load ent (p_wheel W) < 2 ^ 16" and addr: "fst s \<noteq> 0"
    and syn: "from_client X cfg s syn" "syn_flag (tcp_h syn)"
    and ack: "\<And>outs. from_client X cfg s (ack outs) \<and> ack_flag (tcp_h (ack outs)) \<and> \<not> syn_flag (tcp_h (ack outs)) \<and>
      seq_num (tcp_h (ack outs)) = seq_num (tcp_h syn) + 1"
    and fin: "\<And>outs. from_client X cfg s (fin outs) \<and> \<not> syn_flag (tcp_h (fin outs)) \<and> fin_flag (tcp_h (fin outs)) \<and>
      seq_num (tcp_h syn) + 1 \<le> seq_num (tcp_h (fin outs))"
    and last: "\<And>outs. from_client X cfg s (lack outs) \<and> \<not> syn_flag (tcp_h (lack outs)) \<and> ack_flag (tcp_h (lack outs)) \<and>
      \<not> fin_flag (tcp_h (lack outs)) \<and> \<not> rst_flag (tcp_h (lack outs)) \<and>
      seq_num (tcp_h syn) + 1 \<le> seq_num (tcp_h (lack outs)) \<and>
      ack_num (tcp_h (lack outs)) = seq_num (tcp_h (fst (outs ! 2))) + 1"
  shows "\<exists>p0 p1 p2 p3 W'.
    play X cfg clks [\<lambda>_. syn, ack, fin, lack] [] W = Some (Inr ([(p0, 1), (p1, 0), (p2, 1), (p3, 1)], W')) \<and>
    syn_flag (tcp_h p0) \<and> ack_flag (tcp_h p0) \<and> ack_num (tcp_h p0) = seq_num (tcp_h syn) + 1 \<and>
    (ip_dst (ip_h p0), dst_port (tcp_h p0)) = s \<and>
    fin_flag (tcp_h p2) \<and> ack_flag (tcp_h p2) \<and> ack_num (tcp_h p2) = seq_num (tcp_h (fin [(p0, 1), (p1, 0)])) + 1 \<and>
    (ip_dst (ip_h p2), dst_port (tcp_h p2)) = s \<and>
    ip_dst (ip_h p3) = l_ip (servers cfg ! 0) \<and> dst_port (tcp_h p3) = l_port (servers cfg ! 0) \<and>
    p_producer W' = p_producer W \<and> pipe_inv X cfg ent W' \<and> sock2port (p_cm W') = sock2port (p_cm W) \<and>
    free_ports (p_cm W') = rest @ [q] \<and> \<not> in_use (con_at (p_cm W') q) \<and>
    (\<forall>r. r \<noteq> q \<longrightarrow> con_at (p_cm W') r = con_at (p_cm W) r)"
proof -
  note std = env ord wh
  obtain W0 p0 where r0: "delayed_binding_closure X cfg (clks 0) None syn W = Some (Inr (W0, p0, 1))"
    "stage X cfg ent s q W W0 (SynSent, Listen)" "ackn_p2c (con_at (p_cm W0) q) = seq_num (tcp_h syn) + 1"
    "con_server_index (con_at (p_cm W0) q) = 0" "p_producer W0 = p_producer W" "syn_flag (tcp_h p0)" "ack_flag (tcp_h p0)"
    "ack_num (tcp_h p0) = seq_num (tcp_h syn) + 1" "(ip_dst (ip_h p0), dst_port (tcp_h p0)) = s"
    using stage_syn [OF inv std syn addr room new free, of "clks 0" None] by blast
  let ?o0 = "[(p0, 1 :: nat)]"
  obtain W1 p1 where r1: "delayed_binding_closure X cfg (clks 1) None (ack ?o0) W0 = Some (Inr (W1, p1, 0))"
    "stage X cfg ent s q W W1 (Established, Listen)" "ackn_p2c (con_at (p_cm W1) q) = seq_num (tcp_h syn) + 1"
    "con_server_index (con_at (p_cm W1) q) = 0" "p_producer W1 = p_producer W"
    using stage_ack [OF r0(2) std, of "ack ?o0" "clks 1" None] ack [of ?o0] r0(3-5) by auto
  let ?o1 = "?o0 @ [(p1, 0)]"
  obtain W2 p2 where r2: "delayed_binding_closure X cfg (clks 2) None (fin ?o1) W1 = Some (Inr (W2, p2, 1))"
    "stage X cfg ent s q W W2 (FinWait1, LastAck)" "ackn_p2c (con_at (p_cm W2) q) = seq_num (tcp_h syn) + 1"
    "con_server_index (con_at (p_cm W2) q) = 0" "p_producer W2 = p_producer W"
    "seqn (con_at (p_cm W2) q) = seq_num (tcp_h p2) + 1" "fin_flag (tcp_h p2)" "ack_flag (tcp_h p2)"
    "ack_num (tcp_h p2) = seq_num (tcp_h (fin ?o1)) + 1" "(ip_dst (ip_h p2), dst_port (tcp_h p2)) = s"
    using stage_fin_unbound [OF r1(2) std, of "fin ?o1" "clks 2" None] fin [of ?o1] r1(3-5) by auto
  let ?o2 = "?o1 @ [(p2, 1)]"
  obtain W3 p3 where r3: "delayed_binding_closure X cfg (clks 3) None (lack ?o2) W2 = Some (Inr (W3, p3, 1))"
    "pipe_inv X cfg ent W3" "\<not> in_use (con_at (p_cm W3) q)" "sock2port (p_cm W3) = sock2port (p_cm W)"
    "free_ports (p_cm W3) = tl (free_ports (p_cm W)) @ [q]" "\<forall>r. r \<noteq> q \<longrightarrow> con_at (p_cm W3) r = con_at (p_cm W) r"
    "p_producer W3 = p_producer W" "ip_dst (ip_h p3) = l_ip (servers cfg ! 0)" "dst_port (tcp_h p3) = l_port (servers cfg ! 0)"
    using stage_last_ack [OF r2(2) std new, of "lack ?o2" "clks 3" None] last [of ?o2] r2(3-6) by auto
  have "play X cfg clks [\<lambda>_. syn, ack, fin, lack] [] W = play X cfg clks [ack, fin, lack] ?o0 W0"
    using play_Cons [where b = "\<lambda>_. syn" and outs = "[]" and clks = clks, OF r0(1)] by simp
  also have "\<dots> = play X cfg clks [fin, lack] ?o1 W1" by (rule play_Cons, rule r1(1), simp)
  also have "\<dots> = play X cfg clks [lack] ?o2 W2" by (rule play_Cons, rule r2(1), simp)
  also have "\<dots> = play X cfg clks [] (?o2 @ [(p3, 1)]) W3" by (rule play_Cons, rule r3(1), simp)
  finally have run: "play X cfg clks [\<lambda>_. syn, ack, fin, lack] [] W = Some (Inr ([(p0, 1), (p1, 0), (p2, 1), (p3, 1)], W3))" by simp
  have fp: "free_ports (p_cm W3) = rest @ [q]" using r3(5) free by simp
  have an: "ack_num (tcp_h p2) = seq_num (tcp_h (fin [(p0, 1), (p1, 0)])) + 1" using r2(9) by simp
  show ?thesis
    by (intro exI conjI, rule run) (rule r0(6-9) r2(7,8) an r2(10) r3(8,9) r3(7,2,4) fp r3(3,6))+
qed

theorem unbound_session_served_witness:
  "\<exists>outs W'. play X0 cfg0 (\<lambda>_ _. 3) [\<lambda>_. wire 7 100 5000 80 500 0 True False False, \<lambda>_. wire 7 100 5000 80 501 0 False True False,
      \<lambda>_. wire 7 100 5000 80 501 0 False True True,
      \<lambda>outs. wire 7 100 5000 80 502 (seq_num (tcp_h (fst (outs ! 2))) + 1) False True False] [] W0 = Some (Inr (outs, W')) \<and>
    map snd outs = [1, 0, 1, 1] \<and> free_ports (p_cm W') = [0xC001, 0xC002, 0xC003, 0xC000] \<and> sock2port (p_cm W') = Map.empty"
proof -
  note unbound_session_served [OF W0_inv env0 order0 wheel0, where s = "(7, 5000)" and q = "0xC000" and rest = "[0xC001, 0xC002, 0xC003]"
      and syn = "wire 7 100 5000 80 500 0 True False False" and ack = "\<lambda>_. wire 7 100 5000 80 501 0 False True False"
      and fin = "\<lambda>_. wire 7 100 5000 80 501 0 False True True"
      and lack = "\<lambda>outs. wire 7 100 5000 80 502 (seq_num (tcp_h (fst (outs ! 2))) + 1) False True False" and clks = "\<lambda>_ _. 3"]
  then obtain p0 p1 p2 p3 W' where
    "play X0 cfg0 (\<lambda>_ _. 3) [\<lambda>_. wire 7 100 5000 80 500 0 True False False, \<lambda>_. wire 7 100 5000 80 501 0 False True False,
      \<lambda>_. wire 7 100 5000 80 501 0 False True True,
      \<lambda>outs. wire 7 100 5000 80 502 (seq_num (tcp_h (fst (outs ! 2))) + 1) False True False] [] W0 =
      Some (Inr ([(p0, 1), (p1, 0), (p2, 1), (p3, 1)], W'))"
    "free_ports (p_cm W') = [0xC001, 0xC002, 0xC003, 0xC000]" "sock2port (p_cm W') = Map.empty"
    by (auto simp: W0_cm cm0_conf cm0_free W0_wheel load0_Nil wire_from simp del: play.simps)
  then show ?thesis by (intro exI [of _ W'] exI conjI) (assumption, simp_all)
qed

section \<open>Data in both directions\<close>

text \<open>
  C9. In a pipeline without detailed records, while both sides are established, every further packet of the client and of the server, in any
  number and any order, is forwarded: to the selected server with the sequence number moved by the
  inserted bytes and the acknowledgement moved back by the sequence offset, and to the client the
  other way round. The numbers a connection translates by never change, so the two translations stay
  inverse to each other; the connection stays established, nothing is queued, and no other
  connection, client or port is touched.
\<close>

theorem data_forwarded:
  assumes inv: "pipe_inv X cfg ent W" and env: "env_ok X cfg" and ord: "state_order_ok X" and wh: "wheel_ok X ent"
    and known: "sock2port (p_cm W) s = Some q" and est: "sides_of X (con_at (p_cm W) q) = (Established, Established)"
    and data: "\<forall>b \<in> set bs. \<forall>outs. data_packet X cfg s q (b outs)"
  shows "\<exists>ps W'. play X cfg clks bs [] W = Some (Inr (map (\<lambda>p. (p, 1)) ps, W')) \<and> length ps = length bs \<and>
    (\<forall>k < length bs. translated cfg s q (offsets (con_at (p_cm W) q)) ((bs ! k) (map (\<lambda>p. (p, 1)) (take k ps))) (ps ! k)) \<and>
    pipe_inv X cfg ent W' \<and> sides_of X (con_at (p_cm W') q) = (Established, Established) \<and> p_producer W' = p_producer W \<and>
    sock2port (p_cm W') = sock2port (p_cm W) \<and> free_ports (p_cm W') = free_ports (p_cm W) \<and>
    (\<forall>r. r \<noteq> q \<longrightarrow> con_at (p_cm W') r = con_at (p_cm W) r)"
proof -
  define V where "V = W\<lparr>p_cm := (p_cm W)\<lparr>free_ports := q # free_ports (p_cm W)\<rparr>\<rparr>"
  have V: "sock2port (p_cm V) = sock2port (p_cm W)" "free_ports (p_cm V) = q # free_ports (p_cm W)" "con_at (p_cm V) r = con_at (p_cm W) r" for r
    by (simp_all add: V_def con_at_def pidx_def)
  have "stage X cfg ent s q V W (Established, Established)"
    using inv est known by (auto simp: stage_def V)
  from play_data [OF env ord wh this data, of clks "[]"] obtain ps W' where
    r: "play X cfg clks bs [] W = Some (Inr (map (\<lambda>p. (p, 1)) ps, W'))" "length ps = length bs"
    "stage X cfg ent s q V W' (Established, Established)" "p_producer W' = p_producer W"
    "\<forall>k < length bs. translated cfg s q (offsets (con_at (p_cm W) q)) ((bs ! k) (map (\<lambda>p. (p, 1)) (take k ps))) (ps ! k)"
    by (auto simp del: translated.simps)
  have "sock2port (p_cm W') = sock2port (p_cm W)"
    using r(3) known by (auto simp: stage_def V)
  then show ?thesis using r by (intro exI [of _ ps] exI [of _ W']) (simp add: stage_def V del: translated.simps)
qed

text \<open>An established connection of the concrete pipeline, and one packet in each direction.\<close>

lemma established0:
  obtains W where "pipe_inv X0 cfg0 ent0 W" and "sock2port (p_cm W) (7, 5000) = Some 0xC000"
    and "sides_of X0 (con_at (p_cm W) 0xC000) = (Established, Established)"
proof -
  have new: "sock2port (p_cm W0) (7, 5000) = None" "free_ports (p_cm W0) = 0xC000 # [0xC001, 0xC002, 0xC003]" "wheel_load ent0 (p_wheel W0) < 2 ^ 16"
    by (simp_all add: W0_cm cm0_conf cm0_free W0_wheel load0_Nil)
  note std = env0 order0 wheel0
  obtain W1 where 1: "stage X0 cfg0 ent0 (7, 5000) 0xC000 W0 W1 (SynSent, Listen)" "ackn_p2c (con_at (p_cm W1) 0xC000) = 501"
    using stage_syn [OF W0_inv std wire_from(1) _ _ new(3,1,2), of 500 0 True False False] by auto
  obtain W2 where 2: "stage X0 cfg0 ent0 (7, 5000) 0xC000 W0 W2 (Established, Listen)" "ackn_p2c (con_at (p_cm W2) 0xC000) = 501"
    using stage_ack [OF 1(1) std wire_from(1), of 501 0 False True False] 1(2) by auto
  obtain W3 b where 3: "stage X0 cfg0 ent0 (7, 5000) 0xC000 W0 W3 (Established, SynReceived)" "payload_packet (con_at (p_cm W3) 0xC000) = Some b"
    using stage_payload [OF 2(1) std wire_from(1), of 501 0 False True False "\<lambda>_. 3" None] 2(2) by (auto simp: selectable0)
  obtain W4 where "stage X0 cfg0 ent0 (7, 5000) 0xC000 W0 W4 (Established, Established)"
    using stage_synack [OF 3(1) std wire_from(2) _ _ 3(2), of 900 0 True True False] by auto
  from that [OF stageD [OF this]] show ?thesis .
qed

theorem data_forwarded_witness:
  "\<exists>W ps W'. sides_of X0 (con_at (p_cm W) 0xC000) = (Established, Established) \<and>
    play X0 cfg0 (\<lambda>_ _. 3) [\<lambda>_. wire 7 100 5000 80 510 0 False True False, \<lambda>_. wire 200 101 8080 0xC000 901 0 False True False] [] W =
      Some (Inr (map (\<lambda>p. (p, 1)) ps, W')) \<and> length ps = 2"
proof -
  obtain W where W: "pipe_inv X0 cfg0 ent0 W" "sock2port (p_cm W) (7, 5000) = Some 0xC000"
    "sides_of X0 (con_at (p_cm W) 0xC000) = (Established, Established)" by (rule established0)
  have "data_packet X0 cfg0 (7, 5000) 0xC000 (wire 7 100 5000 80 510 0 False True False)"
    "data_packet X0 cfg0 (7, 5000) 0xC000 (wire 200 101 8080 0xC000 901 0 False True False)"
    by (simp_all add: data_packet_def wire_from)
  then have "\<exists>ps W'. play X0 cfg0 (\<lambda>_ _. 3) [\<lambda>_. wire 7 100 5000 80 510 0 False True False, \<lambda>_. wire 200 101 8080 0xC000 901 0 False True False] [] W =
      Some (Inr (map (\<lambda>p. (p, 1)) ps, W')) \<and> length ps = 2"
    using data_forwarded [OF W(1) env0 order0 wheel0 W(2,3), of "[\<lambda>_. wire 7 100 5000 80 510 0 False True False,
        \<lambda>_. wire 200 101 8080 0xC000 901 0 False True False]" "\<lambda>_ _. 3"]
    by (auto simp del: play.simps translated.simps)
  then show ?thesis using W(3) by blast
qed

end
