(* ===== verification/Graph.thy ===== *)
theory Graph
  imports Setup "HOL-Library.Sublist"
begin

text \<open>
  The graph of tasks that \<open>setup_delayed_proxy\<close> of \<^verbatim>\<open>nftcp.rs\<close> builds around the packet closure and hands to
  the scheduler of a core: the queues a packet may come from (network, timer ticks, kernel interface,
  packets made by the proxy) and where it goes. The queues of e2d2 are a parameter: \<open>graph_api\<close> has what
  the tasks use of them, and \<open>graph_ok\<close> says that they are first-in-first-out. In which order the
  scheduler runs the tasks, and when packets arrive, is left open: a run is any sequence of events,
  and a batch of packets is that many events. What a task hands to \<open>send\<close> or \<open>drop\<close> is the output of the
  program, and the node keeps the log of it: what the interfaces do with these packets is not modelled.
\<close>

section \<open>Tasks\<close>

datatype port_task = Pipe2Pci | BypassPipe | Kni2Pci

text \<open>
  \<open>receive\<close> takes the next packet out of an input queue, if there is one; \<open>deliver\<close> is an arrival that the
  queue accepts; \<open>no_group\<close> is what grouping does with a group number that nobody asked for. \<open>items\<close>
  are the packets waiting in a queue. \<open>n_bypass\<close> is the consumer end of the queue pair whose producer end
  the closure holds; \<open>n_pci_tx\<close>, \<open>n_kni_tx\<close> and \<open>n_dropped\<close> are the logs of the packets given to
  \<open>send(pci)\<close>, with the task that gave them, to \<open>send(kni)\<close> and to \<open>drop\<close>.
\<close>

record ('q, 'm) graph_api =
  receive :: "'q \<Rightarrow> 'm pdu_scheme option \<times> 'q"
  deliver :: "'m pdu_scheme \<Rightarrow> 'q \<Rightarrow> 'q"
  no_group :: "nat \<Rightarrow> unit res"

definition graph_ok :: "('q, 'm) graph_api \<Rightarrow> ('q \<Rightarrow> 'm pdu_scheme list) \<Rightarrow> bool" where
  "graph_ok G items \<longleftrightarrow>
     (\<forall>p q. items (deliver G p q) = items q @ [p]) \<and>
     (\<forall>q. case items q of
            [] \<Rightarrow> fst (receive G q) = None \<and> items (snd (receive G q)) = []
          | p # ps \<Rightarrow> fst (receive G q) = Some p \<and> items (snd (receive G q)) = ps)"

record ('st, 'w, 'q, 'm) node =
  n_pipe :: "('st, 'w, 'm) pipe"
  n_rx :: 'q
  n_ticks :: 'q
  n_kni_rx :: 'q
  n_bypass :: 'q
  n_pci_tx :: "(port_task \<times> 'm pdu_scheme) list"
  n_kni_tx :: "'m pdu_scheme list"
  n_dropped :: "'m pdu_scheme list"

text \<open>The three groups of the closure.\<close>

definition l4groups :: "('q, 'm) graph_api \<Rightarrow> nat \<Rightarrow> 'm pdu_scheme \<Rightarrow> ('st, 'w, 'q, 'm) node \<Rightarrow> ('st, 'w, 'q, 'm) node res" where
  "l4groups G g p n =
     (if g = 2 then Inr (n\<lparr>n_kni_tx := n_kni_tx n @ [p]\<rparr>)
      else if g = 1 then Inr (n\<lparr>n_pci_tx := n_pci_tx n @ [(Pipe2Pci, p)]\<rparr>)
      else if g = 0 then Inr (n\<lparr>n_dropped := n_dropped n @ [p]\<rparr>)
      else bindR (no_group G g) (\<lambda>_. Inr n))"

text \<open>
  The closure on a packet of the merged input stream. \<open>p_producer\<close> is the log of what the closure has given
  to \<open>enqueue_one\<close> and \<open>enqueue_one_boxed\<close>: what this packet added to it is delivered to the consumer.
\<close>

definition enqueued :: "('st, 'w, 'm) pipe \<Rightarrow> ('st, 'w, 'm) pipe \<Rightarrow> 'm pdu_scheme list" where
  "enqueued W W' = drop (length (p_producer W)) (p_producer W')"

definition l4_task ::
  "('cr, 'st, 'w, 'm, 'z) net_lib_scheme \<Rightarrow> ('q, 'm) graph_api \<Rightarrow> 'm pcfg \<Rightarrow> (nat \<Rightarrow> u64) \<Rightarrow> msg_to option \<Rightarrow> 'm pdu_scheme \<Rightarrow>
   ('st, 'w, 'q, 'm) node \<Rightarrow> ('st, 'w, 'q, 'm) node res option" where
  "l4_task X G cfg clk msg p n =
     map_option (\<lambda>r. bindR r (\<lambda>(W, p, g).
         l4groups G g p (n\<lparr>n_pipe := W, n_bypass := fold (deliver G) (enqueued (n_pipe n) W) (n_bypass n)\<rparr>)))
       (delayed_binding_closure X cfg clk msg p (n_pipe n))"

text \<open>The input stream merges the timer ticks with what the network interface has received.\<close>

definition run_tick ::
  "('cr, 'st, 'w, 'm, 'z) net_lib_scheme \<Rightarrow> ('q, 'm) graph_api \<Rightarrow> 'm pcfg \<Rightarrow> (nat \<Rightarrow> u64) \<Rightarrow> msg_to option \<Rightarrow>
   ('st, 'w, 'q, 'm) node \<Rightarrow> ('st, 'w, 'q, 'm) node res option" where
  "run_tick X G cfg clk msg n =
     (let (p, q) = receive G (n_ticks n) in
      case p of None \<Rightarrow> Some (Inr (n\<lparr>n_ticks := q\<rparr>)) | Some p \<Rightarrow> l4_task X G cfg clk msg p (n\<lparr>n_ticks := q\<rparr>))"

definition run_rx ::
  "('cr, 'st, 'w, 'm, 'z) net_lib_scheme \<Rightarrow> ('q, 'm) graph_api \<Rightarrow> 'm pcfg \<Rightarrow> (nat \<Rightarrow> u64) \<Rightarrow> msg_to option \<Rightarrow>
   ('st, 'w, 'q, 'm) node \<Rightarrow> ('st, 'w, 'q, 'm) node res option" where
  "run_rx X G cfg clk msg n =
     (let (p, q) = receive G (n_rx n) in
      case p of None \<Rightarrow> Some (Inr (n\<lparr>n_rx := q\<rparr>)) | Some p \<Rightarrow> l4_task X G cfg clk msg p (n\<lparr>n_rx := q\<rparr>))"

text \<open>Packets of the proxy's own queue, and packets of the kernel, go to the network interface.\<close>

definition run_bypass :: "('q, 'm) graph_api \<Rightarrow> ('st, 'w, 'q, 'm) node \<Rightarrow> ('st, 'w, 'q, 'm) node" where
  "run_bypass G n =
     (let (p, q) = receive G (n_bypass n) in
      case p of
        None \<Rightarrow> n\<lparr>n_bypass := q\<rparr>
      | Some p \<Rightarrow> n\<lparr>n_bypass := q, n_pci_tx := n_pci_tx n @ [(BypassPipe, p)]\<rparr>)"

definition run_kni2pci :: "('q, 'm) graph_api \<Rightarrow> ('st, 'w, 'q, 'm) node \<Rightarrow> ('st, 'w, 'q, 'm) node" where
  "run_kni2pci G n =
     (let (p, q) = receive G (n_kni_rx n) in
      case p of
        None \<Rightarrow> n\<lparr>n_kni_rx := q\<rparr>
      | Some p \<Rightarrow> n\<lparr>n_kni_rx := q, n_pci_tx := n_pci_tx n @ [(Kni2Pci, p)]\<rparr>)"

section \<open>Runs\<close>

datatype 'm event =
    ArriveRx "'m pdu_scheme" | ArriveTick "'m pdu_scheme" | ArriveKni "'m pdu_scheme"
  | RunTick "nat \<Rightarrow> u64" "msg_to option" | RunRx "nat \<Rightarrow> u64" "msg_to option" | RunBypass | RunKni2Pci

fun node_event ::
  "('cr, 'st, 'w, 'm, 'z) net_lib_scheme \<Rightarrow> ('q, 'm) graph_api \<Rightarrow> 'm pcfg \<Rightarrow> 'm event \<Rightarrow> ('st, 'w, 'q, 'm) node \<Rightarrow> ('st, 'w, 'q, 'm) node res option" where
  "node_event X G cfg (ArriveRx p) n = Some (Inr (n\<lparr>n_rx := deliver G p (n_rx n)\<rparr>))"
| "node_event X G cfg (ArriveTick p) n = Some (Inr (n\<lparr>n_ticks := deliver G p (n_ticks n)\<rparr>))"
| "node_event X G cfg (ArriveKni p) n = Some (Inr (n\<lparr>n_kni_rx := deliver G p (n_kni_rx n)\<rparr>))"
| "node_event X G cfg (RunTick clk msg) n = run_tick X G cfg clk msg n"
| "node_event X G cfg (RunRx clk msg) n = run_rx X G cfg clk msg n"
| "node_event X G cfg RunBypass n = Some (Inr (run_bypass G n))"
| "node_event X G cfg RunKni2Pci n = Some (Inr (run_kni2pci G n))"

fun node_run ::
  "('cr, 'st, 'w, 'm, 'z) net_lib_scheme \<Rightarrow> ('q, 'm) graph_api \<Rightarrow> 'm pcfg \<Rightarrow> 'm event list \<Rightarrow> ('st, 'w, 'q, 'm) node \<Rightarrow> ('st, 'w, 'q, 'm) node res option" where
  "node_run X G cfg [] n = Some (Inr n)"
| "node_run X G cfg (e # es) n =
     (case node_event X G cfg e n of
        None \<Rightarrow> None
      | Some (Inl err) \<Rightarrow> Some (Inl err)
      | Some (Inr n') \<Rightarrow> node_run X G cfg es n')"

text \<open>The packets that are taken from a queue during a run are admissible when they are taken.\<close>

fun event_ok ::
  "('cr, 'st, 'w, 'm, 'z) net_lib_scheme \<Rightarrow> ('q, 'm) graph_api \<Rightarrow> 'm pcfg \<Rightarrow> ('w \<Rightarrow> u16 \<times> u16 \<Rightarrow> u16 option) \<Rightarrow> 'm event \<Rightarrow>
   ('st, 'w, 'q, 'm) node \<Rightarrow> bool" where
  "event_ok X G cfg ent (RunTick clk msg) n = (case fst (receive G (n_ticks n)) of None \<Rightarrow> True | Some p \<Rightarrow> input_ok X cfg ent p (n_pipe n))"
| "event_ok X G cfg ent (RunRx clk msg) n = (case fst (receive G (n_rx n)) of None \<Rightarrow> True | Some p \<Rightarrow> input_ok X cfg ent p (n_pipe n))"
| "event_ok X G cfg ent _ n = True"

fun run_ok ::
  "('cr, 'st, 'w, 'm, 'z) net_lib_scheme \<Rightarrow> ('q, 'm) graph_api \<Rightarrow> 'm pcfg \<Rightarrow> ('w \<Rightarrow> u16 \<times> u16 \<Rightarrow> u16 option) \<Rightarrow> 'm event list \<Rightarrow>
   ('st, 'w, 'q, 'm) node \<Rightarrow> bool" where
  "run_ok X G cfg ent [] n = True"
| "run_ok X G cfg ent (e # es) n =
     (event_ok X G cfg ent e n \<and>
      (case node_event X G cfg e n of Some (Inr n') \<Rightarrow> run_ok X G cfg ent es n' | _ \<Rightarrow> True))"

section \<open>The closure only adds to its own queue\<close>

lemma on_con_producer: "on_con g f = Inr f' \<Longrightarrow> f_producer f' = f_producer f"
  by (auto simp: on_con_def bindR_eq_Inr)

lemma client_fin_producer: "client_fin X clk tcp old_s f = Inr f' \<Longrightarrow> f_producer f' = f_producer f"
  by (auto simp: client_fin_def client_fin_passive_def client_fin_active_def client_fin_unbound_def Let_def bindR_eq_Inr
      split: if_splits dest!: on_con_producer)

lemma client_syn_producer: "client_syn X cfg clk old_c f = Inr f' \<Longrightarrow> f_producer f' = f_producer f"
  by (auto simp: client_syn_def Let_def bindR_eq_Inr case_prod_unfold split: if_splits dest!: on_con_producer)

lemma client_payload_producer: "client_first_payload X cfg clk f = Inr f' \<Longrightarrow> f_producer f' = f_producer f"
  by (auto simp: client_first_payload_def Let_def bindR_eq_Inr case_prod_unfold dest!: on_con_producer)

lemma client_ack4fin_producer: "client_ack4fin X clk old_c old_s f = Inr f' \<Longrightarrow> f_producer f' = f_producer f"
  by (cases old_s; cases old_c) (auto simp: client_ack4fin_def Let_def bindR_eq_Inr dest!: on_con_producer)

lemma client_tcp_producer: "client_tcp X cfg clk tcp old_c old_s f = Inr f' \<Longrightarrow> f_producer f' = f_producer f"
  by (auto simp: client_tcp_def client_handshake_ack_def client_rst_def client_final_ack_def client_unexpected_def Let_def bindR_eq_Inr
      split: if_splits dest!: on_con_producer client_fin_producer client_syn_producer client_payload_producer client_ack4fin_producer)

lemma release_if_closed_producer [simp]: "f_producer (release_if_closed X f) = f_producer f"
  by (simp add: release_if_closed_def)

lemma client_step_producer: "client_step X cfg clk tcp f = Inr f' \<Longrightarrow> f_producer f' = f_producer f"
  by (auto simp: client_step_def Let_def bindR_eq_Inr split: if_splits dest!: client_tcp_producer)

lemma synack_producer:
  "server_synack_received X p c pq = Inr (p', c', pq') \<Longrightarrow> \<exists>xs. pq' = pq @ xs"
  by (auto simp: server_synack_received_def Let_def bindR_eq_Inr split: option.splits)

lemma server_synack_producer: "server_synack X clk old_s f = Inr f' \<Longrightarrow> \<exists>xs. f_producer f' = f_producer f @ xs"
  by (auto simp: server_synack_def Let_def bindR_eq_Inr split: if_splits dest!: on_con_producer synack_producer)

lemma server_rest_producer:
  "server_fin X clk tcp old_c f = Inr f' \<Longrightarrow> f_producer f' = f_producer f"
  "server_ack4fin X clk tcp old_c f = Inr f' \<Longrightarrow> f_producer f' = f_producer f"
  by (auto simp: server_fin_def Let_def bindR_eq_Inr split: if_splits dest!: on_con_producer)
    (cases old_c; auto simp: server_ack4fin_def Let_def bindR_eq_Inr split: if_splits dest!: on_con_producer)

lemma server_tcp_producer: "server_tcp X clk tcp old_c old_s f = Inr f' \<Longrightarrow> \<exists>xs. f_producer f' = f_producer f @ xs"
  by (auto simp: server_tcp_def split: if_splits dest: server_synack_producer dest!: server_rest_producer)

lemma server_step_producer: "server_step X cfg clk tcp f = Inr f' \<Longrightarrow> \<exists>xs. f_producer f' = f_producer f @ xs"
  by (auto simp: server_step_def Let_def bindR_eq_Inr split: if_splits dest!: server_tcp_producer)

lemma closure_producer:
  assumes "delayed_binding_closure X cfg clk msg p W = Some (Inr (W', p', g))"
  shows "\<exists>xs. p_producer W' = p_producer W @ xs"
proof -
  have rel: "p_producer V' = p_producer V" if "release_connection X r V = Inr V'" for r V V'
    using that by (auto simp: release_connection_def bindR_eq_Inr split: option.splits)
  have cl: "p_producer V = p_producer W" if "handle_client X cfg clk q W = Inr (V, x)" for q V x
    using that
    by (auto simp: handle_client_def Let_def bindR_eq_Inr leave_def enter_def case_prod_unfold split: option.splits
        dest!: client_step_producer)
  have sv: "\<exists>xs. p_producer V = p_producer W @ xs" if "handle_server X cfg clk q W = Inr (V, x)" for q V x
    using that
    by (auto simp: handle_server_def Let_def bindR_eq_Inr leave_def enter_def split: option.splits dest!: server_step_producer)
  have tm: "p_producer V = p_producer W" if "handle_timer X cfg clk msg W = Some (Inr V)" for V
  proof -
    have "p_producer V' = p_producer U" if "handle_message X msg U = Inr V'" for U V'
      using that by (auto simp: handle_message_def send_reply_def Let_def case_prod_unfold split: option.splits msg_to.splits if_splits)
    then show ?thesis using that
      by (fastforce simp: handle_timer_def bindR_eq_Inr split: sum.splits if_splits)
  qed
  show ?thesis
    using assms rel cl sv tm
    by (fastforce simp: delayed_binding_closure_def Let_def bindR_eq_Inr split: option.splits if_splits)
qed

section \<open>The closure as a server of jobs\<close>

text \<open>
  The specification of a run: the closure serves one job after the other, each with the source it was
  taken from, the clock readings and the message of that call, and its packet. \<open>serve\<close> gives the packets
  as the closure leaves them, with their groups, and the pipeline after the last job.
\<close>

datatype source = FromRx | FromTick

type_synonym call = "source \<times> (nat \<Rightarrow> u64) \<times> msg_to option"

fun serve ::
  "('cr, 'st, 'w, 'm, 'z) net_lib_scheme \<Rightarrow> 'm pcfg \<Rightarrow> (call \<times> 'm pdu_scheme) list \<Rightarrow> ('st, 'w, 'm) pipe \<Rightarrow>
   (('m pdu_scheme \<times> nat) list \<times> ('st, 'w, 'm) pipe) res option" where
  "serve X cfg [] W = Some (Inr ([], W))"
| "serve X cfg (((s, clk, msg), p) # jobs) W =
     (case delayed_binding_closure X cfg clk msg p W of
        None \<Rightarrow> None
      | Some (Inl err) \<Rightarrow> Some (Inl err)
      | Some (Inr (W, p', g)) \<Rightarrow>
          map_option (\<lambda>r. bindR r (\<lambda>(outs, W). Inr ((p', g) # outs, W))) (serve X cfg jobs W))"

lemma serve_append:
  assumes "serve X cfg js W = Some (Inr (os, V))" and "serve X cfg ks V = Some (Inr (qs, U))"
  shows "serve X cfg (js @ ks) W = Some (Inr (os @ qs, U))"
  using assms
  by (induction X cfg js W arbitrary: os rule: serve.induct) (auto split: option.splits sum.splits simp: bindR_eq_Inr)

text \<open>The packets of one source, and the packets that were put into one group.\<close>

definition taken :: "source \<Rightarrow> (call \<times> 'm pdu_scheme) list \<Rightarrow> 'm pdu_scheme list" where
  "taken s jobs = map snd (filter (\<lambda>j. fst (fst j) = s) jobs)"

definition grouped :: "nat \<Rightarrow> ('m pdu_scheme \<times> nat) list \<Rightarrow> 'm pdu_scheme list" where
  "grouped g outs = map fst (filter (\<lambda>x. snd x = g) outs)"

definition sent_by :: "port_task \<Rightarrow> ('st, 'w, 'q, 'm) node \<Rightarrow> 'm pdu_scheme list" where
  "sent_by t n = map snd (filter (\<lambda>x. fst x = t) (n_pci_tx n))"

lemma taken_simps [simp]:
  "taken s [] = []" "taken s ((call, p) # js) = (if fst call = s then p # taken s js else taken s js)"
  "taken s (js @ ks) = taken s js @ taken s ks"
  by (simp_all add: taken_def)

lemma grouped_simps [simp]:
  "grouped g [] = []" "grouped g ((p, h) # os) = (if h = g then p # grouped g os else grouped g os)"
  "grouped g (os @ qs) = grouped g os @ grouped g qs"
  by (simp_all add: grouped_def)

lemma sent_by_upd [simp]:
  "sent_by t (n\<lparr>n_pipe := W\<rparr>) = sent_by t n" "sent_by t (n\<lparr>n_rx := q\<rparr>) = sent_by t n" "sent_by t (n\<lparr>n_ticks := q\<rparr>) = sent_by t n"
  "sent_by t (n\<lparr>n_kni_rx := q\<rparr>) = sent_by t n" "sent_by t (n\<lparr>n_bypass := q\<rparr>) = sent_by t n"
  "sent_by t (n\<lparr>n_kni_tx := ps\<rparr>) = sent_by t n" "sent_by t (n\<lparr>n_dropped := ps\<rparr>) = sent_by t n"
  "sent_by t (n\<lparr>n_pci_tx := n_pci_tx n @ [(u, p)]\<rparr>) = sent_by t n @ (if u = t then [p] else [])"
  by (simp_all add: sent_by_def)

text \<open>What the events of a run bring, and which calls of the closure they may cause.\<close>

fun rx_arrived :: "'m event \<Rightarrow> 'm pdu_scheme list" where
  "rx_arrived (ArriveRx p) = [p]" | "rx_arrived e = []"

fun tick_arrived :: "'m event \<Rightarrow> 'm pdu_scheme list" where
  "tick_arrived (ArriveTick p) = [p]" | "tick_arrived e = []"

fun kni_arrived :: "'m event \<Rightarrow> 'm pdu_scheme list" where
  "kni_arrived (ArriveKni p) = [p]" | "kni_arrived e = []"

fun calls :: "'m event \<Rightarrow> call list" where
  "calls (RunTick clk msg) = [(FromTick, clk, msg)]" | "calls (RunRx clk msg) = [(FromRx, clk, msg)]" | "calls e = []"

text \<open>
  A run has served its jobs: the closure was run on exactly the packets that were taken from the two
  input queues, in order, and every packet went where its group says.
\<close>

definition inputs_served ::
  "('q \<Rightarrow> 'm pdu_scheme list) \<Rightarrow> 'm event list \<Rightarrow> (call \<times> 'm pdu_scheme) list \<Rightarrow> ('st, 'w, 'q, 'm) node \<Rightarrow> ('st, 'w, 'q, 'm) node \<Rightarrow> bool" where
  "inputs_served items es jobs n n' \<longleftrightarrow>
     subseq (map fst jobs) (concat (map calls es)) \<and>
     taken FromRx jobs @ items (n_rx n') = items (n_rx n) @ concat (map rx_arrived es) \<and>
     taken FromTick jobs @ items (n_ticks n') = items (n_ticks n) @ concat (map tick_arrived es)"

definition outputs_served ::
  "('m pdu_scheme \<times> nat) list \<Rightarrow> ('st, 'w, 'q, 'm) node \<Rightarrow> ('st, 'w, 'q, 'm) node \<Rightarrow> bool" where
  "outputs_served outs n n' \<longleftrightarrow>
     (\<forall>x \<in> set outs. snd x \<le> 2) \<and>
     sent_by Pipe2Pci n' = sent_by Pipe2Pci n @ grouped 1 outs \<and>
     n_kni_tx n' = n_kni_tx n @ grouped 2 outs \<and>
     n_dropped n' = n_dropped n @ grouped 0 outs"

definition passed_on ::
  "('q \<Rightarrow> 'm pdu_scheme list) \<Rightarrow> 'm event list \<Rightarrow> 'm pdu_scheme list \<Rightarrow> ('st, 'w, 'q, 'm) node \<Rightarrow> ('st, 'w, 'q, 'm) node \<Rightarrow> bool" where
  "passed_on items es made n n' \<longleftrightarrow>
     sent_by Kni2Pci n' @ items (n_kni_rx n') = sent_by Kni2Pci n @ items (n_kni_rx n) @ concat (map kni_arrived es) \<and>
     p_producer (n_pipe n') = p_producer (n_pipe n) @ made \<and>
     sent_by BypassPipe n' @ items (n_bypass n') = sent_by BypassPipe n @ items (n_bypass n) @ made"

lemmas served_defs = inputs_served_def outputs_served_def passed_on_def

lemma append_chain:
  assumes "a' @ b' = a @ b @ c" and "a'' @ b'' = a' @ b' @ d"
  shows "a'' @ b'' = a @ b @ c @ d"
  using assms(1) unfolding assms(2) by (metis append.assoc)

lemma inputs_served_trans:
  assumes "inputs_served items es jobs n n'" and "inputs_served items fs kobs n' n''"
  shows "inputs_served items (es @ fs) (jobs @ kobs) n n''"
  using assms by (auto simp: inputs_served_def list_emb_append_mono)

lemma outputs_served_trans:
  assumes "outputs_served outs n n'" and "outputs_served pouts n' n''"
  shows "outputs_served (outs @ pouts) n n''"
  using assms by (auto simp: outputs_served_def)

lemma passed_on_trans:
  assumes "passed_on items es made n n'" and "passed_on items fs rest n' n''"
  shows "passed_on items (es @ fs) (made @ rest) n n''"
  using assms by (auto simp: passed_on_def intro: append_chain)

text \<open>All of it, for one run.\<close>

definition served ::
  "('cr, 'st, 'w, 'm, 'z) net_lib_scheme \<Rightarrow> 'm pcfg \<Rightarrow> ('q \<Rightarrow> 'm pdu_scheme list) \<Rightarrow> 'm event list \<Rightarrow>
   ('st, 'w, 'q, 'm) node \<Rightarrow> ('st, 'w, 'q, 'm) node \<Rightarrow> bool" where
  "served X cfg items es n n' \<longleftrightarrow>
     (\<exists>jobs outs made. serve X cfg jobs (n_pipe n) = Some (Inr (outs, n_pipe n')) \<and>
        inputs_served items es jobs n n' \<and> outputs_served outs n n' \<and> passed_on items es made n n')"

lemma served_refl: "served X cfg items [] n n"
  unfolding served_def by (intro exI [of _ "[]"]) (simp add: served_defs)

lemma served_trans:
  assumes "served X cfg items es n n'" and "served X cfg items fs n' n''"
  shows "served X cfg items (es @ fs) n n''"
proof -
  obtain js os ms where a: "serve X cfg js (n_pipe n) = Some (Inr (os, n_pipe n'))"
    "inputs_served items es js n n'" "outputs_served os n n'" "passed_on items es ms n n'"
    using assms(1) unfolding served_def by blast
  obtain ks qs ns where b: "serve X cfg ks (n_pipe n') = Some (Inr (qs, n_pipe n''))"
    "inputs_served items fs ks n' n''" "outputs_served qs n' n''" "passed_on items fs ns n' n''"
    using assms(2) unfolding served_def by blast
  show ?thesis
    unfolding served_def
    using serve_append [OF a(1) b(1)] inputs_served_trans [OF a(2) b(2)] outputs_served_trans [OF a(3) b(3)]
      passed_on_trans [OF a(4) b(4)] by blast
qed

section \<open>Every event serves at most one job\<close>

lemma graph_okD:
  assumes "graph_ok G items"
  shows "items (deliver G p q) = items q @ [p]"
    and "receive G q = (None, q') \<Longrightarrow> items q = [] \<and> items q' = []"
    and "receive G q = (Some p, q') \<Longrightarrow> items q = p # items q'"
  using assms by (auto simp: graph_ok_def split: list.splits) (metis fst_conv snd_conv list.exhaust option.distinct(1) option.inject)+

lemma deliver_all: "graph_ok G items \<Longrightarrow> items (fold (deliver G) ps q) = items q @ ps"
  by (induction ps arbitrary: q) (simp_all add: graph_okD(1))

lemma l4_task_ok:
  assumes inv: "pipe_inv X cfg ent (n_pipe n)" and env: "env_ok X cfg" and wh: "wheel_ok X ent" "wheel_catches_up X lag"
    and G: "graph_ok G items" and inp: "input_ok X cfg ent p (n_pipe n)"
  shows "\<exists>n' p' g made. l4_task X G cfg clk msg p n = Some (Inr n') \<and> pipe_inv X cfg ent (n_pipe n') \<and>
    n_rx n' = n_rx n \<and> n_ticks n' = n_ticks n \<and> serve X cfg [((s, clk, msg), p)] (n_pipe n) = Some (Inr ([(p', g)], n_pipe n')) \<and>
    outputs_served [(p', g)] n n' \<and> passed_on items [] made n n'"
proof -
  obtain W p' g where r: "delayed_binding_closure X cfg clk msg p (n_pipe n) = Some (Inr (W, p', g))" "pipe_inv X cfg ent W" "g \<le> 2"
    using closure_ok [OF inv env wh inp, of clk msg] by blast
  obtain made where made: "p_producer W = p_producer (n_pipe n) @ made" using closure_producer [OF r(1)] by blast
  have s: "serve X cfg [((s, clk, msg), p)] (n_pipe n) = Some (Inr ([(p', g)], W))" using r(1) by simp
  have e: "enqueued (n_pipe n) W = made" by (simp add: enqueued_def made)
  consider "g = 0" | "g = 1" | "g = 2" using r(3) by linarith
  then show ?thesis
    using r(1,2) s made
    by cases (auto simp: l4_task_def l4groups_def e served_defs sent_by_def deliver_all [OF G] intro!: exI [of _ p'] exI [of _ g] exI [of _ made])
qed

text \<open>An event with no call of the closure, and one with a call on the packet that was taken.\<close>

lemma no_call:
  assumes "n_pipe n' = n_pipe n" and "inputs_served items es [] n n'" and "outputs_served [] n n'" and "passed_on items es [] n n'"
  shows "served X cfg items es n n'"
  unfolding served_def using assms by (intro exI [of _ "[]"]) simp

lemma run_rx_ok:
  assumes inv: "pipe_inv X cfg ent (n_pipe n)" and env: "env_ok X cfg" and wh: "wheel_ok X ent" "wheel_catches_up X lag"
    and G: "graph_ok G items" and ok: "event_ok X G cfg ent (RunRx clk msg) n"
  shows "\<exists>n'. run_rx X G cfg clk msg n = Some (Inr n') \<and> pipe_inv X cfg ent (n_pipe n') \<and> served X cfg items [RunRx clk msg] n n'"
proof -
  obtain o' q where r: "receive G (n_rx n) = (o', q)" by fastforce
  show ?thesis
  proof (cases o')
    case None
    then have "run_rx X G cfg clk msg n = Some (Inr (n\<lparr>n_rx := q\<rparr>))" using r by (simp add: run_rx_def)
    moreover have "served X cfg items [RunRx clk msg] n (n\<lparr>n_rx := q\<rparr>)"
      using graph_okD(2) [OF G] r None by (intro no_call) (simp_all add: served_defs)
    ultimately show ?thesis using inv by simp
  next
    case (Some p)
    let ?n = "n\<lparr>n_rx := q\<rparr>"
    have "pipe_inv X cfg ent (n_pipe ?n)" "input_ok X cfg ent p (n_pipe ?n)" using inv ok Some r by simp_all
    then obtain n' p' g made where n': "l4_task X G cfg clk msg p ?n = Some (Inr n')" "pipe_inv X cfg ent (n_pipe n')"
      "n_rx n' = q" "n_ticks n' = n_ticks n" "serve X cfg [((FromRx, clk, msg), p)] (n_pipe n) = Some (Inr ([(p', g)], n_pipe n'))"
      "outputs_served [(p', g)] ?n n'" "passed_on items [] made ?n n'"
      using l4_task_ok [OF _ env wh G, of ?n p clk msg FromRx] by auto
    have "inputs_served items [RunRx clk msg] [((FromRx, clk, msg), p)] n n'"
      using n'(3,4) graph_okD(3) [OF G] r Some by (simp add: inputs_served_def)
    moreover have "outputs_served [(p', g)] n n'" "passed_on items [RunRx clk msg] made n n'"
      using n'(6,7) by (simp_all add: served_defs)
    ultimately have "served X cfg items [RunRx clk msg] n n'" unfolding served_def using n'(5) by blast
    then show ?thesis using n'(1,2) r Some by (simp add: run_rx_def)
  qed
qed

lemma run_tick_ok:
  assumes inv: "pipe_inv X cfg ent (n_pipe n)" and env: "env_ok X cfg" and wh: "wheel_ok X ent" "wheel_catches_up X lag"
    and G: "graph_ok G items" and ok: "event_ok X G cfg ent (RunTick clk msg) n"
  shows "\<exists>n'. run_tick X G cfg clk msg n = Some (Inr n') \<and> pipe_inv X cfg ent (n_pipe n') \<and> served X cfg items [RunTick clk msg] n n'"
proof -
  obtain o' q where r: "receive G (n_ticks n) = (o', q)" by fastforce
  show ?thesis
  proof (cases o')
    case None
    then have "run_tick X G cfg clk msg n = Some (Inr (n\<lparr>n_ticks := q\<rparr>))" using r by (simp add: run_tick_def)
    moreover have "served X cfg items [RunTick clk msg] n (n\<lparr>n_ticks := q\<rparr>)"
      using graph_okD(2) [OF G] r None by (intro no_call) (simp_all add: served_defs)
    ultimately show ?thesis using inv by simp
  next
    case (Some p)
    let ?n = "n\<lparr>n_ticks := q\<rparr>"
    have "pipe_inv X cfg ent (n_pipe ?n)" "input_ok X cfg ent p (n_pipe ?n)" using inv ok Some r by simp_all
    then obtain n' p' g made where n': "l4_task X G cfg clk msg p ?n = Some (Inr n')" "pipe_inv X cfg ent (n_pipe n')"
      "n_rx n' = n_rx n" "n_ticks n' = q" "serve X cfg [((FromTick, clk, msg), p)] (n_pipe n) = Some (Inr ([(p', g)], n_pipe n'))"
      "outputs_served [(p', g)] ?n n'" "passed_on items [] made ?n n'"
      using l4_task_ok [OF _ env wh G, of ?n p clk msg FromTick] by auto
    have "inputs_served items [RunTick clk msg] [((FromTick, clk, msg), p)] n n'"
      using n'(3,4) graph_okD(3) [OF G] r Some by (simp add: inputs_served_def)
    moreover have "outputs_served [(p', g)] n n'" "passed_on items [RunTick clk msg] made n n'"
      using n'(6,7) by (simp_all add: served_defs)
    ultimately have "served X cfg items [RunTick clk msg] n n'" unfolding served_def using n'(5) by blast
    then show ?thesis using n'(1,2) r Some by (simp add: run_tick_def)
  qed
qed

lemma run_bypass_ok:
  assumes "graph_ok G items"
  shows "n_pipe (run_bypass G n) = n_pipe n" "served X cfg items [RunBypass] n (run_bypass G n)"
  using graph_okD(2,3) [OF assms]
  by (auto simp: run_bypass_def served_defs sent_by_def intro!: no_call split: prod.splits option.splits)

lemma run_kni2pci_ok:
  assumes "graph_ok G items"
  shows "n_pipe (run_kni2pci G n) = n_pipe n" "served X cfg items [RunKni2Pci] n (run_kni2pci G n)"
  using graph_okD(2,3) [OF assms]
  by (auto simp: run_kni2pci_def served_defs sent_by_def intro!: no_call split: prod.splits option.splits)

lemma node_event_ok:
  assumes inv: "pipe_inv X cfg ent (n_pipe n)" and env: "env_ok X cfg" and wh: "wheel_ok X ent" "wheel_catches_up X lag"
    and G: "graph_ok G items" and ok: "event_ok X G cfg ent e n"
  shows "\<exists>n'. node_event X G cfg e n = Some (Inr n') \<and> pipe_inv X cfg ent (n_pipe n') \<and> served X cfg items [e] n n'"
proof (cases e)
  case (RunTick clk msg)
  then show ?thesis using run_tick_ok [OF inv env wh G] ok by simp
next
  case (RunRx clk msg)
  then show ?thesis using run_rx_ok [OF inv env wh G] ok by simp
next
  case RunBypass
  then show ?thesis using inv by (simp add: run_bypass_ok [OF G])
next
  case RunKni2Pci
  then show ?thesis using inv by (simp add: run_kni2pci_ok [OF G])
qed (use inv graph_okD(1) [OF G] in \<open>auto simp: served_defs intro!: no_call\<close>)

lemma node_run_ok:
  assumes "pipe_inv X cfg ent (n_pipe n)" and env: "env_ok X cfg" and wh: "wheel_ok X ent" "wheel_catches_up X lag"
    and G: "graph_ok G items" and "run_ok X G cfg ent es n"
  shows "\<exists>n'. node_run X G cfg es n = Some (Inr n') \<and> pipe_inv X cfg ent (n_pipe n') \<and> served X cfg items es n n'"
  using assms(1,6)
proof (induction es arbitrary: n)
  case Nil
  then show ?case by (simp add: served_refl)
next
  case (Cons e es)
  obtain n1 where n1: "node_event X G cfg e n = Some (Inr n1)" "pipe_inv X cfg ent (n_pipe n1)" "served X cfg items [e] n n1"
    using node_event_ok [OF Cons.prems(1) env wh G] Cons.prems(2) by (metis run_ok.simps(2))
  have "run_ok X G cfg ent es n1" using Cons.prems(2) n1(1) by simp
  from Cons.IH [OF n1(2) this] obtain n2 where "node_run X G cfg es n1 = Some (Inr n2)" "pipe_inv X cfg ent (n_pipe n2)"
    "served X cfg items es n1 n2" by blast
  then show ?case using n1(1) served_trans [OF n1(3)] by auto
qed

end
