(* ===== verification/Typing.thy ===== *)
theory Typing
  imports Graph
begin

text \<open>
  The types that the bytes of a connection stand for. A connection stores its two TCP states as bytes
  and converts them back with \<open>TcpState::from\<close>; a connection is well typed if both bytes are codes of
  states, so that the conversion never meets a byte that is not one. Every operation of the manager
  and every step of the pipeline keeps all connections well typed and the table at its size, whatever
  packets arrive, with or without detailed records.
\<close>

definition con_typed :: "'z lib_scheme \<Rightarrow> 'm conn \<Rightarrow> bool" where
  "con_typed X c \<longleftrightarrow> client_state c \<in> range (state_as_u8 X) \<and> server_state c \<in> range (state_as_u8 X)"

definition table_typed :: "'z lib_scheme \<Rightarrow> nat \<Rightarrow> ('st, 'm) cmanager \<Rightarrow> bool" where
  "table_typed X k cm \<longleftrightarrow> length (port2con cm) = k \<and> (\<forall>c \<in> set (port2con cm). con_typed X c)"

section \<open>Connections\<close>

lemma con_typed_cong: "client_state c' = client_state c \<Longrightarrow> server_state c' = server_state c \<Longrightarrow> con_typed X c' = con_typed X c"
  by (simp add: con_typed_def)

lemma con_typed_push [simp]:
  "con_typed X c \<Longrightarrow> con_typed X (c\<lparr>client_state := state_as_u8 X s\<rparr>)"
  "con_typed X c \<Longrightarrow> con_typed X (c\<lparr>server_state := state_as_u8 X s\<rparr>)"
  by (simp_all add: con_typed_def)

lemma con_typed_upd [simp]:
  "con_typed X (c\<lparr>c_seqn := a\<rparr>) = con_typed X c" "con_typed X (c\<lparr>seqn := a\<rparr>) = con_typed X c"
  "con_typed X (c\<lparr>wheel_slot_and_index := k\<rparr>) = con_typed X c" "con_typed X (con_release c) = con_typed X c"
  by (simp_all add: con_typed_def con_release_def)

lemma con_typed_new [simp]: "con_typed X (con_new X)" "con_typed X (con_initialize X s p c)"
  by (simp_all add: con_typed_def con_new_def)

lemma log_typed:
  "c_push_state X t s (c, h) = Inr (c', h') \<Longrightarrow> con_typed X c \<Longrightarrow> con_typed X c'"
  "s_push_state X t s (c, h) = Inr (c', h') \<Longrightarrow> con_typed X c \<Longrightarrow> con_typed X c'"
  "set_release_cause X r (c, h) = Inr (c', h') \<Longrightarrow> con_typed X c \<Longrightarrow> con_typed X c'"
  "s_set_release_cause X r (c, h) = Inr (c', h') \<Longrightarrow> con_typed X c \<Longrightarrow> con_typed X c'"
  "s_init X (c, h) = Inr (c', h') \<Longrightarrow> con_typed X c \<Longrightarrow> con_typed X c'"
  by (auto dest!: log_conn)

section \<open>The table\<close>

lemma table_typed_store:
  "table_typed X k cm \<Longrightarrow> con_typed X c \<Longrightarrow> table_typed X k (cm\<lparr>port2con := (port2con cm)[i := c]\<rparr>)"
  using set_update_subset_insert [of "port2con cm" i c] by (auto simp: table_typed_def)

lemma table_typed_cong: "port2con cm' = port2con cm \<Longrightarrow> table_typed X k cm' = table_typed X k cm"
  by (simp add: table_typed_def)

lemma get_mut_con_typed:
  "get_mut_con X cm p = Inr i \<Longrightarrow> table_typed Y k cm \<Longrightarrow> con_typed Y (port2con cm ! i)"
  by (auto simp: get_mut_con_def bindR_eq_Inr indexR_eq_Inr table_typed_def)

lemma put_con_typed:
  "table_typed X k cm \<Longrightarrow> con_typed X (fst ch) \<Longrightarrow> table_typed X k (put_con i ch cm)"
  using table_typed_store [of X k cm "fst ch" i] by (auto simp: put_con_def table_typed_def split: prod.splits)

lemma insert_typed:
  assumes "get_mut_or_insert X s cm = Inr (r, cm')" and "table_typed X k cm"
  shows "table_typed X k cm' \<and> (\<forall>i. r = Some i \<longrightarrow> con_typed X (port2con cm' ! i))"
proof (cases "sock2port cm s")
  case (Some port)
  then show ?thesis using assms by (auto simp: get_mut_or_insert_def bindR_eq_Inr dest: get_mut_con_typed)
next
  case None
  show ?thesis
  proof (cases "free_ports cm")
    case Nil
    then show ?thesis using None assms by (auto simp: get_mut_or_insert_def)
  next
    case (Cons port rest)
    obtain i c h where i: "get_mut_con X cm port = Inr i" "r = Some i" "port2con cm' = (port2con cm)[i := c]"
      and c: "(if detailed_records cm then con_initialize_with_details X s port (record_store cm) (port2con cm ! i) (rc_heap cm)
        else Inr (con_initialize X s port (port2con cm ! i), rc_heap cm)) = Inr (c, h)"
      using assms(1) None Cons by (auto simp: get_mut_or_insert_def bindR_eq_Inr)
    have ct: "con_typed X c"
      using c by (auto simp: con_initialize_with_details_def Let_def bindR_eq_Inr con_typed_def split: if_splits prod.splits)
    have len: "i < length (port2con cm)" using i(1) by (auto simp: get_mut_con_def bindR_eq_Inr indexR_eq_Inr)
    have "table_typed X k cm'" using table_typed_store [OF assms(2) ct, of i] i(3) by (simp add: table_typed_def)
    then show ?thesis using ct i(2,3) len by simp
  qed
qed

lemma release_port_typed:
  assumes "release_port X p (cm, w) = Inr (cm', w')" and "table_typed X k cm"
  shows "table_typed X k cm'"
proof -
  obtain i where i: "get_mut_con X cm p = Inr i" "port2con cm' = port2con cm \<or> port2con cm' = (port2con cm)[i := con_release (port2con cm ! i)]"
    using assms(1) by (auto simp: release_port_def bindR_eq_Inr Let_def split: if_splits prod.splits option.splits)
  have "con_typed X (con_release (port2con cm ! i))" using get_mut_con_typed [OF i(1) assms(2)] by simp
  from table_typed_store [OF assms(2) this, of i] show ?thesis using i(2) assms(2) by (auto simp: table_typed_def)
qed

lemma timeout_port_typed:
  assumes "timeout_port X now p cm = Inr cm'" and "table_typed X k cm"
  shows "table_typed X k cm'"
proof -
  obtain o' where o: "get_mut_by_port X p cm = Inr o'" using assms(1) by (auto simp: timeout_port_def bindR_eq_Inr)
  show ?thesis
  proof (cases o')
    case None
    then show ?thesis using assms o by (simp add: timeout_port_def)
  next
    case (Some i)
    have i: "get_mut_con X cm p = Inr i" using o Some by (auto simp: get_mut_by_port_def bindR_eq_Inr split: if_splits)
    obtain c1 h1 c h where c: "set_release_cause X Timeout (port2con cm ! i, rc_heap cm) = Inr (c1, h1)"
      "c_push_state X now Closed (c1, h1) = Inr (c, h)" and cm': "port2con cm' = (port2con cm)[i := con_release c]"
      using assms(1) unfolding timeout_port_def o Some by (auto simp: bindR_eq_Inr)
    have "con_typed X (con_release c)"
      using log_typed(1) [OF c(2)] log_typed(3) [OF c(1)] get_mut_con_typed [OF i assms(2)] by simp
    from table_typed_store [OF assms(2) this, of i] show ?thesis using cm' by (simp add: table_typed_def)
  qed
qed

lemma timeout_drain_typed:
  "timeout_drain X clk ps cm = Inr cm' \<Longrightarrow> table_typed X k cm \<Longrightarrow> table_typed X k cm'"
  by (induction X clk ps cm rule: timeout_drain.induct)
    (auto simp: bindR_eq_Inr split: if_splits dest: timeout_port_typed)

lemma release_timeouts_typed:
  assumes "release_timeouts X now clk cm w = Some r"
  shows "\<forall>cm' w'. r = Inr (cm', w') \<longrightarrow> table_typed X k cm \<longrightarrow> table_typed X k cm'"
  by (rule release_timeouts.raw_induct [OF _ assms,
        where P = "\<lambda>X now clk cm w r. \<forall>cm' w'. r = Inr (cm', w') \<longrightarrow> table_typed X k cm \<longrightarrow> table_typed X k cm'"])
    (auto split: prod.splits sum.splits if_splits dest: timeout_drain_typed)

lemma fetch_typed: "fetch_c_records X cm = (r, cm') \<Longrightarrow> table_typed Y k cm \<Longrightarrow> table_typed Y k cm'"
  by (auto simp: fetch_c_records_def Let_def table_typed_def split: if_splits)

section \<open>The steps of the state machine\<close>

lemma on_con_typed:
  "on_con (c_push_state X t s) f = Inr f' \<Longrightarrow> con_typed X (f_con f) \<Longrightarrow> con_typed X (f_con f')"
  "on_con (s_push_state X t s) f = Inr f' \<Longrightarrow> con_typed X (f_con f) \<Longrightarrow> con_typed X (f_con f')"
  "on_con (set_release_cause X r) f = Inr f' \<Longrightarrow> con_typed X (f_con f) \<Longrightarrow> con_typed X (f_con f')"
  "on_con (s_set_release_cause X r) f = Inr f' \<Longrightarrow> con_typed X (f_con f) \<Longrightarrow> con_typed X (f_con f')"
  "on_con (s_init X) f = Inr f' \<Longrightarrow> con_typed X (f_con f) \<Longrightarrow> con_typed X (f_con f')"
  by (auto simp: on_con_def bindR_eq_Inr dest: log_typed)

lemma client_syn_received_states:
  "client_state (snd (client_syn_received X t p c)) = client_state c" "server_state (snd (client_syn_received X t p c)) = server_state c"
  by (simp_all add: client_syn_received_def Let_def)

lemma client_syn_typed: "client_syn X cfg clk old_c f = Inr f' \<Longrightarrow> con_typed X (f_con f) \<Longrightarrow> con_typed X (f_con f')"
  by (auto simp: client_syn_def Let_def bindR_eq_Inr case_prod_unfold client_syn_received_states
      con_typed_cong [OF client_syn_received_states] split: if_splits dest!: on_con_typed)

lemma client_fin_typed: "client_fin X clk tcp old_s f = Inr f' \<Longrightarrow> con_typed X (f_con f) \<Longrightarrow> con_typed X (f_con f')"
  by (auto simp: client_fin_def client_fin_passive_def client_fin_active_def client_fin_unbound_def Let_def bindR_eq_Inr
      split: if_splits dest!: on_con_typed)

lemma client_ack4fin_typed: "client_ack4fin X clk old_c old_s f = Inr f' \<Longrightarrow> con_typed X (f_con f) \<Longrightarrow> con_typed X (f_con f')"
  by (cases old_s; cases old_c) (auto simp: client_ack4fin_def Let_def bindR_eq_Inr dest!: on_con_typed)

lemma select_server_typed:
  assumes "select_keeps_states cfg" and "select_server X m srvs (f_select_server cfg) syn p c = Inr (p', c')" and "con_typed X c"
  shows "con_typed X c'"
proof -
  have "client_state d = client_state c \<and> server_state d = server_state c"
    if "f_select_server cfg (c\<lparr>payload_packet := Some q\<rparr>) = Inr d" for d q
    using assms(1) [unfolded select_keeps_states_def, rule_format, OF _ that] by simp
  then have "client_state c' = client_state c \<and> server_state c' = server_state c"
    using assms(2) by (auto simp: select_server_def Let_def bindR_eq_Inr case_prod_unfold)
  then show ?thesis using assms(3) con_typed_cong by blast
qed

lemma client_payload_typed:
  assumes "select_keeps_states cfg" and "client_first_payload X cfg clk f = Inr f'" and "con_typed X (f_con f)"
  shows "con_typed X (f_con f')"
  using assms(2,3)
  by (auto simp: client_first_payload_def Let_def bindR_eq_Inr case_prod_unfold
      dest!: select_server_typed [OF assms(1)] on_con_typed)

lemma client_tcp_typed:
  assumes "select_keeps_states cfg" and "client_tcp X cfg clk tcp old_c old_s f = Inr f'" and "con_typed X (f_con f)"
  shows "con_typed X (f_con f')"
  using assms(2,3)
  by (auto simp: client_tcp_def client_handshake_ack_def client_rst_def client_final_ack_def client_unexpected_def Let_def bindR_eq_Inr
      split: if_splits dest!: on_con_typed
      dest: client_fin_typed client_syn_typed client_payload_typed [OF assms(1)] client_ack4fin_typed)

lemma client_to_server_typed:
  assumes "process_keeps_states cfg" and "client_to_server X m srvs (f_process_payload_c_s cfg) p c = Inr (p', c')" and "con_typed X c"
  shows "con_typed X c'"
proof -
  have "client_state c' = client_state c \<and> server_state c' = server_state c"
    using client_to_server_states [OF assms(2)] assms(1) by (auto simp: process_keeps_states_def)
  then show ?thesis using assms(3) con_typed_cong by blast
qed

lemma release_if_closed_con [simp]: "f_con (release_if_closed X f) = f_con f"
  by (simp add: release_if_closed_def)

lemma client_step_typed:
  assumes "select_keeps_states cfg" "process_keeps_states cfg" and "client_step X cfg clk tcp f = Inr f'" and "con_typed X (f_con f)"
  shows "con_typed X (f_con f')"
  using assms(3,4)
  by (auto simp: client_step_def Let_def bindR_eq_Inr split: if_splits
      dest!: client_tcp_typed [OF assms(1)] dest: client_to_server_typed [OF assms(2)])

lemma server_synack_received_states:
  "server_synack_received X p c pq = Inr (p', c', pq') \<Longrightarrow> client_state c' = client_state c \<and> server_state c' = server_state c"
  by (auto simp: server_synack_received_def Let_def bindR_eq_Inr split: option.splits)

lemma server_synack_typed: "server_synack X clk old_s f = Inr f' \<Longrightarrow> con_typed X (f_con f) \<Longrightarrow> con_typed X (f_con f')"
  by (auto simp: server_synack_def Let_def bindR_eq_Inr split: if_splits dest!: on_con_typed server_synack_received_states)
    (metis con_typed_cong)

lemma server_fin_typed: "server_fin X clk tcp old_c f = Inr f' \<Longrightarrow> con_typed X (f_con f) \<Longrightarrow> con_typed X (f_con f')"
  by (auto simp: server_fin_def Let_def bindR_eq_Inr split: if_splits dest!: on_con_typed)

lemma server_ack4fin_typed: "server_ack4fin X clk tcp old_c f = Inr f' \<Longrightarrow> con_typed X (f_con f) \<Longrightarrow> con_typed X (f_con f')"
  by (cases old_c) (auto simp: server_ack4fin_def Let_def bindR_eq_Inr split: if_splits dest!: on_con_typed)

lemma server_to_client_states:
  "server_to_client X m p c = Inr (p', c') \<Longrightarrow> client_state c' = client_state c \<and> server_state c' = server_state c"
  by (auto simp: server_to_client_def Let_def bindR_eq_Inr split: if_splits)

lemma server_tcp_typed: "server_tcp X clk tcp old_c old_s f = Inr f' \<Longrightarrow> con_typed X (f_con f) \<Longrightarrow> con_typed X (f_con f')"
  by (auto simp: server_tcp_def split: if_splits dest: server_synack_typed server_fin_typed server_ack4fin_typed)

lemma server_step_typed: "server_step X cfg clk tcp f = Inr f' \<Longrightarrow> con_typed X (f_con f) \<Longrightarrow> con_typed X (f_con f')"
  by (auto simp: server_step_def Let_def bindR_eq_Inr split: if_splits dest!: server_tcp_typed server_to_client_states)
    (metis con_typed_cong)+

section \<open>The closure and runs\<close>

lemma enter_con [simp]: "f_con (enter i cm p W) = port2con cm ! i"
  by (simp add: enter_def)

lemma leave_cm [simp]: "p_cm (leave i cm W f) = put_con i (f_con f, f_heap f) cm"
  by (simp add: leave_def)

lemma get_mut_by_sock_typed:
  "get_mut_by_sock X s cm = Inr (Some i) \<Longrightarrow> table_typed Y k cm \<Longrightarrow> con_typed Y (port2con cm ! i)"
  by (auto simp: get_mut_by_sock_def bindR_eq_Inr split: option.splits dest: get_mut_con_typed)

lemma get_mut_by_port_typed:
  "get_mut_by_port X q cm = Inr (Some i) \<Longrightarrow> table_typed Y k cm \<Longrightarrow> con_typed Y (port2con cm ! i)"
  by (auto simp: get_mut_by_port_def bindR_eq_Inr split: if_splits dest: get_mut_con_typed)

lemma handle_client_typed:
  assumes "select_keeps_states cfg" "process_keeps_states cfg" and "handle_client X cfg clk p W = Inr (W', x)" and "table_typed X k (p_cm W)"
  shows "table_typed X k (p_cm W')"
proof -
  let ?s = "(ip_src (ip_h p), src_port (tcp_h p))"
  obtain r cm where l: "(if syn_flag (tcp_h p) then get_mut_or_insert X ?s (p_cm W)
      else bindR (get_mut_by_sock X ?s (p_cm W)) (\<lambda>r. Inr (r, p_cm W))) = Inr (r, cm)"
    and rest: "(case r of None \<Rightarrow> Inr (W\<lparr>p_cm := cm\<rparr>, p, 0, None)
      | Some i \<Rightarrow> bindR (client_step X cfg clk (tcp_h p) (enter i cm p W)) (\<lambda>f.
          Inr (leave i cm W f, f_pdu f, f_group f, f_release f))) = Inr (W', x)"
    using assms(3) by (auto simp: handle_client_def Let_def bindR_eq_Inr)
  have cm: "table_typed X k cm \<and> (\<forall>i. r = Some i \<longrightarrow> con_typed X (port2con cm ! i))"
  proof (cases "syn_flag (tcp_h p)")
    case True
    then show ?thesis using l insert_typed [OF _ assms(4)] by auto
  next
    case False
    then show ?thesis using l assms(4) by (auto simp: bindR_eq_Inr dest: get_mut_by_sock_typed)
  qed
  show ?thesis
  proof (cases r)
    case None
    then show ?thesis using rest cm by auto
  next
    case (Some i)
    then obtain f where f: "client_step X cfg clk (tcp_h p) (enter i cm p W) = Inr f" "W' = leave i cm W f"
      using rest by (auto simp: bindR_eq_Inr)
    have "con_typed X (f_con f)" using client_step_typed [OF assms(1,2) f(1)] cm Some by simp
    then show ?thesis using cm put_con_typed [of X k cm "(f_con f, f_heap f)" i] f(2) by simp
  qed
qed

lemma handle_server_typed:
  assumes "handle_server X cfg clk p W = Inr (W', x)" and "table_typed X k (p_cm W)"
  shows "table_typed X k (p_cm W')"
proof -
  obtain r where r: "get_mut_by_port X (dst_port (tcp_h p)) (p_cm W) = Inr r"
    using assms(1) by (auto simp: handle_server_def Let_def bindR_eq_Inr)
  show ?thesis
  proof (cases r)
    case None
    then show ?thesis using assms r by (simp add: handle_server_def)
  next
    case (Some i)
    then obtain f where f: "server_step X cfg clk (tcp_h p) (enter i (p_cm W) p W) = Inr f" "W' = leave i (p_cm W) W f"
      using assms(1) r by (auto simp: handle_server_def Let_def bindR_eq_Inr)
    have "con_typed X (f_con f)"
      using server_step_typed [OF f(1)] get_mut_by_port_typed [OF r [unfolded Some] assms(2)] by simp
    then show ?thesis using assms(2) put_con_typed [of X k "p_cm W" "(f_con f, f_heap f)" i] f(2) by simp
  qed
qed

lemma handle_timer_typed:
  assumes "handle_timer X cfg clk msg W = Some (Inr W')" and "table_typed X k (p_cm W)"
  shows "table_typed X k (p_cm W')"
proof -
  obtain V t where V: "handle_message X msg (W\<lparr>p_ticks := t\<rparr>) = Inr V"
    and rest: "W' = V \<or> (\<exists>cm w. release_timeouts X (clk 0) (\<lambda>n. clk (Suc n)) (p_cm V) (p_wheel V) = Some (Inr (cm, w)) \<and> p_cm W' = cm)"
    using assms(1) by (fastforce simp: handle_timer_def bindR_eq_Inr split: sum.splits if_splits)
  have "table_typed X k (p_cm V)"
    using V assms(2)
    by (auto simp: handle_message_def send_reply_def Let_def split: option.splits msg_to.splits if_splits prod.splits dest: fetch_typed)
  then show ?thesis using rest release_timeouts_typed [where k = k and X = X] by blast
qed

lemma closure_typed:
  assumes cb: "select_keeps_states cfg" "process_keeps_states cfg"
    and run: "delayed_binding_closure X cfg clk msg p W = Some (Inr (W', p', g))" and ty: "table_typed X k (p_cm W)"
  shows "table_typed X k (p_cm W')"
proof -
  have rel: "table_typed X k (p_cm V')" if "release_connection X r V = Inr V'" "table_typed X k (p_cm V)" for r V V'
    using that by (auto simp: release_connection_def bindR_eq_Inr split: option.splits dest: release_port_typed)
  show ?thesis
    using run ty
    by (auto simp: delayed_binding_closure_def Let_def bindR_eq_Inr split: option.splits if_splits
        dest!: rel handle_timer_typed handle_client_typed [OF cb] handle_server_typed)
qed

lemma l4_task_typed:
  assumes "select_keeps_states cfg" "process_keeps_states cfg" and "l4_task X G cfg clk msg p n = Some (Inr n')"
    and "table_typed X k (p_cm (n_pipe n))"
  shows "table_typed X k (p_cm (n_pipe n'))"
  using assms(3,4)
  by (auto simp: l4_task_def l4groups_def bindR_eq_Inr split: if_splits dest!: closure_typed [OF assms(1,2)])

lemma node_event_typed:
  assumes "select_keeps_states cfg" "process_keeps_states cfg" and "node_event X G cfg e n = Some (Inr n')"
    and "table_typed X k (p_cm (n_pipe n))"
  shows "table_typed X k (p_cm (n_pipe n'))"
  using assms(3,4)
  by (cases e) (auto simp: run_tick_def run_rx_def run_bypass_def run_kni2pci_def Let_def split: list.splits prod.splits option.splits
      dest!: l4_task_typed [OF assms(1,2), where k = k])

lemma node_run_typed:
  assumes "select_keeps_states cfg" "process_keeps_states cfg" and "node_run X G cfg es n = Some (Inr n')"
    and "table_typed X k (p_cm (n_pipe n))"
  shows "table_typed X k (p_cm (n_pipe n'))"
  using assms(3,4)
proof (induction es arbitrary: n)
  case (Cons e es)
  then obtain n1 where n1: "node_event X G cfg e n = Some (Inr n1)" "node_run X G cfg es n1 = Some (Inr n')"
    by (auto split: option.splits sum.splits)
  show ?case by (rule Cons.IH [OF n1(2) node_event_typed [OF assms(1,2) n1(1) Cons.prems(2)]])
qed simp

lemma cm_new_typed: "cm_new X pmask ip base det = Inr cm \<Longrightarrow> table_typed X (unat (NOT pmask) + 1) cm"
  by (auto simp: cm_new_def bindR_eq_Inr table_typed_def con_clone_def)

text \<open>In a well typed connection the bytes and the states they are read as determine each other.\<close>

lemma con_typed_codes:
  assumes "con_typed X c" and "codes_ok X"
  shows "state_as_u8 X (con_client_state X c) = client_state c" and "state_as_u8 X (con_server_state X c) = server_state c"
  using assms by (auto simp: con_typed_def con_client_state_def con_server_state_def)

end
