(* ===== verification/Correct_Graph.thy ===== *)
theory Correct_Graph
  imports Witness_Library Typing
begin

text \<open>
  Correctness of the graph of tasks: whatever the scheduler does and whatever arrives, every packet
  is served once, in the order of its queue, and goes where its group says, and the connections stay
  well typed.
\<close>

section \<open>No packet is lost\<close>

text \<open>
  C8. Every run of the tasks of a pipeline without detailed records, in any order the scheduler may
  choose, with any admissible packets arriving in between, goes through without a panic, and it is a
  sequential run of the packet closure: the closure is called on one job after the other, in the order
  the scheduler calls it. The jobs taken from the network queue, followed by what still waits there,
  are the packets that waited there and those that arrived, in order, and the same holds for the
  ticks; so no packet is lost, doubled or overtaken. Of the packets the closure leaves, those of group
  1 have gone to the network interface, those of group 2 to the kernel and those of group 0 have been
  dropped, in order, and there is no other group. The packets of the kernel reach the network in the
  order they came, and so do exactly the packets that the closure makes itself: those it has enqueued
  are sent or still wait, in order. This is for queues that are first-in-first-out.
\<close>

theorem no_packet_lost:
  assumes "pipe_inv X cfg ent (n_pipe n)" and "env_ok X cfg" and "wheel_ok X ent" and "wheel_catches_up X lag"
    and "graph_ok G items" and "run_ok X G cfg ent es n"
  shows "\<exists>n' jobs outs made. node_run X G cfg es n = Some (Inr n') \<and> pipe_inv X cfg ent (n_pipe n') \<and>
    serve X cfg jobs (n_pipe n) = Some (Inr (outs, n_pipe n')) \<and> subseq (map fst jobs) (concat (map calls es)) \<and>
    taken FromRx jobs @ items (n_rx n') = items (n_rx n) @ concat (map rx_arrived es) \<and>
    taken FromTick jobs @ items (n_ticks n') = items (n_ticks n) @ concat (map tick_arrived es) \<and>
    (\<forall>x \<in> set outs. snd x \<le> 2) \<and>
    sent_by Pipe2Pci n' = sent_by Pipe2Pci n @ grouped 1 outs \<and>
    n_kni_tx n' = n_kni_tx n @ grouped 2 outs \<and>
    n_dropped n' = n_dropped n @ grouped 0 outs \<and>
    sent_by Kni2Pci n' @ items (n_kni_rx n') = sent_by Kni2Pci n @ items (n_kni_rx n) @ concat (map kni_arrived es) \<and>
    p_producer (n_pipe n') = p_producer (n_pipe n) @ made \<and>
    sent_by BypassPipe n' @ items (n_bypass n') = sent_by BypassPipe n @ items (n_bypass n) @ made"
proof -
  obtain n' jobs outs made where "node_run X G cfg es n = Some (Inr n')" "pipe_inv X cfg ent (n_pipe n')"
    "serve X cfg jobs (n_pipe n) = Some (Inr (outs, n_pipe n'))"
    "inputs_served items es jobs n n'" "outputs_served outs n n'" "passed_on items es made n n'"
    using node_run_ok [OF assms] unfolding served_def by blast
  then show ?thesis unfolding served_defs by blast
qed

text \<open>Lists as queues, and an empty node.\<close>

definition G0 :: "(pdu list, unit) graph_api" where
  "G0 = \<lparr>receive = (\<lambda>q. case q of [] \<Rightarrow> (None, []) | p # ps \<Rightarrow> (Some p, ps)), deliver = (\<lambda>p q. q @ [p]),
     no_group = (\<lambda>_. Inl IndexOutOfBounds)\<rparr>"

lemma graph0: "graph_ok G0 (\<lambda>q. q)"
  by (simp add: graph_ok_def G0_def split: list.split)

definition node0 :: "(rstore, wheel0, pdu list, unit) node" where
  "node0 = \<lparr>n_pipe = W0, n_rx = [], n_ticks = [], n_kni_rx = [], n_bypass = [], n_pci_tx = [], n_kni_tx = [], n_dropped = []\<rparr>"

theorem no_packet_lost_witness:
  "\<exists>n' jobs outs. node_run X0 G0 cfg0 [ArriveRx synA, ArriveKni pdu0, RunKni2Pci, RunRx (\<lambda>_. 3) None] node0 = Some (Inr n') \<and>
    serve X0 cfg0 jobs W0 = Some (Inr (outs, n_pipe n')) \<and> taken FromRx jobs @ n_rx n' = [synA] \<and>
    sent_by Pipe2Pci n' = grouped 1 outs \<and> n_dropped n' = grouped 0 outs \<and> sent_by Kni2Pci n' @ n_kni_rx n' = [pdu0]"
proof -
  have ok: "run_ok X0 G0 cfg0 ent0 [ArriveRx synA, ArriveKni pdu0, RunKni2Pci, RunRx (\<lambda>_. 3) None] node0"
    using synA_ok by (simp add: node0_def G0_def run_kni2pci_def split: option.split sum.split)
  have "pipe_inv X0 cfg0 ent0 (n_pipe node0)" using W0_inv by (simp add: node0_def)
  from no_packet_lost [OF this env0 wheel0 catches0 graph0 ok] show ?thesis
    by (elim exE conjE) (intro exI conjI, assumption, simp_all add: node0_def sent_by_def)
qed

section \<open>Types\<close>

text \<open>
  C11. From set-up on, in every run of a pipeline that returns, whatever arrives and in whatever order,
  with or without detailed records, the table of connections keeps its size and all of its
  connections stay well typed: their two state bytes are the codes of the states that they are read
  as, so the conversion from bytes never meets a byte that is not a state.
\<close>

theorem connections_well_typed:
  assumes su: "setup_delayed_proxy X A eng e srvs f1 f2 = Inr (cfg, W, msgs)"
    and cb: "select_keeps_states cfg" "process_keeps_states cfg" and codes: "codes_ok X"
    and start: "n_pipe n = W" and run: "node_run X G cfg es n = Some (Inr n')"
  shows "length (port2con (p_cm (n_pipe n'))) = unat (NOT (env_port_mask e)) + 1 \<and>
    (\<forall>c \<in> set (port2con (p_cm (n_pipe n'))).
      state_as_u8 X (con_client_state X c) = client_state c \<and> state_as_u8 X (con_server_state X c) = server_state c)"
proof -
  obtain flow where "cm_new X (env_port_mask e) (fst flow) (snd flow) (eng_detailed_records eng = Some True) = Inr (p_cm W)"
    using setup_result(1) [OF su] by blast
  from cm_new_typed [OF this] have "table_typed X (unat (NOT (env_port_mask e)) + 1) (p_cm (n_pipe n))" by (simp add: start)
  from node_run_typed [OF cb run this] show ?thesis by (auto simp: table_typed_def con_typed_codes [OF _ codes])
qed

theorem connections_well_typed_witness:
  "\<exists>n'. node_run X0 G0 cfg0 [ArriveRx synA, RunRx (\<lambda>_. 3) None] node0 = Some (Inr n') \<and> length (port2con (p_cm (n_pipe n'))) = 4"
proof -
  obtain W1 p1 where r: "delayed_binding_closure X0 cfg0 (\<lambda>_. 3) None synA W0 = Some (Inr (W1, p1, 1))" by (rule W0_synA)
  then obtain n' where n': "node_run X0 G0 cfg0 [ArriveRx synA, RunRx (\<lambda>_. 3) None] node0 = Some (Inr n')"
    by (simp add: node0_def G0_def run_rx_def l4_task_def l4groups_def)
  have cb: "select_keeps_states cfg0" "process_keeps_states cfg0"
    using env0 callbacks_keep_states by (auto simp: env_ok_def)
  have "n_pipe node0 = W0" by (simp add: node0_def)
  from connections_well_typed [OF setup0 cb codes0 this n'] show ?thesis using n' by (auto simp: penv0_def simp del: node_run.simps)
qed

end
