(* ===== verification/Correct_Limits.thy ===== *)
theory Correct_Limits
  imports Witness_Library
begin

text \<open>
  Where the code stops working as it is meant to: sequence numbers that wrap around, a FIN that
  carries payload, a log that is full, an allocator that has run dry, a timeout that does not fit
  the timer wheel, and a client that comes back too early. Each theorem states what the code does in such a case.
\<close>

section \<open>Sequence numbers\<close>

text \<open>
  C35. The check for re-sent packets compares sequence numbers as plain numbers. When the client's
  numbers wrap around before the server has acknowledged what came before, a FIN that is ahead of the
  last acknowledgement (the signed difference is positive) is taken for a re-sent packet: it is
  forwarded to the server, but the state machine does not see it and the client counts as established.
\<close>

theorem wrapped_fin_not_seen:
  assumes env: "env_ok X cfg" and ord: "state_order_ok X" and fr: "frame_ok cfg q s k w f"
    and st: "sides_of X (f_con f) = (Established, Established)" and fin: "fin_flag tcp"
    and wrap: "0 < sint (seq_num tcp - ackn_p2c (f_con f))" "seq_num tcp < ackn_p2c (f_con f)"
  shows "\<exists>f'. client_step X cfg clk tcp f = Inr f' \<and> f_group f' = 1 \<and> sides_of X (f_con f') = (Established, Established) \<and>
    f_cc f' = f_cc f \<and> f_release f' = f_release f"
proof -
  have pk: "process_keeps_states cfg" using env callbacks_keep_states(2) by (auto simp: env_ok_def)
  have old: "con_client_state X (f_con f) = Established" "con_server_state X (f_con f) = Established"
    using states_of_sides [OF st] by simp_all
  obtain p' c' where fw: "client_to_server X (me cfg) (servers cfg) (f_process_payload_c_s cfg) (f_pdu f) (f_con f) = Inr (p', c')"
    using client_to_server_keeps [OF env fr] by blast
  have "sides_of X c' = (Established, Established)" using client_to_server_sides [OF pk fw] st by simp
  moreover have "client_step X cfg clk tcp f = Inr (f\<lparr>f_pdu := p', f_con := c', f_group := 1\<rparr>)"
    using wrap(2) fw by (simp add: client_step_def client_tcp_def old release_if_closed_def state_order_simps ord Let_def)
  ultimately show ?thesis by simp
qed

lemma frm_upd_ok:
  "frame_ok cfg0 0xC000 (7, 5000) (0, 0) (p_wheel W0) ((frm p c s)\<lparr>f_con := (f_con (frm p c s))\<lparr>ackn_p2c := a\<rparr>\<rparr>)"
  by (rule frame_ok_cong [OF frm_ok [of p c s]])
    (use frame_okD(4-7) [OF frm_ok [of p c s]] in \<open>simp_all add: con_ok_def\<close>)

theorem wrapped_fin_not_seen_witness:
  "\<exists>f'. client_step X0 cfg0 (\<lambda>_. 0) (tcp_h (pktC 0 False True True))
      ((frm pdu0 Established Established)\<lparr>f_con := (f_con (frm pdu0 Established Established))\<lparr>ackn_p2c := 0xFFFFFFF0\<rparr>\<rparr>) = Inr f' \<and>
    sides_of X0 (f_con f') = (Established, Established)"
  using wrapped_fin_not_seen [OF env0 order0 frm_upd_ok [where p = pdu0 and c = Established and s = Established and a = "0xFFFFFFF0"],
      of "tcp_h (pktC 0 False True True)" "\<lambda>_. 0"]
  by (simp add: frm_con) blast

text \<open>
  C36. For a FIN that carries payload the proxy records the sequence number of the packet, not of the
  FIN in it. The server's acknowledgement of everything it was sent then never matches, in whatever
  state the client is: the proxy leaves the connection as it is instead of closing it.
\<close>

theorem fin_with_payload_not_acked:
  assumes net: "net_ok X" and run: "client_to_server X m srvs g p c = Inr (p1, c1)" and fin: "fin_flag (tcp_h p)"
    and n: "0 < n" "n < 2 ^ 16" and rec: "seqn_fin_p2s (f_con f) = seqn_fin_p2s c1"
    and ack: "ack_num tcp = seq_num (tcp_h p1) + of_nat n + 1"
  shows "server_ack4fin X clk tcp old_c f = Inr f"
proof -
  have "seqn_fin_p2s c1 = seq_num (tcp_h p1)"
    using run fin net
    by (auto simp: client_to_server_def Let_def bindR_eq_Inr split: prod.splits if_splits dest!: seq_forward_result)
  moreover have "unat (of_nat n :: u32) = n" using n(2) by (simp add: unat_of_nat)
  then have "(of_nat n :: u32) \<noteq> 0" using n(1) by auto
  ultimately show ?thesis using ack rec by (simp add: server_ack4fin_def)
qed

theorem fin_with_payload_not_acked_witness:
  "server_ack4fin X0 (\<lambda>_. 0) (tcp_h (pktC 505 False True False)) LastAck
     ((frm pdu0 LastAck FinWait2)\<lparr>f_con := (f_con (frm pdu0 LastAck FinWait2))\<lparr>seqn_fin_p2s := 501\<rparr>\<rparr>) =
   Inr ((frm pdu0 LastAck FinWait2)\<lparr>f_con := (f_con (frm pdu0 LastAck FinWait2))\<lparr>seqn_fin_p2s := 501\<rparr>\<rparr>)"
proof -
  let ?p = "(pktC 0 False True True)\<lparr>payload := [1, 2, 3]\<rparr>"
  obtain p1 c1 where r: "client_to_server X0 me0 [srv0, srv1] (\<lambda>c bs _. (c, bs)) ?p (con_new X0) = Inr (p1, c1)"
    "seq_num (tcp_h p1) = 501" "seqn_fin_p2s c1 = 501"
    by (simp add: client_to_server_def X0_def con_server_index_def con_new_def seq_forward_def set_header0_def)
  show ?thesis
    by (rule fin_with_payload_not_acked [OF net0 r(1), where n = 3]) (simp_all add: r)
qed

section \<open>The log of the server\<close>

text \<open>
  C32. With detailed records, a server that repeats its FIN brings the pipeline down: each FIN that
  arrives while the client has not closed adds an entry to the log of seven, so that at most eight of
  them panic.
\<close>

theorem repeated_server_fin_panics:
  assumes "net_ok X" and "payload_size_ok X" and "codes_ok X" and "state_order_ok X" and "store_ok X"
    and "log_frame X (clk 0) n f" and "n \<le> 7" and "fin_flag (tcp_h p)" and "\<not> syn_flag (tcp_h p)"
  shows "\<exists>m \<le> 8. server_packets X cfg clk p m f = Inl IndexOutOfBounds"
  using repeated_fins [where clk = clk and cfg = cfg, OF assms] by (intro exI [of _ "8 - n"]) simp

lemma con_sock_details: "con_sock (c\<lparr>detailed_c := d\<rparr>) = con_sock c"
  by (simp add: con_sock_def)

theorem repeated_server_fin_panics_witness:
  "\<exists>m \<le> 8. server_packets X0 cfg0 (\<lambda>_. 5) (pktC 0 False True True) m
     ((frm pdu0 Established Established)\<lparr>f_con := (f_con (frm pdu0 Established Established))
        \<lparr>detailed_c := Some \<lparr>con_rec = Some 0, d_store = Some 0\<rparr>\<rparr>,
      f_heap := (\<lambda>_. \<lparr>rs_recs = (\<lambda>_. crec0), rs_exts = (\<lambda>_. ext0), rs_next = 1\<rparr>)\<rparr>) = Inl IndexOutOfBounds"
proof (rule repeated_server_fin_panics [where n = 0 and clk = "\<lambda>_. 5", OF net0 size0 codes0 order0 store0])
  have "sides_of X0 ((f_con (frm pdu0 Established Established))\<lparr>detailed_c := d\<rparr>) = (Established, Established)" for d
    using frm_con(1) [of pdu0 Established Established] by (simp add: sides_of_def con_client_state_def con_server_state_def)
  moreover have "con_sock ((f_con (frm pdu0 Established Established))\<lparr>detailed_c := d\<rparr>) = Some (7, 5000)" for d
    using frame_okD(3) [OF frm_ok [of pdu0 Established Established]] by (simp add: con_sock_details)
  ultimately show "log_frame X0 5 0 ((frm pdu0 Established Established)\<lparr>f_con := (f_con (frm pdu0 Established Established))
        \<lparr>detailed_c := Some \<lparr>con_rec = Some 0, d_store = Some 0\<rparr>\<rparr>,
      f_heap := (\<lambda>_. \<lparr>rs_recs = (\<lambda>_. crec0), rs_exts = (\<lambda>_. ext0), rs_next = 1\<rparr>)\<rparr>)"
    using frame_okD(4) [OF frm_ok [of pdu0 Established Established]]
    by (simp add: log_frame_def con_ok_def X0_def ext_wf_def ext0_def crec0_def)
qed simp_all

section \<open>Resources\<close>

text \<open>
  C39. When the packet library has no buffers at the moment the allocator's batch is used up, the
  first payload packet of a connection panics; and the allocator never asks again: it has no packet
  to give from then on, even if the library has buffers again.
\<close>

theorem allocator_never_recovers:
  assumes "pdu_batch (f_alloc f) = Some []" and "new_pdu_array X (alloc_calls (f_alloc f)) = None"
  shows "client_first_payload X cfg clk f = Inl UnwrapNone \<and>
    (let a = snd (get_pdu X (f_alloc f)) in \<forall>Y. get_pdu Y a = (None, a) \<and>
      client_first_payload Y cfg clk (f\<lparr>f_alloc := a\<rparr>) = Inl UnwrapNone)"
  using assms by (simp add: client_first_payload_def get_pdu_def Let_def unwrapR_def)

theorem allocator_never_recovers_witness:
  "client_first_payload (X0\<lparr>new_pdu_array := (\<lambda>_. None)\<rparr>) cfg0 (\<lambda>_. 0)
     ((frm pdu0 Established Listen)\<lparr>f_alloc := \<lparr>pdu_batch = Some [], alloc_calls = 3\<rparr>\<rparr>) = Inl UnwrapNone"
  by (rule conjunct1 [OF allocator_never_recovers]) simp_all

text \<open>
  C40. The check that the configured timeout fits the timer wheel compares milliseconds with cycles. A
  timeout that is too long in cycles, but not too large a number of milliseconds, passes unchanged,
  and every new connection schedules more cycles than the wheel can hold.
\<close>

theorem long_timeout_overflows_wheel:
  assumes "setup_delayed_proxy X A eng e srvs f1 f2 = Inr (cfg, W, msgs)" and "default_or_some A (eng_timeouts eng) = Some t"
    and "t \<le> wheel_max_timeout_cycles A (p_wheel W)" and "unat t * unat (env_cpu_clock e) < 2 ^ 64"
    and "unat (wheel_max_timeout_cycles A (p_wheel W)) < unat t * unat (env_cpu_clock e) div 1000"
    and "detailed_c (f_con f) = None"
  shows "\<exists>f' d. client_syn X cfg clk Closed f = Inr f' \<and>
    wheel_schedule X d (con_port (f_con f)) (f_wheel f) = (wheel_slot_and_index (f_con f'), f_wheel f') \<and>
    wheel_max_timeout_cycles A (p_wheel W) < d"
proof -
  have cfg: "timeouts_established cfg = Some t" "cpu_clock cfg = env_cpu_clock e"
    using assms(1-3) unfolding setup_delayed_proxy_def Let_def by (auto simp: bindR_eq_Inr clamp_timeout_def)
  have mul: "mul_w (overflow_checks X) t (cpu_clock cfg) = Inr (t * cpu_clock cfg)"
    by (rule mul_w_ok) (use assms(4) cfg in simp)
  have "unat (t * cpu_clock cfg div 1000) = unat t * unat (env_cpu_clock e) div 1000"
    using assms(4) cfg by (simp add: unat_div unat_word_ariths)
  then have max: "wheel_max_timeout_cycles A (p_wheel W) < t * cpu_clock cfg div 1000"
    using assms(5) by (simp add: word_less_nat_alt)
  obtain k w where sch: "wheel_schedule X (t * cpu_clock cfg div 1000) (con_port (f_con f)) (f_wheel f) = (k, w)" by fastforce
  have "\<exists>f'. client_syn X cfg clk Closed f = Inr f' \<and> wheel_slot_and_index (f_con f') = k \<and> f_wheel f' = w"
    using assms(6) cfg(1) mul sch
    by (simp add: client_syn_def client_syn_received_def Let_def con_port_def unwrapR_def)
  then show ?thesis using sch max by auto
qed

theorem long_timeout_overflows_wheel_witness:
  "\<exists>cfg (W :: (rstore, wheel0, unit) pipe) msgs f' d.
    setup_delayed_proxy X0 A0 (eng0\<lparr>eng_timeouts := Some (Some 20000)\<rparr>) (penv0\<lparr>env_cpu_clock := 2000000\<rparr>) [srv0, srv1] select0 (\<lambda>c bs _. (c, bs)) =
      Inr (cfg, W, msgs) \<and>
    client_syn X0 cfg (\<lambda>_. 0) Closed (frm synA Closed Listen) = Inr f' \<and>
    wheel_schedule X0 d 0xC000 (p_wheel W0) = (wheel_slot_and_index (f_con f'), f_wheel f') \<and> 20040000 < d"
proof -
  let ?e = "eng0\<lparr>eng_timeouts := Some (Some 20000)\<rparr>" and ?v = "penv0\<lparr>env_cpu_clock := 2000000\<rparr>"
  obtain cfg and W :: "(rstore, wheel0, unit) pipe" and msgs
    where r: "setup_delayed_proxy X0 A0 ?e ?v [srv0, srv1] select0 (\<lambda>c bs _. (c, bs)) = Inr (cfg, W, msgs)"
      and w: "p_wheel W = (20000, [])"
    by (simp add: setup_delayed_proxy_def penv0_def eng0_def A0_def Let_def cm_new_def X0_def add_w_def sub_w_def
        mul_w_def TIMER_WHEEL_RESOLUTION_MS_def send_msg_def assertR_def div_w_def clamp_timeout_def)
  have f: "detailed_c (f_con (frm synA Closed Listen)) = None" "con_port (f_con (frm synA Closed Listen)) = 0xC000"
    "f_wheel (frm synA Closed Listen) = p_wheel W0"
    using frm_ok [of synA Closed Listen] by (simp_all add: frame_ok_def con_port_def)
  have "default_or_some A0 (eng_timeouts ?e) = Some 20000" "wheel_max_timeout_cycles A0 (p_wheel W) = 20040000"
    by (simp_all add: A0_def w)
  then show ?thesis
    using long_timeout_overflows_wheel [OF r, of 20000 "frm synA Closed Listen" "\<lambda>_. 0"] r f by (simp add: penv0_def)
qed

section \<open>Reopening\<close>

text \<open>
  C38. A client that reuses its socket while the server side of its old connection is still closing is
  not answered: the connection is opened again and a SYN-ACK is made for the client, but since the
  server side is past \<open>Established\<close> the SYN-ACK is translated like data and goes to the old server.
\<close>

theorem reopening_syn_misdirected:
  assumes env: "env_ok X cfg" and ord: "state_order_ok X" and fr: "frame_ok cfg q s k w f"
    and st: "sides_of X (f_con f) = (Closed, x)" and x: "x \<in> {FinWait1, FinWait2, Closing}"
    and syn: "syn_flag tcp" "syn_flag (tcp_h (f_pdu f))"
  shows "\<exists>f'. client_step X cfg clk tcp f = Inr f' \<and> sides_of X (f_con f') = (SynSent, x) \<and> f_group f' = 1 \<and>
    syn_flag (tcp_h (f_pdu f')) \<and> ack_flag (tcp_h (f_pdu f')) \<and>
    ip_dst (ip_h (f_pdu f')) = l_ip (servers cfg ! con_server_index (f_con f)) \<and>
    dst_port (tcp_h (f_pdu f')) = l_port (servers cfg ! con_server_index (f_con f))"
proof -
  have ok: "codes_ok X" "net_ok X" "process_ok cfg" "process_keeps_states cfg"
    using env callbacks_keep_states(2) by (auto simp: env_ok_def)
  obtain f1 k' w' where f1: "client_syn X cfg clk Closed f = Inr f1" "frame_ok cfg q s k' w' f1"
    using client_syn_keeps [OF env fr, of clk Closed] by auto
  have sd: "sides_of X (f_con f1) = (SynSent, x)" using client_syn_sides [OF ok(1) f1(1)] st by simp
  have k: "wheel_slot_and_index (f_con f) = k" using fr by (simp add: frame_ok_def)
  note pk = client_syn_packet [OF f1(1) frame_okD(1) [OF fr] k]
  have idx: "server_index (f_con f1) = server_index (f_con f)"
    using arg_cong [OF conjunct2 [OF conjunct2 [OF conjunct2 [OF pk]]], of server_index] by (simp add: client_syn_received_def Let_def)
  have hdr: "syn_flag (tcp_h (f_pdu f1))" "ack_flag (tcp_h (f_pdu f1))"
    using pk ok(2) syn(2) by (simp_all add: client_syn_received_def Let_def)
  let ?d = "fst (f_process_payload_c_s cfg (f_con f1) (payload (f_pdu f1)) (get_tailroom X (f_pdu f1)))"
  obtain p' c' where fw: "client_to_server X (me cfg) (servers cfg) (f_process_payload_c_s cfg) (f_pdu f1) (f_con f1) = Inr (p', c')"
    using client_to_server_keeps [OF env f1(2)] by blast
  have keep: "tcp_payload_size X (f_pdu f1) = 0 \<or> (let d = ?d in c_seqn d = c_seqn (f_con f1) \<and>
      c2s_inserted_bytes d = c2s_inserted_bytes (f_con f1) \<and> server_index d = server_index (f_con f1) \<and> proxy_port d = proxy_port (f_con f1))"
    using ok(3) by (simp add: process_ok_def Let_def)
  note to = client_to_server_packet [OF ok(2) fw keep]
  have "client_tcp X cfg clk tcp Closed x f = Inr f1" using syn(1) f1(1) by (simp add: client_tcp_def)
  then have run: "client_step X cfg clk tcp f = Inr (f1\<lparr>f_pdu := p', f_con := c', f_group := 1\<rparr>)"
    using states_of_sides [OF st] states_of_sides [OF sd] x fw
    by (auto simp: client_step_def release_if_closed_def state_order_simps ord Let_def)
  have "sides_of X c' = (SynSent, x)" using client_to_server_sides [OF ok(4) fw] sd by simp
  then show ?thesis using run to(2,4) hdr idx by (simp add: con_server_index_def)
qed

theorem reopening_syn_misdirected_witness:
  "\<exists>f'. client_step X0 cfg0 (\<lambda>_. 0) (tcp_h (pktC 0 True False False)) (frm (pktC 0 True False False) Closed FinWait2) = Inr f' \<and>
    sides_of X0 (f_con f') = (SynSent, FinWait2) \<and> ip_dst (ip_h (f_pdu f')) = 200"
proof -
  have s: "syn_flag (tcp_h (f_pdu (frm (pktC 0 True False False) Closed FinWait2)))" "FinWait2 \<in> {FinWait1, FinWait2, Closing}"
    "con_server_index (f_con (frm (pktC 0 True False False) Closed FinWait2)) = 0" "l_ip (servers cfg0 ! 0) = 200"
    by (simp_all add: frm_sel) (simp_all add: frm_def con_new_def con_server_index_def cfg0_def srv0_def)
  show ?thesis
    using reopening_syn_misdirected [OF env0 order0 frm_ok frm_con(1) s(2) _ s(1), of "tcp_h (pktC 0 True False False)" "\<lambda>_. 0"] s(3,4)
    by simp blast
qed

end
