(* ===== verification/Main_Program.thy ===== *)
theory Main_Program
  imports Setup
begin

text \<open>
  The program around the library, \<^verbatim>\<open>bin.rs\<close>, with the configuration types of \<^verbatim>\<open>lib.rs\<close>: the list of
  servers built from the configured targets, the callbacks it hands to the pipelines, the choice of
  the proxy mode, the loop that collects the replies of the pipelines at the end, and the evaluation of
  the connection records.

  What netfcts and bincode do is a parameter (\<open>bin_api\<close>): the MAC address of a network interface, the
  decoding of the client's first payload, and reading and sorting a store of records. A \<open>usize\<close> is a
  64-bit word; an \<open>Ipv4Addr\<close> is the number it converts to. The iteration order of a \<open>HashMap\<close> is not
  specified, so a map to be iterated is an association list in any order.
\<close>

section \<open>Configuration\<close>

record target_config =
  t_id :: string
  t_ip :: u32
  t_mac :: "mac_addr option"
  t_linux_if :: "string option"
  t_port :: u16

record configuration =
  targets :: "target_config list"
  engine :: engine_config
  test_size :: "nat option"

text \<open>
  \<open>con_rows\<close> lists the pairs of a client record and a server record of a store, \<open>sort_0_by\<close> is the
  store's sort with the order of a key of the client record.
\<close>

record ('cr, 'st) bin_api =
  get_mac_from_ifname :: "string \<Rightarrow> mac_addr option"
  deserialize_cdata :: "u8 list \<Rightarrow> sock option"
  con_rows :: "'st \<Rightarrow> ('cr \<times> extension) list"
  sort_0_by :: "('cr \<Rightarrow> u16) \<Rightarrow> ('cr \<times> extension) list \<Rightarrow> ('cr \<times> extension) list"
  rec_sock :: "'cr \<Rightarrow> sock"
  rec_release_cause :: "'cr \<Rightarrow> release_cause"
  rec_last_state :: "'cr \<Rightarrow> tcp_state"
  rec_states :: "'cr \<Rightarrow> tcp_state list"
  rec_first_stamp :: "'cr \<Rightarrow> u64 option"
  rec_last_stamp :: "'cr \<Rightarrow> u64 option"

section \<open>Servers\<close>

definition target_mac :: "('cr, 'st) bin_api \<Rightarrow> target_config \<Rightarrow> mac_addr res" where
  "target_mac B srv_cfg =
     (case t_mac srv_cfg of
        Some mac \<Rightarrow> Inr mac
      | None \<Rightarrow> bindR (unwrapR (t_linux_if srv_cfg)) (\<lambda>ifname. unwrapR (get_mac_from_ifname B ifname)))"

fun l234data_from :: "('cr, 'st) bin_api \<Rightarrow> nat \<Rightarrow> target_config list \<Rightarrow> l234data list res" where
  "l234data_from B i [] = Inr []"
| "l234data_from B i (srv_cfg # rest) =
     bindR (target_mac B srv_cfg) (\<lambda>mac.
     bindR (l234data_from B (Suc i) rest) (\<lambda>l234s.
     Inr (\<lparr>l_mac = mac, l_ip = t_ip srv_cfg, l_port = t_port srv_cfg, l_server_id = t_id srv_cfg, l_index = i\<rparr> # l234s)))"

section \<open>Callbacks\<close>

text \<open>The loop of \<open>f_by_payload\<close>: the first server with the wanted address; \<open>i as u8\<close> keeps the low byte.\<close>

fun choose_server :: "sock \<Rightarrow> nat \<Rightarrow> l234data list \<Rightarrow> 'm conn \<Rightarrow> 'm conn" where
  "choose_server reply_socket i [] c = c"
| "choose_server reply_socket i (l234 # rest) c =
     (if l_port l234 = snd reply_socket \<and> l_ip l234 = fst reply_socket then set_server_index (of_nat i) c
      else choose_server reply_socket (Suc i) rest c)"

definition f_by_payload :: "('cr, 'st) bin_api \<Rightarrow> l234data list \<Rightarrow> 'm conn \<Rightarrow> 'm conn res" where
  "f_by_payload B l234s c =
     bindR (unwrapR (payload_packet c)) (\<lambda>p.
     bindR (expectR (deserialize_cdata B (payload p))) (\<lambda>reply_socket.
     Inr (choose_server reply_socket 0 l234s c)))"

text \<open>The alternative callback keeps the last server it chose.\<close>

definition f_round_robbin :: "bool \<Rightarrow> nat \<Rightarrow> u8 \<Rightarrow> 'm conn \<Rightarrow> (u8 \<times> 'm conn) res" where
  "f_round_robbin checks no_servers last_server c =
     bindR (sub_w checks (of_nat no_servers :: u64) 1) (\<lambda>n.
     bindR (if ucast last_server < n then add_w checks last_server 1 else Inr 0) (\<lambda>last_server.
     Inr (last_server, set_server_index last_server c)))"

text \<open>Calls of the alternative callback one after the other, from the first server on.\<close>

fun round_robbins :: "bool \<Rightarrow> nat \<Rightarrow> nat \<Rightarrow> 'm conn \<Rightarrow> (u8 \<times> 'm conn) res" where
  "round_robbins checks no_servers 0 c = Inr (0, c)"
| "round_robbins checks no_servers (Suc k) c =
     bindR (round_robbins checks no_servers k c) (\<lambda>(last_server, _). f_round_robbin checks no_servers last_server c)"

definition f_process_payload :: "'m conn \<Rightarrow> u8 list \<Rightarrow> nat \<Rightarrow> 'm conn \<times> u8 list" where
  "f_process_payload c bytes tailroom = (c, bytes)"

lemma round_robbins_cycle:
  assumes "0 < n" and "n \<le> 256"
  shows "\<exists>d. round_robbins checks n k c = Inr (of_nat (k mod n), d) \<and> (0 < k \<longrightarrow> d = set_server_index (of_nat (k mod n)) c)"
proof (induction k)
  case 0
  then show ?case by simp
next
  case (Suc k)
  then obtain d where IH: "round_robbins checks n k c = Inr (of_nat (k mod n), d)" by blast
  have n: "unat (of_nat n :: u64) = n" "unat (of_nat (k mod n) :: u8) = k mod n" and lt: "k mod n < n"
    using assms by (simp_all add: unat_of_nat order.strict_trans2 [OF mod_less_divisor])
  have one: "(1 :: u64) \<le> of_nat n" using assms n by (simp add: word_le_nat_alt)
  then have sub: "sub_w checks (of_nat n :: u64) 1 = Inr (of_nat n - 1)" by (auto simp: sub_w_def)
  have m1: "unat (of_nat n - 1 :: u64) = n - 1" using n(1) one by (simp add: unat_sub)
  have less: "ucast (of_nat (k mod n) :: u8) < (of_nat n - 1 :: u64) \<longleftrightarrow> k mod n < n - 1"
    using n(2) lt assms(2) by (simp add: word_less_nat_alt m1 unsigned_ucast_eq take_bit_eq_mod)
  show ?case
  proof (cases "k mod n < n - 1")
    case True
    then have "add_w checks (of_nat (k mod n) :: u8) 1 = Inr (of_nat (k mod n) + 1)"
      using assms(2) n(2) by (intro add_w_ok) simp
    moreover have "Suc k mod n = Suc (k mod n)" using True by (simp add: mod_Suc)
    ultimately show ?thesis using True less sub IH by (simp add: f_round_robbin_def add.commute)
  next
    case False
    then have "Suc k mod n = 0" using lt by (simp add: mod_Suc)
    then show ?thesis using False less sub IH by (simp add: f_round_robbin_def)
  qed
qed

section \<open>Installing the pipelines\<close>

text \<open>Only the mode \<open>Delayed\<close>, which is the default, installs pipelines; other modes are reported as an error.\<close>

definition installs_pipelines :: "engine_config \<Rightarrow> bool" where
  "installs_pipelines eng = ((case eng_mode eng of None \<Rightarrow> Delayed | Some m \<Rightarrow> m) = Delayed)"

text \<open>The pipeline of a core and port, as \<open>main\<close> has it installed.\<close>

definition install_pipeline ::
  "('cr, 'st, 'w, 'm, 'z) net_lib_scheme \<Rightarrow> 'w setup_api \<Rightarrow> ('cr, 'st) bin_api \<Rightarrow> configuration \<Rightarrow> pipe_env \<Rightarrow>
   ('m pcfg \<times> ('st, 'w, 'm) pipe \<times> setup_msg list) option res" where
  "install_pipeline X A B conf e =
     bindR (l234data_from B 0 (targets conf)) (\<lambda>l234s.
     if installs_pipelines (engine conf)
     then bindR (setup_delayed_proxy X A (engine conf) e l234s (f_by_payload B l234s) f_process_payload) (\<lambda>r. Inr (Some r))
     else Inr None)"

section \<open>Replies of the pipelines\<close>

datatype ('pid, 'st) reply =
    ReplyCounter 'pid counter counter
  | ReplyCRecords 'pid "'st option"
  | ReplyOther
  | RecvTimeout
  | RecvError

record ('pid, 'st) replies =
  tcp_counters_c :: "'pid \<rightharpoonup> counter"
  tcp_counters_s :: "'pid \<rightharpoonup> counter"
  con_records :: "'pid \<rightharpoonup> 'st"

text \<open>The loop ends at the first timeout or error; a list that runs out stands for a last wait without a result.\<close>

fun collect_replies :: "('pid, 'st) reply list \<Rightarrow> ('pid, 'st) replies \<Rightarrow> ('pid, 'st) replies" where
  "collect_replies [] r = r"
| "collect_replies (ReplyCounter pid c s # rest) r =
     collect_replies rest (r\<lparr>tcp_counters_c := (tcp_counters_c r)(pid \<mapsto> c), tcp_counters_s := (tcp_counters_s r)(pid \<mapsto> s)\<rparr>)"
| "collect_replies (ReplyCRecords pid (Some recs) # rest) r =
     collect_replies rest (r\<lparr>con_records := (con_records r)(pid \<mapsto> recs)\<rparr>)"
| "collect_replies (ReplyCRecords pid None # rest) r = collect_replies rest r"
| "collect_replies (ReplyOther # rest) r = collect_replies rest r"
| "collect_replies (RecvTimeout # rest) r = r"
| "collect_replies (RecvError # rest) r = r"


text \<open>Nothing after the first timeout is looked at, and the last message of a pipeline before it counts.\<close>

lemma collect_replies_stops: "collect_replies (xs @ RecvTimeout # ys) r = collect_replies xs r"
  by (induction xs r rule: collect_replies.induct) simp_all

lemma collect_replies_append:
  "\<forall>m \<in> set xs. m \<noteq> RecvTimeout \<and> m \<noteq> RecvError \<Longrightarrow> collect_replies (xs @ ys) r = collect_replies ys (collect_replies xs r)"
  by (induction xs r rule: collect_replies.induct) simp_all

lemma collect_replies_last:
  assumes "\<forall>m \<in> set xs. m \<noteq> RecvTimeout \<and> m \<noteq> RecvError"
  shows "tcp_counters_c (collect_replies (xs @ [ReplyCounter pid c s, RecvTimeout]) r) pid = Some c"
    and "con_records (collect_replies (xs @ [ReplyCRecords pid (Some recs), RecvTimeout]) r) pid = Some recs"
  using collect_replies_append [OF assms] by simp_all

section \<open>Evaluation of the records\<close>

text \<open>
  \<open>write_and_evaluate_records\<close>, with the lines of the file as data: how a record is formatted is left to
  its \<open>Display\<close>. Files that cannot be created or written are not modelled.
\<close>

datatype ('pid, 'cr) out_line = PipelineLine 'pid | ClientLine nat 'cr | ServerLine extension

definition closed_cause :: "release_cause \<Rightarrow> bool" where
  "closed_cause r \<longleftrightarrow> r = PassiveClose \<or> r = ActiveClose"

definition completed_count_c :: "('cr, 'st) bin_api \<Rightarrow> ('cr \<times> extension) list \<Rightarrow> nat" where
  "completed_count_c B rows =
     length (filter (\<lambda>(c, s). closed_cause (rec_release_cause B c) \<and> rec_last_state B c = Closed) rows)"

fun completed_count_s :: "'z lib_scheme \<Rightarrow> ('cr \<times> extension) list \<Rightarrow> nat res" where
  "completed_count_s X [] = Inr 0"
| "completed_count_s X ((c, s) # rows) =
     bindR (if closed_cause (ext_release_cause X s) then bindR (ext_last_state X s) (\<lambda>st. Inr (st = Closed)) else Inr False) (\<lambda>b.
     bindR (completed_count_s X rows) (\<lambda>n. Inr (if b then Suc n else n)))"

record 'cr row_eval =
  re_min :: 'cr
  re_max :: 'cr
  re_completed :: nat
  re_total :: "u64 option"

definition first_stamp :: "('cr, 'st) bin_api \<Rightarrow> 'cr \<Rightarrow> u64" where
  "first_stamp B c = (case rec_first_stamp B c of None \<Rightarrow> - 1 | Some t \<Rightarrow> t)"

definition last_stamp :: "('cr, 'st) bin_api \<Rightarrow> 'cr \<Rightarrow> u64" where
  "last_stamp B c = (case rec_last_stamp B c of None \<Rightarrow> 0 | Some t \<Rightarrow> t)"

definition eval_row :: "bool \<Rightarrow> ('cr, 'st) bin_api \<Rightarrow> nat \<Rightarrow> nat \<Rightarrow> 'cr \<Rightarrow> 'cr row_eval \<Rightarrow> 'cr row_eval res" where
  "eval_row checks B len i c st =
     bindR (if closed_cause (rec_release_cause B c)
            then bindR (unwrapR (if rec_states B c = [] then None else Some (last (rec_states B c)))) (\<lambda>s. Inr (s = Closed))
            else Inr False) (\<lambda>completed.
     let st = (if completed then st\<lparr>re_completed := re_completed st + 1\<rparr> else st);
         st = (if first_stamp B c < first_stamp B (re_min st) then st\<lparr>re_min := c\<rparr> else st);
         st = (if last_stamp B c > last_stamp B (re_max st) then st\<lparr>re_max := c\<rparr> else st)
     in if i = len - 1
        then case (rec_first_stamp B (re_min st), rec_last_stamp B (re_max st)) of
               (Some t0, Some t1) \<Rightarrow> bindR (sub_w checks t1 t0) (\<lambda>total. Inr (st\<lparr>re_total := Some total\<rparr>))
             | _ \<Rightarrow> Inr st
        else Inr st)"

fun eval_rows ::
  "bool \<Rightarrow> ('cr, 'st) bin_api \<Rightarrow> nat \<Rightarrow> nat \<Rightarrow> ('cr \<times> extension) list \<Rightarrow> 'cr row_eval \<Rightarrow>
   (('pid, 'cr) out_line list \<times> 'cr row_eval) res" where
  "eval_rows checks B len i [] st = Inr ([], st)"
| "eval_rows checks B len i ((c, s) # rows) st =
     bindR (eval_row checks B len i c st) (\<lambda>st.
     bindR (eval_rows checks B len (Suc i) rows st) (\<lambda>(lines, st).
     Inr (ClientLine i c # ServerLine s # lines, st)))"

definition eval_pipeline ::
  "bool \<Rightarrow> ('cr, 'st) bin_api \<Rightarrow> 'pid \<Rightarrow> ('cr \<times> extension) list \<Rightarrow>
   (('pid, 'cr) out_line list \<times> 'cr row_eval option) res" where
  "eval_pipeline checks B p rows =
     (if rows \<noteq> []
      then let init = \<lparr>re_min = fst (last rows), re_max = fst (last rows), re_completed = 0, re_total = None\<rparr>;
               rows = sort_0_by B (\<lambda>c. snd (rec_sock B c)) rows
           in bindR (eval_rows checks B (length rows) 0 rows init) (\<lambda>(lines, st). Inr (PipelineLine p # lines, Some st))
      else Inr ([PipelineLine p], None))"

fun eval_pipelines ::
  "bool \<Rightarrow> ('cr, 'st) bin_api \<Rightarrow> ('pid \<times> 'st) list \<Rightarrow> ('pid, 'cr) out_line list res" where
  "eval_pipelines checks B [] = Inr []"
| "eval_pipelines checks B ((p, recs) # rest) =
     bindR (eval_pipeline checks B p (con_rows B recs)) (\<lambda>(lines, _).
     bindR (eval_pipelines checks B rest) (\<lambda>more_lines. Inr (lines @ more_lines)))"

definition write_and_evaluate_records ::
  "'z lib_scheme \<Rightarrow> ('cr, 'st) bin_api \<Rightarrow> ('pid \<times> 'st) list \<Rightarrow> (nat \<times> nat \<times> ('pid, 'cr) out_line list) res" where
  "write_and_evaluate_records X B recs =
     (let rows = concat (map (con_rows B \<circ> snd) recs)
      in bindR (completed_count_s X rows) (\<lambda>completed_s.
         bindR (eval_pipelines (overflow_checks X) B recs) (\<lambda>lines.
         Inr (completed_count_c B rows, completed_s, lines))))"

end
