(* ===== verification/Process.thy ===== *)
theory Process
  imports Main_Program
begin

text \<open>
  The process around the pipelines, \<open>main\<close> of \<^verbatim>\<open>bin.rs\<close>: it starts the run-time, has the pipelines
  installed, waits for a signal, asks for counters and records, evaluates them and ends the run-time.

  What \<open>main\<close> does to the run-time and the operating system is the list of its actions, in order; what
  they answer is the record \<open>runtime\<close>. \<open>running k\<close> is the \<open>k\<close>-th reading of the flag that the signal
  handler clears. The main loop runs as long as the flag is set, so the whole result is an \<open>option\<close>. Of
  the log and console output only the memory report of the main loop is kept.
\<close>

section \<open>Actions\<close>

datatype main_msg = StartEngine | PrintPerformance "int list" | MFetchCounter | MFetchCRecords | MExit

datatype ('pid, 'cr) main_action =
    SetupFlowdirector
  | SetSignalHandler
  | StartSchedulers
  | InstallPipelines "l234data list"
  | StartRunTime
  | Send main_msg
  | Sleep nat
  | LogMbufs
  | WriteRecords nat nat "('pid, 'cr) out_line list"
  | ExitProcess

text \<open>
  The answers of the run-time: its configuration if it can be initialised, whether the later steps
  succeed, the active cores, and whether its end of the channel is open when a message is sent.
  \<open>rt_iter\<close> is the order in which a map is iterated.
\<close>

record ('pid, 'st) runtime =
  rt_init :: "configuration option"
  rt_flowdirector :: bool
  rt_signal_handler :: bool
  rt_schedulers :: bool
  rt_install :: bool
  rt_context :: "int list option"
  rt_main_channel :: bool
  rt_open :: "main_msg \<Rightarrow> bool"
  rt_replies :: "('pid, 'st) reply list"
  rt_iter :: "('pid \<rightharpoonup> 'st) \<Rightarrow> ('pid \<times> 'st) list"

definition expect_ok :: "bool \<Rightarrow> unit res" where
  "expect_ok b = (if b then Inr () else Inl ExpectNone)"

definition mtx_send ::
  "('pid, 'st) runtime \<Rightarrow> main_msg \<Rightarrow> ('pid, 'cr) main_action list \<Rightarrow> ('pid, 'cr) main_action list res" where
  "mtx_send R m acts = (if rt_open R m then Inr (acts @ [Send m]) else Inl UnwrapNone)"

definition wants_records :: "configuration \<Rightarrow> bool" where
  "wants_records conf = (case eng_detailed_records (engine conf) of None \<Rightarrow> False | Some b \<Rightarrow> b)"

section \<open>Start\<close>

definition main_start ::
  "('cr, 'st) bin_api \<Rightarrow> ('pid, 'st) runtime \<Rightarrow> (configuration \<times> int list \<times> ('pid, 'cr) main_action list) res" where
  "main_start B R =
     (case rt_init R of
        None \<Rightarrow> Inl ExplicitPanic
      | Some conf \<Rightarrow>
          bindR (expect_ok (rt_flowdirector R)) (\<lambda>_.
          bindR (expect_ok (rt_signal_handler R)) (\<lambda>_.
          bindR (l234data_from B 0 (targets conf)) (\<lambda>l234s.
          bindR (expect_ok (rt_schedulers R)) (\<lambda>_.
          let acts = [SetupFlowdirector, SetSignalHandler, StartSchedulers] in
          bindR (if installs_pipelines (engine conf)
                 then bindR (expect_ok (rt_install R)) (\<lambda>_. Inr (acts @ [InstallPipelines l234s]))
                 else Inr acts) (\<lambda>acts.
          bindR (unwrapR (rt_context R)) (\<lambda>cores.
          let acts = acts @ [StartRunTime] in
          bindR (expect_ok (rt_main_channel R)) (\<lambda>_.
          bindR (mtx_send R StartEngine acts) (\<lambda>acts.
          Inr (conf, cores, acts @ [Sleep 2000]))))))))))"

section \<open>Main loop\<close>

partial_function (option) main_loop ::
  "(nat \<Rightarrow> bool) \<Rightarrow> nat \<Rightarrow> nat \<Rightarrow> ('pid, 'cr) main_action list \<Rightarrow> ('pid, 'cr) main_action list option" where
  "main_loop running k loops acts =
     (if running k
      then if loops = 300 then main_loop running (Suc k) 1 (acts @ [LogMbufs, Sleep 200])
           else main_loop running (Suc k) (loops + 1) (acts @ [Sleep 200])
      else Some acts)"

section \<open>End\<close>

definition main_end ::
  "'z lib_scheme \<Rightarrow> ('cr, 'st) bin_api \<Rightarrow> ('pid, 'st) runtime \<Rightarrow> configuration \<Rightarrow> int list \<Rightarrow>
   ('pid, 'cr) main_action list \<Rightarrow> (('pid, 'st) replies \<times> ('pid, 'cr) main_action list) res" where
  "main_end X B R conf cores acts =
     bindR (mtx_send R (PrintPerformance cores) acts) (\<lambda>acts.
     let acts = acts @ [Sleep 1000] in
     bindR (mtx_send R MFetchCounter acts) (\<lambda>acts.
     bindR (if wants_records conf then mtx_send R MFetchCRecords acts else Inr acts) (\<lambda>acts.
     let r = collect_replies (rt_replies R) \<lparr>tcp_counters_c = Map.empty, tcp_counters_s = Map.empty, con_records = Map.empty\<rparr> in
     bindR (if wants_records conf
            then bindR (write_and_evaluate_records X B (rt_iter R (con_records r))) (\<lambda>(c, s, lines).
                 Inr (acts @ [WriteRecords c s lines]))
            else Inr acts) (\<lambda>acts.
     bindR (mtx_send R MExit acts) (\<lambda>acts.
     Inr (r, acts @ [Sleep 200, ExitProcess]))))))"

definition main_program ::
  "'z lib_scheme \<Rightarrow> ('cr, 'st) bin_api \<Rightarrow> ('pid, 'st) runtime \<Rightarrow> (nat \<Rightarrow> bool) \<Rightarrow>
   (('pid, 'st) replies \<times> ('pid, 'cr) main_action list) res option" where
  "main_program X B R running =
     (case main_start B R of
        Inl e \<Rightarrow> Some (Inl e)
      | Inr (conf, cores, acts) \<Rightarrow>
          map_option (main_end X B R conf cores) (main_loop running 0 300 acts))"

section \<open>The main loop ends with the signal\<close>

text \<open>One round: it sleeps, and every 300th round reports the free memory first.\<close>

definition round :: "nat \<Rightarrow> ('pid, 'cr) main_action list" where
  "round k = (if k mod 300 = 0 then [LogMbufs] else []) @ [Sleep 200]"

lemma main_loop_rounds:
  assumes "\<forall>j < n. running (k + j)" and "\<not> running (k + n)" and "loops = (if k mod 300 = 0 then 300 else k mod 300)"
  shows "main_loop running k loops acts = Some (acts @ concat (map round [k..<k + n]))"
  using assms
proof (induction n arbitrary: k loops acts)
  case 0
  then show ?case by (simp add: main_loop.simps)
next
  case (Suc n)
  have run: "running k" using Suc.prems(1) by (metis add_0_right zero_less_Suc)
  have rest: "\<forall>j < n. running (Suc k + j)" "\<not> running (Suc k + n)" using Suc.prems(1,2) by (metis Suc_less_eq add_Suc_shift, simp)
  have upt: "[k..<k + Suc n] = k # [Suc k..<Suc k + n]" by (simp add: upt_rec)
  have loops: "loops = (if k mod 300 = 0 then 300 else k mod 300)" by (rule Suc.prems(3))
  have nx: "(if loops = 300 then 1 else loops + 1) = (if Suc k mod 300 = 0 then 300 else Suc k mod 300)"
  proof (cases "k mod 300 = 0")
    case True
    then show ?thesis by (simp add: loops mod_Suc)
  next
    case False
    have "k mod 300 < 300" by simp
    then show ?thesis using False by (auto simp: loops mod_Suc)
  qed
  have "main_loop running k loops acts = main_loop running (Suc k) (if loops = 300 then 1 else loops + 1) (acts @ round k)"
    using mod_less_divisor [of 300 k] by (subst main_loop.simps) (auto simp: run round_def loops)
  also have "\<dots> = Some ((acts @ round k) @ concat (map round [Suc k..<Suc k + n]))"
    by (rule Suc.IH [OF rest]) (simp add: nx)
  finally show ?case unfolding upt by simp
qed

lemma main_loop_ends:
  assumes "main_loop running k loops acts = Some r"
  shows "\<exists>n \<ge> k. \<not> running n"
  by (rule main_loop.raw_induct [OF _ assms, where P = "\<lambda>running k loops acts r. \<exists>n \<ge> k. \<not> running n"])
    (meson Suc_leD option.sel order_refl)

lemma main_loop_forever: "\<forall>k. running k \<Longrightarrow> main_loop running k loops acts = None"
  using main_loop_ends by (cases "main_loop running k loops acts") blast+

end
