(* ===== verification/Correct_Program.thy ===== *)
theory Correct_Program
  imports Witness_Library Main_Program "HOL-Library.Multiset"
begin

text \<open>
  Correctness of the main program: the servers it configures, the callbacks it hands to the pipelines
  and the evaluation of the records at the end.
\<close>

section \<open>Servers and their selection\<close>

lemma l234data_from_servers:
  assumes "l234data_from B i ts = Inr srvs"
  shows "length srvs = length ts"
    and "j < length ts \<Longrightarrow> l_ip (srvs ! j) = t_ip (ts ! j) \<and> l_port (srvs ! j) = t_port (ts ! j) \<and>
      l_server_id (srvs ! j) = t_id (ts ! j) \<and> l_index (srvs ! j) = i + j"
proof -
  have "length srvs = length ts \<and> (\<forall>j < length ts. l_ip (srvs ! j) = t_ip (ts ! j) \<and> l_port (srvs ! j) = t_port (ts ! j) \<and>
      l_server_id (srvs ! j) = t_id (ts ! j) \<and> l_index (srvs ! j) = i + j)"
    using assms
  proof (induction B i ts arbitrary: srvs rule: l234data_from.induct)
    case (2 B i t ts)
    obtain m ls where r: "target_mac B t = Inr m" "l234data_from B (Suc i) ts = Inr ls"
      and s: "srvs = \<lparr>l_mac = m, l_ip = t_ip t, l_port = t_port t, l_server_id = t_id t, l_index = i\<rparr> # ls"
      using "2.prems" by (auto simp: bindR_eq_Inr)
    show ?case using "2.IH" [OF r(2)] by (auto simp: s nth_Cons split: nat.splits)
  qed simp
  then show "length srvs = length ts"
    and "j < length ts \<Longrightarrow> l_ip (srvs ! j) = t_ip (ts ! j) \<and> l_port (srvs ! j) = t_port (ts ! j) \<and>
      l_server_id (srvs ! j) = t_id (ts ! j) \<and> l_index (srvs ! j) = i + j" by simp_all
qed

definition serves :: "sock \<Rightarrow> l234data \<Rightarrow> bool" where
  "serves sk l \<longleftrightarrow> l_port l = snd sk \<and> l_ip l = fst sk"

lemma choose_server_Cons [simp]:
  "choose_server sk i (l # rest) c = (if serves sk l then set_server_index (of_nat i) c else choose_server sk (Suc i) rest c)"
  by (simp add: serves_def)

declare choose_server.simps(2) [simp del]

lemma choose_server_none:
  "\<forall>l \<in> set srvs. \<not> serves sk l \<Longrightarrow> choose_server sk i srvs c = c"
  by (induction srvs arbitrary: i) auto

lemma choose_server_some:
  assumes "\<exists>l \<in> set srvs. serves sk l"
  shows "\<exists>j < length srvs. choose_server sk i srvs c = set_server_index (of_nat (i + j)) c \<and> serves sk (srvs ! j) \<and>
    (\<forall>k < j. \<not> serves sk (srvs ! k))"
  using assms
proof (induction srvs arbitrary: i)
  case (Cons l rest)
  show ?case
  proof (cases "serves sk l")
    case True
    then show ?thesis by (intro exI [of _ 0]) simp
  next
    case False
    then obtain j where "j < length rest" "choose_server sk (Suc i) rest c = set_server_index (of_nat (Suc i + j)) c"
      "serves sk (rest ! j)" "\<forall>k < j. \<not> serves sk (rest ! k)"
      using Cons.IH [of "Suc i"] Cons.prems by auto
    then show ?thesis using False by (intro exI [of _ "Suc j"]) (auto simp: nth_Cons split: nat.splits)
  qed
qed simp

text \<open>
  C24. The callback of the main program selects the server that the client's first payload names: it
  is the first server of the configuration with that address and port, for up to 256 servers; if no
  server has it, the connection keeps the server it has. A payload that cannot be decoded panics.
\<close>

theorem payload_selects_server:
  assumes "payload_packet c = Some p" and "length srvs \<le> 256"
  shows "case deserialize_cdata B (payload p) of
      None \<Rightarrow> f_by_payload B srvs c = Inl ExpectNone
    | Some sk \<Rightarrow> \<exists>i. f_by_payload B srvs c = Inr (c\<lparr>server_index := i\<rparr>) \<and>
        (if \<exists>l \<in> set srvs. serves sk l
         then unat i < length srvs \<and> serves sk (srvs ! unat i) \<and> (\<forall>k < unat i. \<not> serves sk (srvs ! k))
         else i = server_index c)"
proof (cases "deserialize_cdata B (payload p)")
  case None
  then show ?thesis using assms(1) by (simp add: f_by_payload_def expectR_def)
next
  case (Some sk)
  then have run: "f_by_payload B srvs c = Inr (choose_server sk 0 srvs c)"
    using assms(1) by (simp add: f_by_payload_def expectR_def)
  show ?thesis
  proof (cases "\<exists>l \<in> set srvs. serves sk l")
    case True
    then obtain j where j: "j < length srvs" "choose_server sk 0 srvs c = set_server_index (of_nat j) c" "serves sk (srvs ! j)"
      "\<forall>k < j. \<not> serves sk (srvs ! k)" using choose_server_some [OF True, of 0 c] by auto
    have "unat (of_nat j :: u8) = j" using j(1) assms(2) by (simp add: unat_of_nat)
    then show ?thesis
      using Some run j by (simp add: True set_server_index_def) (intro exI [of _ "of_nat j"], simp)
  next
    case False
    then have "choose_server sk 0 srvs c = c" by (intro choose_server_none) auto
    then show ?thesis using Some run False by simp
  qed
qed

definition B0 :: "(crec, rstore) bin_api" where
  "B0 = \<lparr>get_mac_from_ifname = (\<lambda>_. None),
     deserialize_cdata = (\<lambda>bs. if bs = [1] then Some (201, 8081) else if bs = [] then None else Some (0, 0)),
     con_rows = (\<lambda>st. map (\<lambda>k. (rs_recs st k, rs_exts st k)) [0..<rs_next st]), sort_0_by = (\<lambda>_ rows. rows),
     rec_sock = (\<lambda>_. (7, 5000)), rec_release_cause = cr_cause, rec_last_state = (\<lambda>r. last (cr_log r)), rec_states = cr_log,
     rec_first_stamp = (\<lambda>r. Some (cr_stamp r)), rec_last_stamp = (\<lambda>r. Some (cr_stamp r + 10))\<rparr>"

theorem payload_selects_server_witness:
  "\<exists>i. f_by_payload B0 [srv0, srv1] ((con_new X0)\<lparr>payload_packet := Some (pdu0\<lparr>payload := [1]\<rparr>)\<rparr>) =
     Inr ((con_new X0)\<lparr>payload_packet := Some (pdu0\<lparr>payload := [1]\<rparr>), server_index := i\<rparr>) \<and> serves (201, 8081) ([srv0, srv1] ! unat i)"
  using payload_selects_server [where c = "(con_new X0)\<lparr>payload_packet := Some (pdu0\<lparr>payload := [1]\<rparr>)\<rparr>" and srvs = "[srv0, srv1]" and B = B0]
  by (auto simp: B0_def srv1_def serves_def)

text \<open>The callbacks of the main program satisfy what the pipelines ask of them.\<close>

lemma f_by_payload_ok:
  assumes "f_by_payload B srvs c = Inr c'" and "length srvs \<le> 256"
  shows "\<exists>i. c' = c\<lparr>server_index := i\<rparr> \<and> (unat (server_index c) < length srvs \<longrightarrow> unat i < length srvs)"
proof -
  obtain sk where c': "c' = choose_server sk 0 srvs c" using assms(1) by (auto simp: f_by_payload_def bindR_eq_Inr)
  show ?thesis
  proof (cases "\<exists>l \<in> set srvs. serves sk l")
    case True
    then obtain j where j: "j < length srvs" "choose_server sk 0 srvs c = set_server_index (of_nat j) c"
      using choose_server_some [OF True, of 0 c] by auto
    moreover have "unat (of_nat j :: u8) = j" using j(1) assms(2) by (simp add: unat_of_nat)
    ultimately show ?thesis by (intro exI [of _ "of_nat j"]) (simp add: c' set_server_index_def)
  next
    case False
    then have "c' = c" unfolding c' by (intro choose_server_none) auto
    then show ?thesis by (intro exI [of _ "server_index c"]) simp
  qed
qed

lemma installed_callbacks:
  assumes run: "install_pipeline X A B conf e = Inr (Some (cfg, W, msgs))" and few: "length (targets conf) \<le> 256"
  obtains srvs where "setup_delayed_proxy X A (engine conf) e srvs (f_by_payload B srvs) f_process_payload = Inr (cfg, W, msgs)"
    and "select_ok cfg" and "process_ok cfg" and "length (servers cfg) = length (targets conf)"
    and "\<And>c p. selectable cfg c p \<longleftrightarrow> deserialize_cdata B (payload p) \<noteq> None"
proof -
  obtain srvs where l: "l234data_from B 0 (targets conf) = Inr srvs"
    and s: "setup_delayed_proxy X A (engine conf) e srvs (f_by_payload B srvs) f_process_payload = Inr (cfg, W, msgs)"
    using run by (auto simp: install_pipeline_def bindR_eq_Inr split: if_splits)
  note k = setup_constants [OF s]
  have len: "length srvs = length (targets conf)" by (rule l234data_from_servers [OF l])
  have "select_ok cfg"
    unfolding select_ok_def k
  proof (intro allI impI)
    fix c b c' assume b: "payload_packet c = Some b" and r: "f_by_payload B srvs c = Inr c'"
    obtain i where i: "c' = c\<lparr>server_index := i\<rparr>" "unat (server_index c) < length srvs \<longrightarrow> unat i < length srvs"
      using f_by_payload_ok [OF r] few len by auto
    have "c\<lparr>payload_packet := Some b, server_index := i\<rparr> = c\<lparr>server_index := i\<rparr>" using b by (cases c) simp
    then show "\<exists>b' i. c' = c\<lparr>payload_packet := Some b', server_index := i\<rparr> \<and> refcnt b' = refcnt b \<and>
        (unat (server_index c) < length srvs \<longrightarrow> unat i < length srvs)"
      using i by (intro exI [of _ b] exI [of _ i]) simp
  qed
  moreover have "process_ok cfg" by (simp add: process_ok_def k f_process_payload_def)
  moreover have "selectable cfg c p \<longleftrightarrow> deserialize_cdata B (payload p) \<noteq> None" for c p
    by (cases "deserialize_cdata B (payload p)") (simp_all add: selectable_def k f_by_payload_def no_panic_def expectR_def)
  ultimately show ?thesis using that s k len by blast
qed

text \<open>
  C37. An acknowledgement without payload can bring the program down: any packet that a connection
  receives between the handshake and the first data, also a repeated ACK, is taken for the first
  payload packet, and the callback panics on an empty payload that it cannot decode.
\<close>

theorem bare_ack_panics:
  assumes "install_pipeline X A B conf e = Inr (Some (cfg, W, msgs))" and "length (targets conf) \<le> 256"
    and "\<forall>n. \<exists>b. new_pdu_array X n = Some b \<and> b \<noteq> []" and "state_order_ok X"
    and "alloc_ok (f_alloc f)" and "sides_of X (f_con f) = (Established, Listen)"
    and "ack_flag tcp" and "\<not> syn_flag tcp" and "\<not> fin_flag tcp" and "\<not> rst_flag tcp" and "ackn_p2c (f_con f) \<le> seq_num tcp"
    and "payload (f_pdu f) = []" and "deserialize_cdata B [] = None"
  shows "client_step X cfg clk tcp f = Inl ExpectNone"
proof -
  obtain srvs where s: "setup_delayed_proxy X A (engine conf) e srvs (f_by_payload B srvs) f_process_payload = Inr (cfg, W, msgs)"
    by (rule installed_callbacks [OF assms(1,2)])
  obtain syn a where a: "get_pdu X (f_alloc f) = (Some syn, a)" using get_pdu_ok [OF assms(3,5)] by blast
  have "client_first_payload X cfg clk f = Inl ExpectNone"
    using assms(12,13)
    by (simp add: client_first_payload_def a select_server_def setup_constants(2) [OF s] f_by_payload_def expectR_def Let_def)
  then show ?thesis
    using states_of_sides [OF assms(6)] assms(4,7-11)
    by (simp add: client_step_def client_tcp_def not_less state_order_simps Let_def)
qed

text \<open>The program with two targets, on the concrete library.\<close>

definition conf0 :: configuration where
  "conf0 = \<lparr>targets = [\<lparr>t_id = ''s0'', t_ip = 200, t_mac = Some 20, t_linux_if = None, t_port = 8080\<rparr>,
       \<lparr>t_id = ''s1'', t_ip = 201, t_mac = Some 21, t_linux_if = None, t_port = 8081\<rparr>], engine = eng0, test_size = None\<rparr>"

definition cfg1 :: "unit pcfg" where
  "cfg1 = cfg0\<lparr>f_select_server := f_by_payload B0 [srv0, srv1], f_process_payload_c_s := f_process_payload\<rparr>"

lemma install0:
  "install_pipeline X0 A0 B0 conf0 penv0 =
     Inr (Some (cfg1, W0, [ChannelMsg, TickGeneratorTask, Pipe2KniTask, Pipe2PciTask, BypassPipeTask]))"
proof -
  have "l234data_from B0 0 (targets conf0) = Inr [srv0, srv1]"
    by (simp add: conf0_def target_mac_def srv0_def srv1_def)
  moreover have "setup_delayed_proxy X0 A0 eng0 penv0 [srv0, srv1] (f_by_payload B0 [srv0, srv1]) f_process_payload =
     Inr (cfg1, W0, [ChannelMsg, TickGeneratorTask, Pipe2KniTask, Pipe2PciTask, BypassPipeTask])"
    by (simp add: setup_delayed_proxy_def W0_def penv0_def eng0_def A0_def Let_def cm_new_def X0_def add_w_def sub_w_def
      mul_w_def TIMER_WHEEL_RESOLUTION_MS_def send_msg_def assertR_def div_w_def cfg0_def cfg1_def me0_def clamp_timeout_def)
  ultimately show ?thesis by (simp add: install_pipeline_def conf0_def installs_pipelines_def eng0_def)
qed

theorem bare_ack_panics_witness:
  "client_step X0 cfg1 (\<lambda>_. 0) (tcp_h (pktC 1 False True False)) (next_packet (pktC 1 False True False) (frm pdu0 Established Listen)) =
     Inl ExpectNone"
proof (rule bare_ack_panics [OF install0])
  show "alloc_ok (f_alloc (next_packet (pktC 1 False True False) (frm pdu0 Established Listen)))"
    using frame_okD(5) [OF next_packet_ok [OF frm_ok]] .
  show "\<forall>n. \<exists>b. new_pdu_array X0 n = Some b \<and> b \<noteq> []" using env0 by (simp add: env_ok_def)
  show "state_order_ok X0" by (rule order0)
  show "payload (f_pdu (next_packet (pktC 1 False True False) (frm pdu0 Established Listen))) = []" by (simp add: pktC_def pdu0_def)
qed (simp_all add: conf0_def frm_con B0_def)

section \<open>Evaluation of the records\<close>

definition rec_completed :: "('cr, 'st) bin_api \<Rightarrow> 'cr \<Rightarrow> bool" where
  "rec_completed B c \<longleftrightarrow> closed_cause (rec_release_cause B c) \<and> last (rec_states B c) = Closed"

text \<open>A record of a connection that was used: it has logged states, and its last stamp is not before its first.\<close>

definition rec_ok :: "('cr, 'st) bin_api \<Rightarrow> 'cr \<Rightarrow> bool" where
  "rec_ok B c \<longleftrightarrow> rec_states B c \<noteq> [] \<and> rec_first_stamp B c \<noteq> None \<and> rec_last_stamp B c \<noteq> None \<and>
     first_stamp B c \<le> last_stamp B c"

lemma eval_row_ok:
  assumes "rec_ok B c" and "rec_ok B (re_min st)" and "rec_ok B (re_max st)"
    and "first_stamp B (re_min st) \<le> last_stamp B (re_max st)"
  shows "\<exists>st'. eval_row checks B len i c st = Inr st' \<and>
    re_min st' = (if first_stamp B c < first_stamp B (re_min st) then c else re_min st) \<and>
    re_max st' = (if last_stamp B c > last_stamp B (re_max st) then c else re_max st) \<and>
    re_completed st' = re_completed st + (if rec_completed B c then 1 else 0) \<and>
    (i = len - 1 \<longrightarrow> re_total st' = Some (last_stamp B (re_max st') - first_stamp B (re_min st')))"
proof -
  let ?mn = "if first_stamp B c < first_stamp B (re_min st) then c else re_min st"
  let ?mx = "if last_stamp B c > last_stamp B (re_max st) then c else re_max st"
  have some: "rec_first_stamp B d = Some (first_stamp B d)" "rec_last_stamp B d = Some (last_stamp B d)" if "rec_ok B d" for d
    using that by (auto simp: rec_ok_def first_stamp_def last_stamp_def)
  have ok: "rec_ok B ?mn" "rec_ok B ?mx" using assms by simp_all
  have le: "first_stamp B ?mn \<le> last_stamp B ?mx" using assms by (auto simp: rec_ok_def)
  then have sub: "sub_w checks (last_stamp B ?mx) (first_stamp B ?mn) = Inr (last_stamp B ?mx - first_stamp B ?mn)"
    by (simp add: sub_w_def not_less)
  define st1 where "st1 = st\<lparr>re_completed := re_completed st + (if rec_completed B c then 1 else 0), re_min := ?mn, re_max := ?mx\<rparr>"
  have "eval_row checks B len i c st = (if i = len - 1
      then Inr (st1\<lparr>re_total := Some (last_stamp B ?mx - first_stamp B ?mn)\<rparr>) else Inr st1)"
    using assms(1) some [OF ok(1)] some [OF ok(2)] sub
    by (cases "closed_cause (rec_release_cause B c)"; cases "last (rec_states B c) = Closed";
        cases "first_stamp B c < first_stamp B (re_min st)"; cases "last_stamp B c > last_stamp B (re_max st)")
      (simp_all add: eval_row_def Let_def rec_ok_def rec_completed_def st1_def)
  then show ?thesis by (cases "i = len - 1") (simp_all add: st1_def)
qed

text \<open>The lines of the connections: one for the client, numbered, and one for the server.\<close>

definition record_lines :: "nat \<Rightarrow> ('cr \<times> extension) list \<Rightarrow> ('pid, 'cr) out_line list" where
  "record_lines i rows = concat (map (\<lambda>(j, c, s). [ClientLine j c, ServerLine s]) (enumerate i rows))"

lemma record_lines_simps [simp]:
  "record_lines i [] = []" "record_lines i ((c, s) # rows) = ClientLine i c # ServerLine s # record_lines (Suc i) rows"
  by (simp_all add: record_lines_def)

lemma eval_rows_ok:
  fixes B :: "('cr, 'st) bin_api"
  assumes "\<forall>(c, s) \<in> set rows. rec_ok B c" and "rec_ok B (re_min st)" and "rec_ok B (re_max st)"
    and "first_stamp B (re_min st) \<le> last_stamp B (re_max st)" and "len = i + length rows"
  shows "\<exists>(lines :: ('pid, 'cr) out_line list) st'. eval_rows checks B len i rows st = Inr (lines, st') \<and>
    lines = record_lines i rows \<and>
    re_completed st' = re_completed st + length (filter (\<lambda>(c, s). rec_completed B c) rows) \<and>
    re_min st' \<in> insert (re_min st) (fst ` set rows) \<and> re_max st' \<in> insert (re_max st) (fst ` set rows) \<and>
    (\<forall>c \<in> insert (re_min st) (fst ` set rows). first_stamp B (re_min st') \<le> first_stamp B c) \<and>
    (\<forall>c \<in> insert (re_max st) (fst ` set rows). last_stamp B c \<le> last_stamp B (re_max st')) \<and>
    (rows \<noteq> [] \<longrightarrow> re_total st' = Some (last_stamp B (re_max st') - first_stamp B (re_min st')))"
  using assms
proof (induction rows arbitrary: i st)
  case Nil
  then show ?case by simp
next
  case (Cons r rows)
  obtain c s where r: "r = (c, s)" by (cases r)
  have c: "rec_ok B c" using Cons.prems(1) r by simp
  obtain st1 where e: "eval_row checks B len i c st = Inr st1"
    and mn: "re_min st1 = (if first_stamp B c < first_stamp B (re_min st) then c else re_min st)"
    and mx: "re_max st1 = (if last_stamp B c > last_stamp B (re_max st) then c else re_max st)"
    and co: "re_completed st1 = re_completed st + (if rec_completed B c then 1 else 0)"
    and tot: "i = len - 1 \<longrightarrow> re_total st1 = Some (last_stamp B (re_max st1) - first_stamp B (re_min st1))"
    using eval_row_ok [OF c Cons.prems(2-4), of checks len i] by blast
  have ok1: "rec_ok B (re_min st1)" "rec_ok B (re_max st1)" "first_stamp B (re_min st1) \<le> last_stamp B (re_max st1)"
    using c Cons.prems(2-4) by (auto simp: mn mx rec_ok_def)
  have pre: "\<forall>(c, s) \<in> set rows. rec_ok B c" "len = Suc i + length rows" using Cons.prems(1,5) by simp_all
  obtain lines :: "('pid, 'cr) out_line list" and st' where IH: "eval_rows checks B len (Suc i) rows st1 = Inr (lines, st')" "lines = record_lines (Suc i) rows"
    "re_completed st' = re_completed st1 + length (filter (\<lambda>(c, s). rec_completed B c) rows)"
    "re_min st' \<in> insert (re_min st1) (fst ` set rows)" "re_max st' \<in> insert (re_max st1) (fst ` set rows)"
    "\<forall>c \<in> insert (re_min st1) (fst ` set rows). first_stamp B (re_min st') \<le> first_stamp B c"
    "\<forall>c \<in> insert (re_max st1) (fst ` set rows). last_stamp B c \<le> last_stamp B (re_max st')"
    "rows \<noteq> [] \<longrightarrow> re_total st' = Some (last_stamp B (re_max st') - first_stamp B (re_min st'))"
    using Cons.IH [OF pre(1) ok1 pre(2)] by (elim exE conjE)
  have run: "eval_rows checks B len i (r # rows) st = Inr (ClientLine i c # ServerLine s # lines, st')"
    by (simp add: r e IH(1))
  have t: "re_total st' = Some (last_stamp B (re_max st') - first_stamp B (re_min st'))"
  proof (cases "rows = []")
    case True
    then show ?thesis using IH(1) tot pre(2) by simp
  qed (use IH(8) in simp)
  have lo: "first_stamp B (re_min st') \<le> first_stamp B (re_min st1)" and hi: "last_stamp B (re_max st1) \<le> last_stamp B (re_max st')"
    using IH(6,7) by simp_all
  have lo1: "first_stamp B (re_min st1) \<le> first_stamp B c" "first_stamp B (re_min st1) \<le> first_stamp B (re_min st)"
    and hi1: "last_stamp B c \<le> last_stamp B (re_max st1)" "last_stamp B (re_max st) \<le> last_stamp B (re_max st1)"
    by (auto simp: mn mx)
  have "re_min st' \<in> insert (re_min st) (fst ` set (r # rows))" "re_max st' \<in> insert (re_max st) (fst ` set (r # rows))"
    using IH(4,5) by (auto simp: mn mx r split: if_splits)
  moreover have "\<forall>c \<in> insert (re_min st) (fst ` set (r # rows)). first_stamp B (re_min st') \<le> first_stamp B c"
    using IH(6) lo lo1 by (auto simp: r intro: order_trans)
  moreover have "\<forall>c \<in> insert (re_max st) (fst ` set (r # rows)). last_stamp B c \<le> last_stamp B (re_max st')"
    using IH(7) hi hi1 by (auto simp: r intro: order_trans)
  moreover have "re_completed st' = re_completed st + length (filter (\<lambda>(c, s). rec_completed B c) (r # rows))"
    using IH(3) co by (simp add: r)
  ultimately show ?case using run t IH(2) by (intro exI [of _ "ClientLine i c # ServerLine s # lines"] exI [of _ st'] conjI) (simp_all add: r)
qed

text \<open>
  C26. The evaluation of a pipeline's records is complete, in whatever order the store sorts the client
  records: after the line of the pipeline the file gets, for every row of the sorted store in turn, the
  client's line with its number and then the server's line, and nothing else; the completed
  connections are those whose client record tells a close by one of the two sides and ends in the
  closed state, each counted once; and the total time reaches from the earliest first stamp to the
  latest last stamp of all connections. Of the sorting it is asked that it permutes the client records.
\<close>

theorem records_evaluated:
  fixes B :: "('cr, 'st) bin_api" and p :: 'pid
  assumes "rows \<noteq> []" and "\<forall>(c, s) \<in> set rows. rec_ok B c"
    and "\<forall>k. mset (map fst (sort_0_by B k rows)) = mset (map fst rows)"
  shows "\<exists>st. eval_pipeline checks B p rows =
      Inr (PipelineLine p # concat (map (\<lambda>(i, c, s). [ClientLine i c, ServerLine s])
        (enumerate 0 (sort_0_by B (\<lambda>c. snd (rec_sock B c)) rows))), Some st) \<and>
    re_completed st = length (filter (\<lambda>(c, s). rec_completed B c) rows) \<and>
    re_min st \<in> fst ` set rows \<and> re_max st \<in> fst ` set rows \<and>
    (\<forall>c \<in> fst ` set rows. first_stamp B (re_min st) \<le> first_stamp B c \<and> last_stamp B c \<le> last_stamp B (re_max st)) \<and>
    re_total st = Some (last_stamp B (re_max st) - first_stamp B (re_min st))"
proof -
  let ?rows = "sort_0_by B (\<lambda>c. snd (rec_sock B c)) rows"
  let ?init = "\<lparr>re_min = fst (last rows), re_max = fst (last rows), re_completed = 0, re_total = None\<rparr>"
  have last: "last rows \<in> set rows" using assms(1) by simp
  have l: "rec_ok B (fst (last rows))" using assms(2) last by (auto simp: case_prod_unfold)
  have perm: "mset (map fst ?rows) = mset (map fst rows)" using assms(3) by blast
  have s: "fst ` set ?rows = fst ` set rows" using mset_eq_setD [OF perm] by simp
  have ne: "?rows \<noteq> []" using mset_eq_length [OF perm] assms(1) by auto
  have count: "length (filter (\<lambda>(c, s). rec_completed B c) xs) = size (filter_mset (rec_completed B) (mset (map fst xs)))"
    for xs :: "('cr \<times> extension) list" by (induction xs) auto
  have "\<forall>c \<in> fst ` set ?rows. rec_ok B c" unfolding s using assms(2) by auto
  then have pre: "\<forall>(c, s) \<in> set ?rows. rec_ok B c" "rec_ok B (re_min ?init)" "rec_ok B (re_max ?init)"
    "first_stamp B (re_min ?init) \<le> last_stamp B (re_max ?init)" "length ?rows = 0 + length ?rows"
    using l by (auto simp: rec_ok_def)
  obtain lines :: "('pid, 'cr) out_line list" and st where r: "eval_rows checks B (length ?rows) 0 ?rows ?init = Inr (lines, st)"
    "lines = record_lines 0 ?rows"
    "re_completed st = re_completed ?init + length (filter (\<lambda>(c, s). rec_completed B c) ?rows)"
    "re_min st \<in> insert (re_min ?init) (fst ` set ?rows)" "re_max st \<in> insert (re_max ?init) (fst ` set ?rows)"
    "\<forall>c \<in> insert (re_min ?init) (fst ` set ?rows). first_stamp B (re_min st) \<le> first_stamp B c"
    "\<forall>c \<in> insert (re_max ?init) (fst ` set ?rows). last_stamp B c \<le> last_stamp B (re_max st)"
    "?rows \<noteq> [] \<longrightarrow> re_total st = Some (last_stamp B (re_max st) - first_stamp B (re_min st))"
    using eval_rows_ok [OF pre, of checks] by (elim exE conjE)
  have run: "eval_pipeline checks B p rows = Inr (PipelineLine p # lines, Some st)"
    using assms(1) r(1) by (simp add: eval_pipeline_def Let_def)
  have "re_completed st = length (filter (\<lambda>(c, s). rec_completed B c) rows)" 
    using r(3) by (simp only: count perm) simp
  then show ?thesis
    using run r(4-) [unfolded s] last ne unfolding r(2) record_lines_def by (intro exI [of _ st] conjI) auto
qed

theorem records_evaluated_witness:
  "\<exists>st. eval_pipeline True B0 (1 :: nat) [(crec0, ext0), (crec0\<lparr>cr_stamp := 5\<rparr>, ext0)] =
      Inr ([PipelineLine 1, ClientLine 0 crec0, ServerLine ext0, ClientLine 1 (crec0\<lparr>cr_stamp := 5\<rparr>), ServerLine ext0], Some st) \<and>
    re_total st = Some 15"
proof -
  let ?rows = "[(crec0, ext0), (crec0\<lparr>cr_stamp := 5\<rparr>, ext0)]"
  have pre: "\<forall>(c, s) \<in> set ?rows. rec_ok B0 c" "\<forall>k. mset (map fst (sort_0_by B0 k ?rows)) = mset (map fst ?rows)"
    by (simp_all add: B0_def crec0_def rec_ok_def first_stamp_def last_stamp_def)
  obtain st where st: "eval_pipeline True B0 (1 :: nat) ?rows =
      Inr (PipelineLine 1 # concat (map (\<lambda>(i, c, s). [ClientLine i c, ServerLine s])
        (enumerate 0 (sort_0_by B0 (\<lambda>c. snd (rec_sock B0 c)) ?rows))), Some st)"
    "re_min st \<in> fst ` set ?rows" "re_max st \<in> fst ` set ?rows"
    "\<forall>c \<in> fst ` set ?rows. first_stamp B0 (re_min st) \<le> first_stamp B0 c \<and> last_stamp B0 c \<le> last_stamp B0 (re_max st)"
    "re_total st = Some (last_stamp B0 (re_max st) - first_stamp B0 (re_min st))"
    using records_evaluated [OF _ pre, of True "1 :: nat"] by auto
  have "re_total st = Some 15"
    using st(2-) by (auto simp: B0_def crec0_def first_stamp_def last_stamp_def)
  moreover have "sort_0_by B0 (\<lambda>c. snd (rec_sock B0 c)) ?rows = ?rows" by (simp add: B0_def)
  ultimately show ?thesis using st(1) by (intro exI [of _ st]) simp
qed

end
