(* ===== verification/Correct_Process.thy ===== *)
theory Correct_Process
  imports Process Correct_Program
begin

text \<open>
  Correctness of the process around the pipelines: what it does from its start to its end, and that
  it ends exactly when it is told to.
\<close>

text \<open>
  C25. When the run-time does its part, the process runs until the first reading of the flag that the
  signal handler has cleared, and then ends in order. Before the engine is started, the pipelines have
  been installed with the configured servers (in the mode it implements); while it runs, it only
  sleeps, and reports the free memory every 300th time; at the end it asks for the counters and, if
  they are wanted, for the records, evaluates those, and ends the run-time as the last thing before
  itself. Its result is what the replies say. A flag that is never cleared keeps it running for ever.
\<close>

theorem process_ends_in_order:
  fixes B :: "('cr, 'st) bin_api" and R :: "('pid, 'st) runtime"
  assumes conf: "rt_init R = Some conf" and srv: "l234data_from B 0 (targets conf) = Inr l234s"
    and ok: "rt_flowdirector R" "rt_signal_handler R" "rt_schedulers R" "rt_install R" "rt_main_channel R"
    and cores: "rt_context R = Some cores" and tx: "\<forall>m. rt_open R m"
    and r: "r = collect_replies (rt_replies R) \<lparr>tcp_counters_c = Map.empty, tcp_counters_s = Map.empty, con_records = Map.empty\<rparr>"
    and recs: "wants_records conf \<Longrightarrow> write_and_evaluate_records X B (rt_iter R (con_records r)) = Inr (c, s, lines)"
    and signal: "\<forall>j < n. running j" "\<not> running n"
  shows "main_program X B R running = Some (Inr (r,
      [SetupFlowdirector, SetSignalHandler, StartSchedulers] @
      (if installs_pipelines (engine conf) then [InstallPipelines l234s] else []) @
      [StartRunTime, Send StartEngine, Sleep 2000] @ concat (map round [0..<n]) @
      [Send (PrintPerformance cores), Sleep 1000, Send MFetchCounter] @
      (if wants_records conf then [Send MFetchCRecords, WriteRecords c s lines] else []) @
      [Send MExit, Sleep 200, ExitProcess])) \<and>
    (\<forall>flag. (\<forall>k. flag k) \<longrightarrow> main_program X B R flag = None)"
proof -
  define a where "a = [SetupFlowdirector, SetSignalHandler, StartSchedulers] @
      (if installs_pipelines (engine conf) then [InstallPipelines l234s] else []) @
      [StartRunTime, Send StartEngine, Sleep 2000 :: ('pid, 'cr) main_action]"
  have start: "main_start B R = Inr (conf, cores, a)"
    using conf srv ok cores tx by (simp add: main_start_def expect_ok_def mtx_send_def a_def)
  have loop: "main_loop running 0 300 a = Some (a @ concat (map round [0..<n]))"
    using main_loop_rounds [of n running 0 300 a] signal by simp
  have fin: "main_end X B R conf cores acts = Inr (r, acts @ [Send (PrintPerformance cores), Sleep 1000, Send MFetchCounter] @
      (if wants_records conf then [Send MFetchCRecords, WriteRecords c s lines] else []) @ [Send MExit, Sleep 200, ExitProcess])" for acts
    using tx recs by (simp add: main_end_def mtx_send_def r [symmetric] Let_def)
  have "main_program X B R flag = None" if "\<forall>k. flag k" for flag
    by (simp add: main_program_def start main_loop_forever [OF that])
  moreover have "main_program X B R running = Some (Inr (r, (a @ concat (map round [0..<n])) @
      [Send (PrintPerformance cores), Sleep 1000, Send MFetchCounter] @
      (if wants_records conf then [Send MFetchCRecords, WriteRecords c s lines] else []) @ [Send MExit, Sleep 200, ExitProcess]))"
    by (simp only: main_program_def start sum.case prod.case loop option.map fin)
  ultimately show ?thesis unfolding a_def by (simp only: append_assoc append_Cons append_Nil) blast
qed

definition R0 :: "(nat, rstore) runtime" where
  "R0 = \<lparr>rt_init = Some conf0, rt_flowdirector = True, rt_signal_handler = True, rt_schedulers = True, rt_install = True,
     rt_context = Some [1, 2], rt_main_channel = True, rt_open = (\<lambda>_. True), rt_replies = [ReplyCounter 0 (\<lambda>_. 4) (\<lambda>_. 2), RecvTimeout],
     rt_iter = (\<lambda>_. [])\<rparr>"

theorem process_ends_in_order_witness:
  "main_program X0 B0 R0 (\<lambda>k. k < 2) = Some (Inr (
      \<lparr>tcp_counters_c = [0 \<mapsto> \<lambda>_. 4], tcp_counters_s = [0 \<mapsto> \<lambda>_. 2], con_records = Map.empty\<rparr>,
      [SetupFlowdirector, SetSignalHandler, StartSchedulers, InstallPipelines [srv0, srv1], StartRunTime, Send StartEngine, Sleep 2000,
       LogMbufs, Sleep 200, Sleep 200, Send (PrintPerformance [1, 2]), Sleep 1000, Send MFetchCounter, Send MExit, Sleep 200, ExitProcess]))"
proof -
  have "l234data_from B0 0 (targets conf0) = Inr [srv0, srv1]"
    by (simp add: conf0_def target_mac_def srv0_def srv1_def)
  from process_ends_in_order [where R = R0 and n = 2 and running = "\<lambda>k. k < 2" and X = X0, OF _ this _ _ _ _ _ _ _ refl]
  show ?thesis
    by (simp add: R0_def conf0_def eng0_def wants_records_def installs_pipelines_def round_def numeral_2_eq_2)
qed

end
