(* ===== verification/Spec2Isabelle.thy ===== *)
theory Spec2Isabelle
  imports Correct_Records Correct_Manager Correct_Forward Correct_Pipeline Correct_Session Correct_Graph Correct_Limits
    Correct_Process
begin

text \<open>
  A verification of ProxyEngine, a TCP proxy with delayed binding: a client connects to the proxy, the
  proxy answers the handshake itself, and only the client's first payload decides which server the
  connection is bound to. The program is in Rust: \<^verbatim>\<open>src/src/cmanager.rs\<close> keeps the connections,
  \<^verbatim>\<open>nftcp.rs\<close> handles packets, \<^verbatim>\<open>lib.rs\<close> sets pipelines up, \<^verbatim>\<open>bin.rs\<close> is the main program.

  \<^bold>\<open>How the parts work together.\<close> The main program reads the configuration, builds the list of servers
  and installs one pipeline per core and port. A pipeline is a closure that is called with every
  packet and returns the group the packet goes to (0 drop, 1 network, 2 kernel). It looks the
  connection up in its \<open>ConnectionManager\<close>, by the client's socket or by the proxy port that the server
  answers to, runs one of two TCP state machines, rewrites the packet, and releases the connection
  when both sides are closed. Timer packets drive a timer wheel that releases old connections, and
  carry messages from the run-time. With detailed records on, every state change is also logged in a
  store that the connections share.

  \<^bold>\<open>Theories and the code they model.\<close>

  \<^item> \<open>Prelude\<close>: panics as values (\<open>panic\<close>, \<open>res\<close>, \<open>bindR\<close>), Rust arithmetic with and without overflow checks,
    lemmas on masked words. \<open>Netfcts_Api\<close>: enums, packets and headers shared with the libraries.
  \<^item> \<open>Extension\<close>: \<open>Extension\<close>, the server's half of a connection record (\<^verbatim>\<open>cmanager.rs\<close> 31-130), with the line it is displayed as.
    \<open>Connection\<close>: \<open>DetailedConnection\<close> and \<open>ProxyConnection\<close> (132-433), with the \<open>Rc\<close> cells of the stores as a heap.
  \<^item> \<open>Manager\<close>: \<open>ConnectionManager\<close> (442-689). \<open>Manager_Inv\<close>, \<open>Manager_Ops\<close>, \<open>Manager_Release\<close>: its invariant and
    what every operation does to it. \<open>Session_Table\<close>: the abstract table of sessions it implements; the
    contract is the locale \<open>session_impl\<close>, extended by look-ups in \<open>session_directory\<close>, and interpreted on
    the operations of the manager.
  \<^item> \<open>Forward\<close>, \<open>Forward_Lemmas\<close>: the packet allocator and the packet functions (\<^verbatim>\<open>nftcp.rs\<close> 125-418).
  \<^item> \<open>Pipeline\<close>: the closure \<open>delayed_binding_closure\<close> (425-836), one definition per branch.
    \<open>Pipeline_Inv\<close>: hypotheses on the callbacks, the invariants of a pipeline, and that every branch keeps
    them. \<open>Protocol\<close>: the two state machines as inductive transition relations on pairs of states, and
    that every packet makes one of their transitions. \<open>Pipeline_Safe\<close>: whole packets, reachable states of
    a pipeline, and the invariants by rule induction. \<open>Lifecycle\<close>, \<open>Server_Log\<close>: what the packets of a regular
    connection do, one by one. \<open>Session_Run\<close>, \<open>Session_Phases\<close>: whole runs of the closure over the packets of
    one connection, driven by a script in which each packet may depend on what the proxy has sent.
  \<^item> \<open>Setup\<close>: \<open>setup_delayed_proxy\<close> around the closure (45-178, 851-861) and \<open>setup_pipes_delayed_proxy\<close>
    (\<^verbatim>\<open>lib.rs\<close> 82-156). \<open>Graph\<close>: the tasks it builds around the closure (\<^verbatim>\<open>nftcp.rs\<close> 119-123, 180-184,
    838-861), as steps on the queues of a pipeline in any order, with the logs of what the tasks hand to
    the interfaces; its specification \<open>serve\<close> is the closure run on one packet after the other. \<open>Typing\<close>:
    every operation keeps the state bytes of all connections well typed.
  \<^item> \<open>Main_Program\<close>: servers, callbacks, installation, reply loop and evaluation of the records (\<^verbatim>\<open>bin.rs\<close>
    47-116, 141-216, 255-281). \<open>Process\<close>: \<open>main\<close> as a whole (118-290), as the sequence of its actions.
  \<^item> \<open>Witness_Library\<close>: a concrete library and pipeline on which all hypotheses hold together.
    \<open>Correct_Records\<close>, \<open>Correct_Manager\<close>, \<open>Correct_Forward\<close>, \<open>Correct_Pipeline\<close>, \<open>Correct_Session\<close>, \<open>Correct_Graph\<close>,
    \<open>Correct_Limits\<close>, \<open>Correct_Program\<close>, \<open>Correct_Process\<close> and this theory hold the properties, each with an
    instance on that library.

  \<^bold>\<open>What is shown.\<close> The manager implements the session table and conserves its ports; translated packets
  carry the right addresses and numbers, and the two directions are inverse to each other across the
  wrap-around of sequence numbers; every packet makes a transition of the TCP state machines; whole
  sessions, from the SYN over any exchange of data to the last ACK, are bound, forwarded and closed,
  and leave the pipeline as it was; every run of the tasks serves the packets of each queue once, in
  order, and sends each where its group says; connections stay well typed;
  logs and stamps are read back and displayed as they were written; the process ends in order when it
  is told to; and, from set-up on, no admissible packet makes a pipeline panic or loop (\<open>pipeline_never_panics\<close>, and
  \<open>program_never_panics\<close> for the callbacks of the main program). \<open>Correct_Limits\<close> and some theorems of
  \<open>Correct_Manager\<close> and \<open>Correct_Program\<close> state where the code does not do what it is meant to do.

  \<^bold>\<open>Libraries.\<close> netfcts, e2d2, eui48 and bincode are not part of the repository. Their functions are fields
  of parameter records (\<open>lib\<close>, \<open>ext_text\<close>, \<open>rec_lib\<close>, \<open>mgr_lib\<close>, \<open>net_lib\<close>, \<open>setup_api\<close>, \<open>ports_api\<close>, \<open>graph_api\<close>,
  \<open>bin_api\<close>, \<open>runtime\<close>), and what the code relies on is stated by the predicates \<open>codes_ok\<close>, \<open>state_order_ok\<close>, \<open>store_ok\<close>, \<open>shuffle_ok\<close>, \<open>wheel_ok\<close>,
  \<open>wheel_catches_up\<close>, \<open>net_ok\<close>, \<open>payload_size_ok\<close>, \<open>graph_ok\<close> and \<open>setup_api_ok\<close>. The wheel is assumed to take an entry only while it
  holds fewer than \<open>2 ^ 16\<close>, since its indices are 16 bits wide.

  \<^bold>\<open>Conventions.\<close> Machine integers keep their width. A panic is a value of the result and nothing runs after
  it. The release of timeouts is a loop that ends only if the wheel catches up, and the main loop of the
  process ends only on a signal; both are partial functions into \<open>option\<close>, and that they end is proved.
  Readings of the time-stamp counter are a function from the number of the reading. Statistics
  counters are natural numbers: they would overflow after
  \<open>2 ^ 64\<close> packets.

  \<^bold>\<open>Not modelled.\<close> Log and console output and the statistics of the \<open>profiling\<close> feature, which is off by default,
  change nothing the closure works on; with them go the arguments of the log macros, among them the
  \<open>sock().unwrap()\<close> of two messages (\<^verbatim>\<open>nftcp.rs\<close> 758, 814) and the arithmetic of one (104), which could fail
  only with that log level on. What is left of the four source files is imports, module
  declarations, re-exports and these two. The scheduler, the network cards and the run-time threads
  are libraries: any order of their events is allowed for. The integration tests drive real cards.
  The safety theorems are for pipelines without detailed records; with them, the code does panic, as
  \<open>repeated_server_fin_panics\<close> and \<open>fetch_c_records_breaks_open_sessions\<close> show.
\<close>

section \<open>The whole pipeline\<close>

text \<open>
  C1. A pipeline never panics. Take any pipeline that set-up returns without detailed records, any
  sequence of packets and timer ticks it has handled, and any further packet: the closure returns,
  hands the packet to one of the three groups, and all invariants hold again. The hypotheses are the
  documented behaviour of the library (\<open>shuffle_ok\<close>, \<open>env_ok\<close>, \<open>wheel_ok\<close>, \<open>wheel_catches_up\<close>), a port
  mask that leaves low bits open, and admissible packets.
\<close>

theorem pipeline_never_panics:
  assumes "setup_delayed_proxy X A eng e srvs f1 f2 = Inr (cfg, W_init, msgs)" and "shuffle_ok X"
    and "env_flow e = Some (ip, base)" and "mask_conf (env_port_mask e) base" and "base + NOT (env_port_mask e) \<noteq> 0"
    and "eng_detailed_records eng \<noteq> Some True" and "env_ok X cfg" and "wheel_ok X ent" and "wheel_catches_up X lag"
    and "reachable X cfg ent W_init W" and "input_ok X cfg ent p W"
  shows "\<exists>W' p' g. delayed_binding_closure X cfg clk msg p W = Some (Inr (W', p', g)) \<and> g \<le> 2 \<and>
    pipe_inv X cfg ent W' \<and> reachable X cfg ent W_init W'"
proof -
  have inv: "pipe_inv X cfg ent W"
    using reachable_inv [OF assms(10) setup_inv(1) [OF assms(1-7)] assms(7-9)] by blast
  obtain W' p' g where r: "delayed_binding_closure X cfg clk msg p W = Some (Inr (W', p', g))" "pipe_inv X cfg ent W'" "g \<le> 2"
    using closure_ok [OF inv assms(7-9,11)] by blast
  have "reachable X cfg ent W_init W'"
    by (rule reachable.further [OF assms(10) pipe_step.packet [OF assms(11) r(1)]])
  then show ?thesis using r by blast
qed

theorem pipeline_never_panics_witness:
  "\<exists>W' p' g. delayed_binding_closure X0 cfg0 (\<lambda>_. 3) None synA W0 = Some (Inr (W', p', g)) \<and> g \<le> 2 \<and>
    pipe_inv X0 cfg0 ent0 W'"
  using pipeline_never_panics [OF setup0 shuffle0 _ _ _ _ env0 wheel0 catches0 reachable.start synA_ok, of 101 "0xC000" "\<lambda>_. 3" None]
    mask0
  by (auto simp: penv0_def eng0_def)

text \<open>
  C4. In every reachable state of a pipeline without detailed records, each connection in use is in a
  consistent pair of states: no server has been contacted for a client that is not connected, a
  server is being contacted only for an established client, and while the server side is established
  the client is established or closing.
\<close>

theorem reachable_connections_consistent:
  assumes "setup_delayed_proxy X A eng e srvs f1 f2 = Inr (cfg, W_init, msgs)" and "shuffle_ok X"
    and "env_flow e = Some (ip, base)" and "mask_conf (env_port_mask e) base" and "base + NOT (env_port_mask e) \<noteq> 0"
    and "eng_detailed_records eng \<noteq> Some True" and "env_ok X cfg" and "wheel_ok X ent" and "wheel_catches_up X lag"
    and "state_order_ok X" and "reachable X cfg ent W_init W" and "owns_tcp_port (p_cm W) q" and "in_use (con_at (p_cm W) q)"
  shows "(con_server_state X (con_at (p_cm W) q) = Listen \<longrightarrow>
      con_client_state X (con_at (p_cm W) q) \<in> {Closed, SynSent, Established}) \<and>
    (con_server_state X (con_at (p_cm W) q) = SynReceived \<longrightarrow> con_client_state X (con_at (p_cm W) q) = Established) \<and>
    (con_server_state X (con_at (p_cm W) q) = Established \<longrightarrow>
      con_client_state X (con_at (p_cm W) q) \<in> {Established, FinWait1, FinWait2})"
proof -
  have "proto_table X (p_cm W)"
    by (rule reachable_proto [OF assms(11) setup_inv(1) [OF assms(1-7)] assms(7-10) setup_inv(2) [OF assms(1-7)]])
  then have "proto_inv (sides_of X (con_at (p_cm W) q))" using assms(12,13) by (simp add: proto_table_def)
  then show ?thesis by (simp add: sides_of_def)
qed

theorem reachable_connections_consistent_witness:
  "\<exists>W. reachable X0 cfg0 ent0 W0 W \<and> in_use (con_at (p_cm W) 0xC000) \<and>
    con_server_state X0 (con_at (p_cm W) 0xC000) = Listen \<and>
    con_client_state X0 (con_at (p_cm W) 0xC000) \<in> {Closed, SynSent, Established}"
proof -
  obtain W where W: "owns_tcp_port (p_cm W) 0xC000" "in_use (con_at (p_cm W) 0xC000)"
    "sides_of X0 (con_at (p_cm W) 0xC000) = (SynSent, Listen)" "reachable X0 cfg0 ent0 W0 W"
    by (rule W0_synA)
  then show ?thesis
    using reachable_connections_consistent [OF setup0 shuffle0 _ _ _ _ env0 wheel0 catches0 order0 W(4,1,2), of 101 "0xC000"] mask0
    by (intro exI [of _ W]) (simp add: penv0_def eng0_def sides_of_def)
qed

text \<open>
  C15. The server's SYN-ACK completes the binding. In every reachable state of a pipeline without detailed
  records, the payload packet that a connection has saved is held by nobody else, so that the
  assertion on its reference count holds; and when the SYN-ACK comes, the proxy queues the ACK of the
  handshake and right after it the saved packet, which carries the same numbers as the ACK, the push
  flag and the client's payload unchanged; the saved packet is gone from the connection.
\<close>

theorem synack_sends_delayed_payload:
  assumes "setup_delayed_proxy X A eng e srvs f1 f2 = Inr (cfg, W_init, msgs)" and "shuffle_ok X"
    and "env_flow e = Some (ip, base)" and "mask_conf (env_port_mask e) base" and "base + NOT (env_port_mask e) \<noteq> 0"
    and "eng_detailed_records eng \<noteq> Some True" and "env_ok X cfg" and "wheel_ok X ent" and "wheel_catches_up X lag"
    and "reachable X cfg ent W_init W" and "owns_tcp_port (p_cm W) port" and "in_use (con_at (p_cm W) port)"
    and "payload_packet (con_at (p_cm W) port) = Some b"
  shows "refcnt b = 1 \<and>
    (\<exists>ack dat c'. server_synack_received X p (con_at (p_cm W) port) q = Inr (ack, c', q @ [ack, dat]) \<and>
      seq_num (tcp_h ack) = seqn (con_at (p_cm W) port) + 1 \<and> ack_num (tcp_h ack) = seq_num (tcp_h p) + 1 \<and>
      src_port (tcp_h ack) = dst_port (tcp_h p) \<and> dst_port (tcp_h ack) = src_port (tcp_h p) \<and>
      ack_flag (tcp_h ack) \<and> \<not> syn_flag (tcp_h ack) \<and> ip_dst (ip_h ack) = ip_src (ip_h p) \<and>
      tcp_h dat = (tcp_h ack)\<lparr>psh_flag := True\<rparr> \<and> payload dat = payload b \<and> ip_h dat = ip_h b \<and>
      payload_packet c' = None \<and> c_seqn c' = c_seqn (con_at (p_cm W) port) - seq_num (tcp_h p))"
proof -
  have "pipe_inv X cfg ent W"
    using reachable_inv [OF assms(10) setup_inv(1) [OF assms(1-7)] assms(7-9)] by blast
  then have ref: "refcnt b = 1" using assms(11-13) by (simp add: pipe_inv_def table_ok_def con_ok_def)
  have "net_ok X" using assms(7) by (simp add: env_ok_def)
  from synack_payload [OF this assms(13) ref, of p q] show ?thesis using ref by auto
qed

text \<open>A pipeline that has seen the SYN, the ACK and the first payload of a client.\<close>

lemma bound0:
  obtains W b where "reachable X0 cfg0 ent0 W0 W" and "owns_tcp_port (p_cm W) 0xC000" and "in_use (con_at (p_cm W) 0xC000)"
    and "payload_packet (con_at (p_cm W) 0xC000) = Some b"
proof -
  let ?syn = "wire 7 100 5000 80 500 0 True False False" and ?ack = "wire 7 100 5000 80 501 0 False True False"
  have new: "sock2port (p_cm W0) (7, 5000) = None" "free_ports (p_cm W0) = 0xC000 # [0xC001, 0xC002, 0xC003]"
    "wheel_load ent0 (p_wheel W0) < 2 ^ 16"
    by (simp_all add: W0_cm cm0_conf cm0_free W0_wheel load0_Nil)
  note fc = wire_from(1)
  have tcp: "tcp_packet X0 cfg0 ?syn" "tcp_packet X0 cfg0 ?ack"
    using fc [of 500 0 True False False] fc [of 501 0 False True False] by (simp_all add: from_client_def)
  obtain W1 p1 where 1: "delayed_binding_closure X0 cfg0 (\<lambda>_. 3) None ?syn W0 = Some (Inr (W1, p1, 1))"
    "stage X0 cfg0 ent0 (7, 5000) 0xC000 W0 W1 (SynSent, Listen)" "ackn_p2c (con_at (p_cm W1) 0xC000) = 501"
    using stage_syn [OF W0_inv env0 order0 wheel0 fc _ _ new(3,1,2), of 500 0 True False False "\<lambda>_. 3" None] by auto
  obtain W2 p2 where 2: "delayed_binding_closure X0 cfg0 (\<lambda>_. 3) None ?ack W1 = Some (Inr (W2, p2, 0))"
    "stage X0 cfg0 ent0 (7, 5000) 0xC000 W0 W2 (Established, Listen)" "ackn_p2c (con_at (p_cm W2) 0xC000) = 501"
    using stage_ack [OF 1(2) env0 order0 wheel0 fc, of 501 0 False True False "\<lambda>_. 3" None] 1(3) by auto
  obtain W3 p3 b where 3: "delayed_binding_closure X0 cfg0 (\<lambda>_. 3) None ?ack W2 = Some (Inr (W3, p3, 1))"
    "stage X0 cfg0 ent0 (7, 5000) 0xC000 W0 W3 (Established, SynReceived)" "payload_packet (con_at (p_cm W3) 0xC000) = Some b"
    using stage_payload [OF 2(2) env0 order0 wheel0 fc, of 501 0 False True False "\<lambda>_. 3" None] 2(3) selectable0 by auto
  note k1 = closure_tcp_keeps [OF tcp(1) net0 1(1)] and k2 = closure_tcp_keeps [OF tcp(2) net0 2(1)]
  have "input_ok X0 cfg0 ent0 ?syn W0" "input_ok X0 cfg0 ent0 ?ack W1" "input_ok X0 cfg0 ent0 ?ack W2"
    using new(3) k1 k2 selectable0
    by (simp_all add: input_ok_def W0_wheel client_packet_ok_def bind_ok_def) (simp_all add: wire_def)
  then have "reachable X0 cfg0 ent0 W0 W3"
    by (meson reachable.start reachable.further pipe_step.packet 1(1) 2(1) 3(1))
  moreover have "cm_inv (p_cm W3)" using stageD(1) [OF 3(2)] by (simp add: pipe_inv_def)
  ultimately show ?thesis
    using that [of W3 b] cm_inv_sock2port(1,2) [OF _ stageD(2) [OF 3(2)]] 3(3) by blast
qed

theorem synack_sends_delayed_payload_witness:
  "\<exists>W b ack dat c'. reachable X0 cfg0 ent0 W0 W \<and> payload_packet (con_at (p_cm W) 0xC000) = Some b \<and> refcnt b = 1 \<and>
    server_synack_received X0 pktS (con_at (p_cm W) 0xC000) [] = Inr (ack, c', [ack, dat]) \<and>
    ack_num (tcp_h ack) = 9001 \<and> payload dat = payload b"
proof -
  obtain W b where W: "reachable X0 cfg0 ent0 W0 W" "owns_tcp_port (p_cm W) 0xC000" "in_use (con_at (p_cm W) 0xC000)"
    "payload_packet (con_at (p_cm W) 0xC000) = Some b" by (rule bound0)
  have "refcnt b = 1 \<and> (\<exists>ack dat c'. server_synack_received X0 pktS (con_at (p_cm W) 0xC000) [] = Inr (ack, c', [ack, dat]) \<and>
      ack_num (tcp_h ack) = 9001 \<and> payload dat = payload b)"
    using synack_sends_delayed_payload [OF setup0 shuffle0 _ _ _ _ env0 wheel0 catches0 W, of 101 "0xC000" pktS "[]"] mask0
    by (auto simp: penv0_def eng0_def pktS_def)
  then show ?thesis using W(1,4) by blast
qed

text \<open>
  C5. The program as it is installed without detailed records never panics in its pipelines: with the
  servers of the configuration (at most 256 of them) and the callbacks of the main program, every
  packet a pipeline may be given is handled, whatever it has handled before. The configuration must
  not turn detailed records on, as \<^verbatim>\<open>proxy_run.toml\<close> and the test configurations do: with detailed
  records a pipeline can panic, as \<open>repeated_server_fin_panics\<close> and
  \<open>fetch_c_records_breaks_open_sessions\<close> show. Of the packets this asks that the first payload of a
  connection is one that can be decoded; the other hypotheses are about the library, the configured
  timeout and the port mask.
\<close>

theorem program_never_panics:
  assumes run: "install_pipeline X A B conf e = Inr (Some (cfg, W_init, msgs))"
    and targets: "targets conf \<noteq> []" "length (targets conf) \<le> 256" and shuffle: "shuffle_ok X"
    and ports: "env_flow e = Some (ip, base)" "mask_conf (env_port_mask e) base" "base + NOT (env_port_mask e) \<noteq> 0"
    and plain: "eng_detailed_records (engine conf) \<noteq> Some True"
    and lib: "net_ok X" "codes_ok X" "\<forall>n. \<exists>b. new_pdu_array X n = Some b \<and> b \<noteq> []"
    and timeout: "timeouts_established cfg = Some t" "unat t * unat (env_cpu_clock e) < 2 ^ 64"
    and wheel: "wheel_ok X ent" "wheel_catches_up X lag"
    and reach: "reachable X cfg ent W_init W" and inp: "input_ok X cfg ent p W"
  shows "(\<exists>W' p' g. delayed_binding_closure X cfg clk msg p W = Some (Inr (W', p', g)) \<and> g \<le> 2 \<and> pipe_inv X cfg ent W') \<and>
    (\<forall>c q. selectable cfg c q \<longleftrightarrow> deserialize_cdata B (payload q) \<noteq> None)"
proof -
  obtain srvs where s: "setup_delayed_proxy X A (engine conf) e srvs (f_by_payload B srvs) f_process_payload = Inr (cfg, W_init, msgs)"
    and cb: "select_ok cfg" "process_ok cfg" "length (servers cfg) = length (targets conf)"
    and sel: "\<And>c p. selectable cfg c p \<longleftrightarrow> deserialize_cdata B (payload p) \<noteq> None"
    by (rule installed_callbacks [OF run targets(2)]) metis
  have "servers cfg \<noteq> []" using cb(3) targets(1) by auto
  then have env: "env_ok X cfg"
    using lib cb timeout setup_constants(4,5) [OF s] by (auto simp: env_ok_def)
  have inv: "pipe_inv X cfg ent W"
    using reachable_inv [OF reach setup_inv(1) [OF s shuffle ports plain env] env wheel] by blast
  then show ?thesis using closure_ok [OF inv env wheel inp, of clk msg] sel by blast
qed

theorem program_never_panics_witness:
  "\<exists>W' p' g. delayed_binding_closure X0 cfg1 (\<lambda>_. 3) None synA W0 = Some (Inr (W', p', g)) \<and> g \<le> 2"
proof -
  have "input_ok X0 cfg1 ent0 synA W0" using synA_ok by (simp add: input_ok_def synA_def)
  moreover have "\<forall>n. \<exists>b. new_pdu_array X0 n = Some b \<and> b \<noteq> []" using env0 by (simp add: env_ok_def)
  moreover have "timeouts_established cfg1 = Some 200" by (simp add: cfg1_def cfg0_def)
  ultimately show ?thesis
    using program_never_panics [OF install0 _ _ shuffle0 _ _ _ _ net0 codes0 _ _ _ wheel0 catches0 reachable.start,
        of 101 "0xC000" 200 synA "\<lambda>_. 3" None] mask0
    by (simp add: penv0_def eng0_def conf0_def) blast
qed

end
